(* ===== verification/BTree.thy ===== *)
theory BTree
  imports Prelude
begin

text \<open>
  \<open>std::collections::BTreeMap\<close> and \<open>BTreeSet\<close>. A map is the list of its entries in strictly
  ascending key order, so iteration order, which several broker replies expose, is part of
  the model. The type carries the order invariant, and equality of maps is equality of entries.
\<close>

fun ins_entry :: "'k::linorder \<Rightarrow> 'v \<Rightarrow> ('k \<times> 'v) list \<Rightarrow> ('k \<times> 'v) list" where
  "ins_entry k v [] = [(k, v)]"
| "ins_entry k v ((j, w) # es) =
     (if k < j then (k, v) # (j, w) # es
      else if k = j then (k, v) # es
      else (j, w) # ins_entry k v es)"

lemma keys_ins_entry: "set (map fst (ins_entry k v es)) = insert k (set (map fst es))"
  by (induction k v es rule: ins_entry.induct) auto

lemma sorted_ins_entry:
  "sorted_wrt (<) (map fst es) \<Longrightarrow> sorted_wrt (<) (map fst (ins_entry k v es))"
proof (induction k v es rule: ins_entry.induct)
  case (1 k v)
  then show ?case by simp
next
  case (2 k v j w es)
  show ?case
  proof (cases "k < j \<or> k = j")
    case True
    with "2.prems" show ?thesis by force
  next
    case False
    then have jk: "j < k" by auto
    with 2 have s: "sorted_wrt (<) (map fst (ins_entry k v es))" by simp
    have "\<forall>x \<in> set (map fst (ins_entry k v es)). j < x"
      using "2.prems" jk by (simp only: keys_ins_entry) simp
    moreover have "\<not> k < j" "k \<noteq> j" using jk by auto
    ultimately show ?thesis using s by simp
  qed
qed

lemma map_of_ins_entry:
  "map_of (ins_entry k v es) = (map_of es)(k \<mapsto> v)"
  by (induction k v es rule: ins_entry.induct) (auto simp: fun_eq_iff)

lemma sorted_filter_keys:
  "sorted_wrt (<) (map fst es) \<Longrightarrow> sorted_wrt (<) (map fst (filter P es))"
  by (induction es) auto

lemma sorted_map_values:
  "sorted_wrt (<) (map fst es) \<Longrightarrow> sorted_wrt (<) (map fst (map (\<lambda>(k, v). (k, f k v)) es))"
  by (induction es) auto

lemma sorted_keys_distinct:
  "sorted_wrt (<) (map fst es) \<Longrightarrow> distinct (map fst (es :: ('k::linorder \<times> 'v) list))"
  by (simp add: strict_sorted_iff)

typedef (overloaded) ('k::linorder, 'v) btree =
  "{es :: ('k \<times> 'v) list. sorted_wrt (<) (map fst es)}"
  morphisms bt_entries BTree
  by (rule exI [of _ "[]"]) simp

setup_lifting type_definition_btree

lift_definition bt_empty :: "('k::linorder, 'v) btree" is "[]"
  by simp

lift_definition bt_insert :: "'k::linorder \<Rightarrow> 'v \<Rightarrow> ('k, 'v) btree \<Rightarrow> ('k, 'v) btree" is ins_entry
  by (rule sorted_ins_entry)

lift_definition bt_remove :: "'k::linorder \<Rightarrow> ('k, 'v) btree \<Rightarrow> ('k, 'v) btree" is
  "\<lambda>k. filter (\<lambda>e. fst e \<noteq> k)"
  by (rule sorted_filter_keys)

text \<open>\<open>values_mut\<close> / \<open>get_mut\<close> over all entries, and \<open>retain\<close>.\<close>

lift_definition bt_map :: "('k::linorder \<Rightarrow> 'v \<Rightarrow> 'w) \<Rightarrow> ('k, 'v) btree \<Rightarrow> ('k, 'w) btree" is
  "\<lambda>f. map (\<lambda>(k, v). (k, f k v))"
  by (rule sorted_map_values)

lift_definition bt_retain :: "('k::linorder \<Rightarrow> 'v \<Rightarrow> bool) \<Rightarrow> ('k, 'v) btree \<Rightarrow> ('k, 'v) btree" is
  "\<lambda>P. filter (\<lambda>e. P (fst e) (snd e))"
  by (rule sorted_filter_keys)

instantiation btree :: (linorder, equal) equal
begin

definition equal_btree :: "('a, 'b) btree \<Rightarrow> ('a, 'b) btree \<Rightarrow> bool" where
  "equal_btree m n \<longleftrightarrow> bt_entries m = bt_entries n"

instance
  by standard (simp add: equal_btree_def bt_entries_inject)

end

definition bt_get :: "('k::linorder, 'v) btree \<Rightarrow> 'k \<Rightarrow> 'v option" where
  "bt_get m k = map_of (bt_entries m) k"

definition bt_keys :: "('k::linorder, 'v) btree \<Rightarrow> 'k list" where
  "bt_keys m = map fst (bt_entries m)"

definition bt_values :: "('k::linorder, 'v) btree \<Rightarrow> 'v list" where
  "bt_values m = map snd (bt_entries m)"

text \<open>\<open>if let Some(v) = m.get_mut(k) { *v = f(v) }\<close>.\<close>

definition bt_update :: "'k::linorder \<Rightarrow> ('v \<Rightarrow> 'v) \<Rightarrow> ('k, 'v) btree \<Rightarrow> ('k, 'v) btree" where
  "bt_update k f m = (case bt_get m k of None \<Rightarrow> m | Some v \<Rightarrow> bt_insert k (f v) m)"

lemmas bt_entries_simps [simp] =
  bt_empty.rep_eq bt_insert.rep_eq bt_remove.rep_eq bt_map.rep_eq bt_retain.rep_eq

subsection \<open>Lookup laws\<close>

lemma bt_sorted: "sorted_wrt (<) (map fst (bt_entries m))"
  using bt_entries [of m] by simp

lemma bt_distinct: "distinct (map fst (bt_entries m))"
  by (rule sorted_keys_distinct) (rule bt_sorted)

lemma bt_get_empty [simp]: "bt_get bt_empty k = None"
  by (simp add: bt_get_def)

lemma bt_get_insert: "bt_get (bt_insert k v m) = (bt_get m)(k \<mapsto> v)"
  by (simp add: bt_get_def fun_eq_iff map_of_ins_entry)

lemma bt_get_insert_apply [simp]:
  "bt_get (bt_insert k v m) j = (if j = k then Some v else bt_get m j)"
  by (simp add: bt_get_insert)

lemma map_of_filter_key: "map_of (filter (\<lambda>e. fst e \<noteq> k) es) j = (if j = k then None else map_of es j)"
  by (induction es) auto

lemma bt_get_remove [simp]:
  "bt_get (bt_remove k m) j = (if j = k then None else bt_get m j)"
  by (simp add: bt_get_def map_of_filter_key)

lemma bt_get_map [simp]: "bt_get (bt_map f m) k = map_option (f k) (bt_get m k)"
proof -
  have "map_of (map (\<lambda>(k, v). (k, f k v)) es) k = map_option (f k) (map_of es k)" for es
    by (induction es) auto
  then show ?thesis by (simp add: bt_get_def)
qed

lemma map_of_filter_entries:
  "distinct (map fst es) \<Longrightarrow>
   map_of (filter (\<lambda>e. P (fst e) (snd e)) es) k = option_filter (P k) (map_of es k)"
proof (induction es)
  case Nil
  then show ?case by simp
next
  case (Cons e es)
  obtain j w where e: "e = (j, w)" by (cases e)
  have "map_of es k = None" if "k = j"
    using Cons.prems that e by (force simp: map_of_eq_None_iff)
  then show ?case using Cons e by (cases "k = j") auto
qed

lemma bt_get_retain [simp]:
  "bt_get (bt_retain P m) k = option_filter (P k) (bt_get m k)"
  by (simp add: bt_get_def map_of_filter_entries bt_distinct)

lemma bt_get_update [simp]:
  "bt_get (bt_update k f m) j = (if j = k then map_option f (bt_get m k) else bt_get m j)"
  by (cases "bt_get m k") (auto simp: bt_update_def)

lemma bt_entries_iff: "(k, v) \<in> set (bt_entries m) \<longleftrightarrow> bt_get m k = Some v"
  by (simp add: bt_get_def map_of_eq_Some_iff bt_distinct)

lemma bt_keys_iff: "k \<in> set (bt_keys m) \<longleftrightarrow> bt_get m k \<noteq> None"
  by (force simp: bt_keys_def bt_get_def map_of_eq_None_iff)

lemma bt_values_iff: "v \<in> set (bt_values m) \<longleftrightarrow> (\<exists>k. bt_get m k = Some v)"
  by (force simp: bt_values_def simp flip: bt_entries_iff)

lemma sorted_alist_ext:
  assumes "sorted_wrt (<) (map fst es)" "sorted_wrt (<) (map fst fs)"
    and "map_of es = map_of (fs :: ('k::linorder \<times> 'v) list)"
  shows "es = fs"
proof -
  have d: "distinct (map fst es)" "distinct (map fst fs)"
    using assms(1,2) by (auto intro: sorted_keys_distinct)
  have k: "map fst es = map fst fs"
  proof (rule strict_sorted_equal)
    show "set (map fst es) = set (map fst fs)"
      using assms(3) by (metis dom_map_of_conv_image_fst list.set_map)
  qed (use assms in auto)
  have "map snd es = map snd fs"
  proof (rule nth_equalityI)
    show len: "length (map snd es) = length (map snd fs)"
      using k by (metis length_map)
    fix i assume i: "i < length (map snd es)"
    have "fst (es ! i) = fst (fs ! i)"
      using k i len by (metis length_map nth_map)
    moreover have "map_of es (fst (es ! i)) = Some (snd (es ! i))"
      using d(1) i by (simp add: map_of_eq_Some_iff)
    moreover have "map_of fs (fst (fs ! i)) = Some (snd (fs ! i))"
      using d(2) i len by (simp add: map_of_eq_Some_iff)
    ultimately show "map snd es ! i = map snd fs ! i"
      using assms(3) i len by simp
  qed
  with k show ?thesis by (metis zip_map_fst_snd)
qed

lemma bt_ext: "(\<And>k. bt_get m k = bt_get n k) \<Longrightarrow> m = n"
proof -
  assume "\<And>k. bt_get m k = bt_get n k"
  then have "map_of (bt_entries m) = map_of (bt_entries n)"
    by (auto simp: bt_get_def fun_eq_iff)
  then have "bt_entries m = bt_entries n"
    by (intro sorted_alist_ext bt_sorted)
  then show ?thesis by (simp add: bt_entries_inject)
qed

lemma bt_eq_iff: "m = n \<longleftrightarrow> (\<forall>k. bt_get m k = bt_get n k)"
  by (auto intro: bt_ext)

lemma bt_update_id: "bt_get m k = None \<Longrightarrow> bt_update k f m = m"
  by (simp add: bt_update_def)

subsection \<open>First entry satisfying a predicate\<close>

text \<open>\<open>m.iter().find_map\<close> returning the key: the least key whose entry satisfies the test.\<close>

definition bt_find_key :: "('k::linorder \<Rightarrow> 'v \<Rightarrow> bool) \<Rightarrow> ('k, 'v) btree \<Rightarrow> 'k option" where
  "bt_find_key P m = find_map (\<lambda>(k, v). if P k v then Some k else None) (bt_entries m)"

lemma bt_find_key_Some:
  assumes "bt_find_key P m = Some k"
  obtains v where "bt_get m k = Some v" "P k v"
  using find_map_Some [OF assms [unfolded bt_find_key_def]]
  by (auto simp: bt_entries_iff split: if_splits)

lemma bt_find_key_None_iff:
  "bt_find_key P m = None \<longleftrightarrow> (\<forall>k v. bt_get m k = Some v \<longrightarrow> \<not> P k v)"
  by (fastforce simp: bt_find_key_def find_map_None_iff simp flip: bt_entries_iff split: if_splits)

lemma bt_find_key_unique:
  assumes "bt_get m k = Some v" "P k v"
    and "\<And>j w. bt_get m j = Some w \<Longrightarrow> P j w \<Longrightarrow> j = k"
  shows "bt_find_key P m = Some k"
proof (cases "bt_find_key P m")
  case None
  with assms(1,2) show ?thesis by (auto simp: bt_find_key_None_iff)
next
  case (Some j)
  then obtain w where "bt_get m j = Some w" "P j w" by (rule bt_find_key_Some)
  then have "j = k" by (rule assms(3))
  with Some show ?thesis by simp
qed

subsection \<open>Sets\<close>

type_synonym 'k btset = "('k, unit) btree"

abbreviation bts_list :: "'k::linorder btset \<Rightarrow> 'k list" where
  "bts_list s \<equiv> bt_keys s"

abbreviation bts_insert :: "'k::linorder \<Rightarrow> 'k btset \<Rightarrow> 'k btset" where
  "bts_insert k s \<equiv> bt_insert k () s"

definition bts_mem :: "'k::linorder \<Rightarrow> 'k btset \<Rightarrow> bool" where
  "bts_mem k s \<longleftrightarrow> bt_get s k \<noteq> None"

lemma bts_mem_empty [simp]: "\<not> bts_mem k bt_empty"
  by (simp add: bts_mem_def)

lemma bts_mem_insert [simp]: "bts_mem k (bt_insert j u s) \<longleftrightarrow> k = j \<or> bts_mem k s"
  by (simp add: bts_mem_def)

lemma bts_mem_remove [simp]: "bts_mem k (bt_remove j s) \<longleftrightarrow> k \<noteq> j \<and> bts_mem k s"
  by (simp add: bts_mem_def)

lemma set_bts_list: "set (bts_list s) = {k. bts_mem k s}"
  by (auto simp: bt_keys_iff bts_mem_def)

lemma bts_ext: "(\<And>k. bts_mem k s = bts_mem k (t :: 'k::linorder btset)) \<Longrightarrow> s = t"
  by (rule bt_ext) (metis bts_mem_def not_None_eq unit.exhaust)

end
