(* ===== verification/Json.thy ===== *)
theory Json
  imports BTree Complex_Main
begin

text \<open>
  \<open>serde_json::Value\<close> and the part of serde's derived deserializers the sources rely on.
  The workspace builds \<open>serde_json\<close> without \<open>preserve_order\<close>, so an object is a \<open>BTreeMap\<close>:
  its entries are listed in ascending key order (\<open>json_wf\<close>). A number is the private enum of
  \<open>serde_json::Number\<close>; a finite \<open>f64\<close> is a rational.
\<close>

datatype jnum = PosInt nat | NegInt int | Float rat

datatype json =
    JNull
  | JBool bool
  | JNum jnum
  | JStr string
  | JArr "json list"
  | JObj "(string \<times> json) list"

fun json_wf :: "json \<Rightarrow> bool" where
  "json_wf (JArr vs) = list_all json_wf vs"
| "json_wf (JObj es) = (sorted_wrt (<) (map fst es) \<and> list_all (\<lambda>(k, v). json_wf v) es)"
| "json_wf v = True"

text \<open>\<open>Value::get\<close>, \<open>Value::as_str\<close> and \<open>Map::contains_key\<close>.\<close>

fun jget :: "json \<Rightarrow> string \<Rightarrow> json option" where
  "jget (JObj es) k = map_of es k"
| "jget v k = None"

fun as_str :: "json \<Rightarrow> string option" where
  "as_str (JStr s) = Some s"
| "as_str v = None"

fun as_object :: "json \<Rightarrow> (string \<times> json) list option" where
  "as_object (JObj es) = Some es"
| "as_object v = None"

definition jget_str :: "json \<Rightarrow> string \<Rightarrow> string option" where
  "jget_str v k = Option.bind (jget v k) as_str"

lemma as_object_Some_iff [simp]: "as_object v = Some es \<longleftrightarrow> v = JObj es"
  by (cases v) auto

lemma as_str_Some_iff [simp]: "as_str v = Some s \<longleftrightarrow> v = JStr s"
  by (cases v) auto

subsection \<open>Reading a document\<close>

text \<open>
  What a serde visitor sees of a JSON text: the calls \<open>serde_json\<close>'s deserializer makes, in
  document order, ending in \<open>EvErr\<close> at the first syntax error.
\<close>

datatype jev =
    EvNull
  | EvBool bool
  | EvNum jnum
  | EvStr string
  | EvArrStart
  | EvArrEnd
  | EvObjStart
  | EvKey string
  | EvObjEnd
  | EvErr string

fun json_events :: "json \<Rightarrow> jev list" where
  "json_events JNull = [EvNull]"
| "json_events (JBool b) = [EvBool b]"
| "json_events (JNum n) = [EvNum n]"
| "json_events (JStr s) = [EvStr s]"
| "json_events (JArr vs) = EvArrStart # concat (map json_events vs) @ [EvArrEnd]"
| "json_events (JObj es) =
     EvObjStart # concat (map (\<lambda>(k, v). EvKey k # json_events v) es) @ [EvObjEnd]"

text \<open>Collecting a map visitor's entries into a \<open>BTreeMap\<close>, at every depth.\<close>

fun json_norm :: "json \<Rightarrow> json" where
  "json_norm (JArr vs) = JArr (map json_norm vs)"
| "json_norm (JObj es) =
     JObj (fold (\<lambda>(k, v). ins_entry k v) (map (\<lambda>(k, v). (k, json_norm v)) es) [])"
| "json_norm v = v"

lemma ins_entry_append_last:
  "\<forall>x \<in> set (map fst es). x < k \<Longrightarrow> ins_entry k v es = es @ [(k, v)]"
  by (induction k v es rule: ins_entry.induct) (auto simp: less_imp_not_less)

lemma fold_ins_entry_sorted:
  "sorted_wrt (<) (map fst (acc @ es)) \<Longrightarrow>
   fold (\<lambda>(k, v). ins_entry k v) es acc = acc @ (es :: (string \<times> 'v) list)"
proof (induction es arbitrary: acc)
  case Nil
  then show ?case by simp
next
  case (Cons e es)
  obtain k v where e: "e = (k, v)" by (cases e)
  have "ins_entry k v acc = acc @ [(k, v)]"
    by (rule ins_entry_append_last) (use Cons.prems e in \<open>auto simp: sorted_wrt_append\<close>)
  then show ?case using Cons.IH [of "acc @ [(k, v)]"] Cons.prems e by simp
qed

lemma json_norm_wf: "json_wf v \<Longrightarrow> json_norm v = v"
proof (induction v rule: json_norm.induct)
  case (1 vs)
  then show ?case by (auto simp: list_all_iff intro: map_idI)
next
  case (2 es)
  have "map (\<lambda>(k, v). (k, json_norm v)) es = es"
    by (rule map_idI) (use 2 in \<open>auto simp: list_all_iff\<close>)
  moreover have "fold (\<lambda>(k, v). ins_entry k v) es [] = [] @ es"
    by (rule fold_ins_entry_sorted) (use 2 in simp)
  ultimately show ?case by simp
qed auto

lemma fold_ins_entry_props:
  "sorted_wrt (<) (map fst acc) \<Longrightarrow> list_all (\<lambda>(k, v). P v) acc \<Longrightarrow> list_all (\<lambda>(k, v). P v) es \<Longrightarrow>
   sorted_wrt (<) (map fst (fold (\<lambda>(k, v). ins_entry k v) es acc)) \<and>
   list_all (\<lambda>(k, v). P v) (fold (\<lambda>(k, v). ins_entry k v) es (acc :: (string \<times> 'v) list))"
proof (induction es arbitrary: acc)
  case Nil
  then show ?case by simp
next
  case (Cons e es)
  obtain k v where e: "e = (k, v)" by (cases e)
  have "list_all (\<lambda>(k, v). P v) (ins_entry k v acc)"
    using Cons.prems(2,3) e by (induction k v acc rule: ins_entry.induct) auto
  then show ?case
    using Cons.IH [of "ins_entry k v acc"] Cons.prems e by (simp add: sorted_ins_entry)
qed

lemma json_wf_norm: "json_wf (json_norm v)"
proof (induction v rule: json_norm.induct)
  case (1 vs)
  then show ?case by (auto simp: list_all_iff)
next
  case (2 es)
  have "list_all (\<lambda>(k, v). json_wf v) (map (\<lambda>(k, v). (k, json_norm v)) es)"
    using 2 by (auto simp: list_all_iff)
  then show ?case
    using fold_ins_entry_props [of "[]" json_wf "map (\<lambda>(k, v). (k, json_norm v)) es"]
    by simp
qed auto

subsection \<open>Derived deserializers\<close>

datatype serde_err =
    UnknownField string
  | MissingField string
  | UnknownVariant string
  | InvalidType
  | InvalidValue string
  | InvalidLength nat

type_synonym 'a de = "json \<Rightarrow> serde_err + 'a"

fun de_value :: "json de" where
  "de_value v = Inr v"

fun de_string :: "string de" where
  "de_string (JStr s) = Inr s"
| "de_string v = Inl InvalidType"

fun de_bool :: "bool de" where
  "de_bool (JBool b) = Inr b"
| "de_bool v = Inl InvalidType"

text \<open>Unsigned integers of a given bound: \<open>u64\<close>, \<open>u8\<close>.\<close>

fun de_uint :: "nat \<Rightarrow> nat de" where
  "de_uint m (JNum (PosInt n)) = (if n \<le> m then Inr n else Inl (InvalidValue ''integer''))"
| "de_uint m (JNum (NegInt i)) = Inl (InvalidValue ''integer'')"
| "de_uint m v = Inl InvalidType"

definition de_u64 :: "nat de" where "de_u64 = de_uint (2 ^ 64 - 1)"
definition de_u8 :: "nat de" where "de_u8 = de_uint 255"

fun de_f64 :: "rat de" where
  "de_f64 (JNum (PosInt n)) = Inr (of_nat n)"
| "de_f64 (JNum (NegInt i)) = Inr (of_int i)"
| "de_f64 (JNum (Float r)) = Inr r"
| "de_f64 v = Inl InvalidType"

fun de_option :: "'a de \<Rightarrow> 'a option de" where
  "de_option d JNull = Inr None"
| "de_option d v = map_sum id Some (d v)"

fun de_all :: "'a de \<Rightarrow> json list \<Rightarrow> serde_err + 'a list" where
  "de_all d [] = Inr []"
| "de_all d (v # vs) = res_bind (d v) (\<lambda>x. res_bind (de_all d vs) (\<lambda>xs. Inr (x # xs)))"

fun de_vec :: "'a de \<Rightarrow> 'a list de" where
  "de_vec d (JArr vs) = de_all d vs"
| "de_vec d v = Inl InvalidType"

fun de_map :: "(string \<times> json) list de" where
  "de_map (JObj es) = Inr es"
| "de_map v = Inl InvalidType"

text \<open>
  A unit-variant enum: the variant's name as a string, or the externally tagged object form
  \<open>{"name": null}\<close>, which \<open>serde_json\<close> accepts as well.
\<close>

fun de_variant :: "(string \<times> 'a) list \<Rightarrow> string \<Rightarrow> serde_err + 'a" where
  "de_variant tbl s = ok_or (UnknownVariant s) (map_of tbl s)"

fun de_enum :: "(string \<times> 'a) list \<Rightarrow> 'a de" where
  "de_enum tbl (JStr s) = de_variant tbl s"
| "de_enum tbl (JObj [(s, v)]) =
     res_bind (de_variant tbl s) (\<lambda>x. if v = JNull then Inr x else Inl InvalidType)"
| "de_enum tbl (JObj es) = Inl (InvalidValue ''map with a single key'')"
| "de_enum tbl v = Inl InvalidType"

text \<open>
  A struct with \<open>deny_unknown_fields\<close>. A field is its name, whether it may be absent from a
  map, and the test its value must pass. The map form is read entry by entry, an unknown key
  or an ill-typed value stopping at once, and absent required fields are reported afterwards in
  declaration order; the sequence form is positional. The result names the values read.
\<close>

type_synonym field = "string \<times> bool \<times> (json \<Rightarrow> serde_err option)"

fun err_of :: "'e + 'a \<Rightarrow> 'e option" where
  "err_of (Inl e) = Some e"
| "err_of (Inr x) = None"

definition req_field :: "string \<Rightarrow> 'a de \<Rightarrow> field" where
  "req_field n d = (n, False, \<lambda>v. err_of (d v))"

definition opt_field :: "string \<Rightarrow> 'a de \<Rightarrow> field" where
  "opt_field n d = (n, True, \<lambda>v. err_of (de_option d v))"

fun check_entries :: "field list \<Rightarrow> (string \<times> json) list \<Rightarrow> serde_err option" where
  "check_entries fs [] = None"
| "check_entries fs ((k, v) # es) =
     (case map_of fs k of
        None \<Rightarrow> Some (UnknownField k)
      | Some (_, chk) \<Rightarrow> (case chk v of Some e \<Rightarrow> Some e | None \<Rightarrow> check_entries fs es))"

fun missing_field :: "field list \<Rightarrow> (string \<times> json) list \<Rightarrow> serde_err option" where
  "missing_field [] es = None"
| "missing_field ((n, opt, chk) # fs) es =
     (if \<not> opt \<and> map_of es n = None then Some (MissingField n) else missing_field fs es)"

fun check_seq :: "field list \<Rightarrow> json list \<Rightarrow> nat \<Rightarrow> serde_err option" where
  "check_seq [] [] i = None"
| "check_seq [] (v # vs) i = Some (InvalidLength (i + length (v # vs)))"
| "check_seq (f # fs) [] i = Some (InvalidLength i)"
| "check_seq ((n, opt, chk) # fs) (v # vs) i =
     (case chk v of Some e \<Rightarrow> Some e | None \<Rightarrow> check_seq fs vs (Suc i))"

fun de_struct :: "field list \<Rightarrow> (string \<times> json) list de" where
  "de_struct fs (JObj es) =
     (case check_entries fs es of
        Some e \<Rightarrow> Inl e
      | None \<Rightarrow> (case missing_field fs es of Some e \<Rightarrow> Inl e | None \<Rightarrow> Inr es))"
| "de_struct fs (JArr vs) =
     (case check_seq fs vs 0 of Some e \<Rightarrow> Inl e | None \<Rightarrow> Inr (zip (map fst fs) vs))"
| "de_struct fs v = Inl InvalidType"

definition req :: "(string \<times> json) list \<Rightarrow> string \<Rightarrow> 'a de \<Rightarrow> serde_err + 'a" where
  "req es n d = res_bind (ok_or (MissingField n) (map_of es n)) d"

definition opt :: "(string \<times> json) list \<Rightarrow> string \<Rightarrow> 'a de \<Rightarrow> serde_err + 'a option" where
  "opt es n d = (case map_of es n of None \<Rightarrow> Inr None | Some v \<Rightarrow> de_option d v)"

lemma check_entries_None_known:
  "check_entries fs es = None \<Longrightarrow> k \<in> set (map fst es) \<Longrightarrow> k \<in> set (map fst fs)"
proof (induction fs es rule: check_entries.induct)
  case (2 fs k' v es)
  then show ?case
    by (auto split: option.splits dest: map_of_SomeD simp: rev_image_eqI)
qed simp

lemma de_struct_JObj_known:
  assumes "de_struct fs (JObj es) = Inr r"
  shows "r = es" and "set (map fst es) \<subseteq> set (map fst fs)"
  using assms check_entries_None_known [of fs es] by (auto split: option.splits)

lemma missing_field_None:
  "missing_field fs es = None \<Longrightarrow> (n, False, chk) \<in> set fs \<Longrightarrow> map_of es n \<noteq> None"
  by (induction fs es rule: missing_field.induct) (auto split: if_splits)

lemma de_struct_JObj_required:
  "de_struct fs (JObj es) = Inr r \<Longrightarrow> (n, False, chk) \<in> set fs \<Longrightarrow> map_of es n \<noteq> None"
  by (auto split: option.splits dest: missing_field_None)

subsection \<open>Derived serializers\<close>

text \<open>
  \<open>serde_json::to_value\<close> of a struct: the fields in declaration order are inserted into the
  object's map; a field skipped by \<open>skip_serializing_if\<close> is \<open>None\<close>. A unit variant is its name.
\<close>

definition ser_fields :: "(string \<times> json option) list \<Rightarrow> (string \<times> json) list" where
  "ser_fields fs =
     fold (\<lambda>(k, ov) es. case ov of None \<Rightarrow> es | Some v \<Rightarrow> ins_entry k v es) fs []"

definition ser_struct :: "(string \<times> json option) list \<Rightarrow> json" where
  "ser_struct fs = JObj (ser_fields fs)"

definition ser_enum :: "(string \<times> 'a) list \<Rightarrow> 'a \<Rightarrow> json" where
  "ser_enum tbl x = JStr (case find (\<lambda>(s, y). y = x) tbl of Some (s, _) \<Rightarrow> s | None \<Rightarrow> [])"

lemma fold_ser_map_of:
  "distinct (map fst fs) \<Longrightarrow>
   map_of (fold (\<lambda>(k, ov) es. case ov of None \<Rightarrow> es | Some v \<Rightarrow> ins_entry k v es) fs acc) =
     (\<lambda>k. case map_of fs k of Some (Some v) \<Rightarrow> Some v | _ \<Rightarrow> map_of acc k)"
proof (induction fs arbitrary: acc)
  case Nil
  then show ?case by simp
next
  case (Cons f fs)
  obtain n ov where f: "f = (n, ov)" by (cases f)
  have "map_of fs n = None" using Cons.prems f by (auto simp: map_of_eq_None_iff)
  then show ?case using Cons f by (cases ov) (auto simp: map_of_ins_entry fun_eq_iff split: option.splits)
qed

lemma map_of_ser_fields:
  "distinct (map fst fs) \<Longrightarrow>
   map_of (ser_fields fs) = (\<lambda>k. case map_of fs k of Some ov \<Rightarrow> ov | None \<Rightarrow> None)"
  by (auto simp: ser_fields_def fold_ser_map_of fun_eq_iff split: option.splits)

lemma sorted_ser_fields: "sorted_wrt (<) (map fst (ser_fields fs))"
proof -
  have "sorted_wrt (<) (map fst acc) \<Longrightarrow>
    sorted_wrt (<) (map fst (fold (\<lambda>(k, ov) es. case ov of None \<Rightarrow> es | Some v \<Rightarrow> ins_entry k v es) fs acc))"
    for acc :: "(string \<times> json) list"
    by (induction fs arbitrary: acc) (auto simp: sorted_ins_entry split: option.splits)
  then show ?thesis by (simp add: ser_fields_def)
qed

text \<open>The written fields are the read ones, in order, each passing its test.\<close>

fun fields_match :: "field list \<Rightarrow> (string \<times> json option) list \<Rightarrow> bool" where
  "fields_match [] [] = True"
| "fields_match ((n, om, chk) # fs) ((m, ov) # vs) =
     (n = m \<and> (case ov of None \<Rightarrow> om | Some v \<Rightarrow> chk v = None) \<and> fields_match fs vs)"
| "fields_match fs vs = False"

lemma fields_match_names: "fields_match fs vs \<Longrightarrow> map fst vs = map fst fs"
  by (induction fs vs rule: fields_match.induct) auto

lemma fields_match_get:
  "fields_match fs vs \<Longrightarrow> map_of vs k = Some (Some v) \<Longrightarrow> \<exists>om chk. map_of fs k = Some (om, chk) \<and> chk v = None"
  by (induction fs vs rule: fields_match.induct) (auto split: if_splits)

lemma fields_match_required:
  "fields_match fs vs \<Longrightarrow> distinct (map fst fs) \<Longrightarrow> (n, False, chk) \<in> set fs \<Longrightarrow> \<exists>v. map_of vs n = Some (Some v)"
proof (induction fs vs rule: fields_match.induct)
  case (2 m om c fs l ov vs)
  then show ?case by (cases ov) (auto simp: rev_image_eqI)
qed auto

lemma check_entries_all:
  "\<forall>(k, v) \<in> set es. \<exists>om chk. map_of fs k = Some (om, chk) \<and> chk v = None \<Longrightarrow> check_entries fs es = None"
  by (induction fs es rule: check_entries.induct) fastforce+

lemma missing_field_all:
  "\<forall>n chk. (n, False, chk) \<in> set fs \<longrightarrow> map_of es n \<noteq> None \<Longrightarrow> missing_field fs es = None"
  by (induction fs es rule: missing_field.induct) auto

lemma de_struct_ser:
  assumes "distinct (map fst fs)" "fields_match fs vs"
  shows "de_struct fs (ser_struct vs) = Inr (ser_fields vs)"
proof -
  have m: "map_of (ser_fields vs) = (\<lambda>k. case map_of vs k of Some ov \<Rightarrow> ov | None \<Rightarrow> None)"
    using assms by (simp add: map_of_ser_fields fields_match_names)
  have "distinct (map fst (ser_fields vs))"
    using sorted_ser_fields by (rule sorted_keys_distinct)
  then have "check_entries fs (ser_fields vs) = None"
    using fields_match_get [OF assms(2)]
    by (auto intro!: check_entries_all simp: map_of_eq_Some_iff [symmetric] m split: option.splits)
  moreover have "missing_field fs (ser_fields vs) = None"
    using fields_match_required [OF assms(2,1)] by (force intro!: missing_field_all simp: m)
  ultimately show ?thesis by (simp add: ser_struct_def)
qed

text \<open>A value survives being written and read; a value in an optional field may not be written \<open>null\<close>.\<close>

definition survives :: "'a de \<Rightarrow> ('a \<Rightarrow> json) \<Rightarrow> 'a \<Rightarrow> bool" where
  "survives d f x \<longleftrightarrow> d (f x) = Inr x"

definition survives_opt :: "'a de \<Rightarrow> ('a \<Rightarrow> json) \<Rightarrow> 'a option \<Rightarrow> bool" where
  "survives_opt d f x \<longleftrightarrow> (\<forall>y. x = Some y \<longrightarrow> d (f y) = Inr y \<and> f y \<noteq> JNull)"

lemma de_option_not_null: "v \<noteq> JNull \<Longrightarrow> de_option d v = map_sum id Some (d v)"
  by (cases v) auto

lemma de_struct_serI:
  assumes "distinct (map fst fs)" "fields_match fs vs"
    and "\<And>es. map_of es = (\<lambda>k. case map_of vs k of Some ov \<Rightarrow> ov | None \<Rightarrow> None) \<Longrightarrow> k es = Inr x"
  shows "res_bind (de_struct fs (ser_struct vs)) k = Inr x"
  using assms by (simp add: de_struct_ser map_of_ser_fields fields_match_names)

lemma field_names [simp]: "fst (req_field n d) = n" "fst (opt_field n d) = n"
  by (simp_all add: req_field_def opt_field_def)

lemma fields_match_req:
  "fields_match (req_field n d # fs) ((n, Some v) # vs) \<longleftrightarrow> fields_match fs vs" if "is_ok (d v)"
  using that by (cases "d v") (simp_all add: req_field_def)

lemma fields_match_opt:
  "fields_match (opt_field n d # fs) ((n, map_option f x) # vs) \<longleftrightarrow> fields_match fs vs" if "survives_opt d f x"
  using that by (cases x) (auto simp: opt_field_def survives_opt_def de_option_not_null)

lemma survives_enum:
  "distinct (map fst tbl) \<Longrightarrow> x \<in> snd ` set tbl \<Longrightarrow> survives (de_enum tbl) (ser_enum tbl) x"
proof -
  assume d: "distinct (map fst tbl)" and x: "x \<in> snd ` set tbl"
  then obtain p where f: "find (\<lambda>(s, y). y = x) tbl = Some p"
    by (cases "find (\<lambda>(s, y). y = x) tbl") (auto simp: find_None_iff)
  then obtain s where "p = (s, x)" "(s, x) \<in> set tbl" using find_Some_iff2 [OF f] by (cases p) auto
  then have "map_of tbl s = Some x" using d by simp
  then show ?thesis using f \<open>p = (s, x)\<close> by (simp add: survives_def ser_enum_def)
qed

lemma survives_opt_of: "(\<And>y. x = Some y \<Longrightarrow> survives d f y) \<Longrightarrow> (\<And>y. f y \<noteq> JNull) \<Longrightarrow> survives_opt d f x"
  by (auto simp: survives_opt_def survives_def)

lemma survives_string: "survives de_string JStr s" and survives_bool: "survives de_bool JBool b"
  and survives_value: "survives de_value (\<lambda>v. v) v"
  by (simp_all add: survives_def)

lemma survives_vec: "(\<And>x. x \<in> set xs \<Longrightarrow> survives d f x) \<Longrightarrow> survives (de_vec d) (\<lambda>xs. JArr (map f xs)) xs"
  by (induction xs) (auto simp: survives_def)

end
