(* ===== verification/Canonical.thy ===== *)
theory Canonical
  imports Json
begin

text \<open>
  The crate \<open>famp-canonical\<close>: canonicalization, and the strict ingress parser that rejects a
  repeated object key at any depth. The text level belongs to third-party crates and is a
  parameter, the record \<open>ext_lib\<close>: \<open>lex\<close> is \<open>serde_json\<close>'s deserializer (the visitor calls it
  makes), \<open>jcs\<close> is \<open>serde_jcs::to_vec\<close>, \<open>uuid_parse\<close> and \<open>uuid_show\<close> are the \<open>uuid\<close> crate.
  A third-party error is represented by its rendering.
\<close>

record ext_lib =
  lex :: "bytes \<Rightarrow> jev list"
  jcs :: "json \<Rightarrow> string + bytes"
  uuid_parse :: "string \<Rightarrow> uuid option"
  uuid_show :: "uuid \<Rightarrow> string"

datatype canonical_error =
    Serialize string
  | InvalidJson string
  | DuplicateKey string
  | NonFiniteNumber
  | InternalCanonicalization string

fun contains_sub :: "string \<Rightarrow> string \<Rightarrow> bool" where
  "contains_sub p [] = (p = [])"
| "contains_sub p (c # cs) = (strip_prefix p (c # cs) \<noteq> None \<or> contains_sub p cs)"

definition from_serde :: "string \<Rightarrow> canonical_error" where
  "from_serde msg =
     (if contains_sub ''NaN'' msg \<or> contains_sub ''infinit'' msg \<or> contains_sub ''Infinit'' msg
      then NonFiniteNumber else Serialize msg)"

definition canonicalize :: "ext_lib \<Rightarrow> json \<Rightarrow> canonical_error + bytes" where
  "canonicalize lib v = map_err from_serde (jcs lib v)"

subsection \<open>The strict pass\<close>

text \<open>
  The key a duplicate is reported under: the visitor's message ends in serde's position
  suffix, so the key is cut at the first occurrence of \<open> at line\<close> and trimmed of the
  characters Rust counts as white space (in UTF-8).
\<close>

fun before_sub :: "string \<Rightarrow> string \<Rightarrow> string" where
  "before_sub p [] = []"
| "before_sub p (c # cs) = (if strip_prefix p (c # cs) \<noteq> None then [] else c # before_sub p cs)"

definition utf8_whitespace :: "nat list list" where
  "utf8_whitespace =
     [[9], [10], [11], [12], [13], [32], [194, 133], [194, 160], [225, 154, 128],
      [226, 128, 128], [226, 128, 129], [226, 128, 130], [226, 128, 131], [226, 128, 132],
      [226, 128, 133], [226, 128, 134], [226, 128, 135], [226, 128, 136], [226, 128, 137],
      [226, 128, 138], [226, 128, 168], [226, 128, 169], [226, 128, 175], [226, 129, 159],
      [227, 128, 128]]"

fun strip_any :: "string list \<Rightarrow> string \<Rightarrow> string option" where
  "strip_any [] s = None"
| "strip_any (p # ps) s = (case strip_prefix p s of Some r \<Rightarrow> Some r | None \<Rightarrow> strip_any ps s)"

fun strip_loop :: "nat \<Rightarrow> string list \<Rightarrow> string \<Rightarrow> string" where
  "strip_loop 0 ps s = s"
| "strip_loop (Suc n) ps s = (case strip_any ps s of None \<Rightarrow> s | Some r \<Rightarrow> strip_loop n ps r)"

definition rust_trim :: "string \<Rightarrow> string" where
  "rust_trim s =
     (let ws = map (map char_of) utf8_whitespace;
          t = strip_loop (length s) ws s
      in rev (strip_loop (length t) (map rev ws) (rev t)))"

definition report_key :: "string \<Rightarrow> string" where
  "report_key k = rust_trim (before_sub '' at line'' k)"

text \<open>
  The visitor \<open>StrictTree\<close> as a machine over the deserializer's calls: a stack of the arrays
  and objects being read, newest element first. \<open>FKey\<close> is an object whose key has been read
  and whose value is next.
\<close>

datatype jframe =
    FArr "json list"
  | FObj "(string \<times> json) list"
  | FKey "(string \<times> json) list" string

datatype jstate = JReading "jframe list" | JDone json | JBad

fun feed :: "jframe list \<Rightarrow> json \<Rightarrow> jstate" where
  "feed [] v = JDone v"
| "feed (FArr vs # st) v = JReading (FArr (v # vs) # st)"
| "feed (FKey es k # st) v = JReading (FObj ((k, v) # es) # st)"
| "feed (FObj es # st) v = JBad"

fun strict_step :: "jframe list \<Rightarrow> jev \<Rightarrow> canonical_error + jstate" where
  "strict_step st (EvErr m) = Inl (InvalidJson m)"
| "strict_step st EvNull = Inr (feed st JNull)"
| "strict_step st (EvBool b) = Inr (feed st (JBool b))"
| "strict_step st (EvNum n) = Inr (feed st (JNum n))"
| "strict_step st (EvStr s) = Inr (feed st (JStr s))"
| "strict_step st EvArrStart = Inr (JReading (FArr [] # st))"
| "strict_step st EvObjStart = Inr (JReading (FObj [] # st))"
| "strict_step (FArr vs # st) EvArrEnd = Inr (feed st (JArr (rev vs)))"
| "strict_step (FObj es # st) EvObjEnd = Inr (feed st (JObj (rev es)))"
| "strict_step (FObj es # st) (EvKey k) =
     (if k \<in> set (map fst es) then Inl (DuplicateKey (report_key k))
      else Inr (JReading (FKey es k # st)))"
| "strict_step st e = Inr JBad"

text \<open>A call sequence no deserializer makes is a syntax error; calls after the document are trailing characters.\<close>

fun strict_tree :: "jstate \<Rightarrow> jev list \<Rightarrow> canonical_error + json" where
  "strict_tree (JDone v) [] = Inr v"
| "strict_tree (JDone v) (EvErr m # evs) = Inl (InvalidJson m)"
| "strict_tree (JDone v) (e # evs) = Inl (InvalidJson ''trailing characters'')"
| "strict_tree (JReading st) [] = Inl (InvalidJson ''EOF while parsing a value'')"
| "strict_tree (JReading st) (e # evs) =
     (case strict_step st e of Inl x \<Rightarrow> Inl x | Inr s \<Rightarrow> strict_tree s evs)"
| "strict_tree JBad evs = Inl (InvalidJson ''expected value'')"

text \<open>
  \<open>from_slice_strict::<T>\<close>: the strict pass, then a second parse into the target type, whose
  deserializer is the argument \<open>d\<close>.
\<close>

definition from_slice_strict :: "ext_lib \<Rightarrow> (json \<Rightarrow> string + 'a) \<Rightarrow> bytes \<Rightarrow> canonical_error + 'a" where
  "from_slice_strict lib d b =
     (case strict_tree (JReading []) (lex lib b) of
        Inl e \<Rightarrow> Inl e
      | Inr t \<Rightarrow> map_err InvalidJson (d (json_norm t)))"

abbreviation parse_value :: "ext_lib \<Rightarrow> bytes \<Rightarrow> canonical_error + json" where
  "parse_value lib b \<equiv> from_slice_strict lib Inr b"

text \<open>
  \<open>serde_json::from_slice::<Value>\<close>: the same reading without the check, where a repeated key's
  last value stays.
\<close>

fun plain_step :: "jframe list \<Rightarrow> jev \<Rightarrow> canonical_error + jstate" where
  "plain_step (FObj es # st) (EvKey k) = Inr (JReading (FKey es k # st))"
| "plain_step st e = strict_step st e"

fun plain_tree :: "jstate \<Rightarrow> jev list \<Rightarrow> canonical_error + json" where
  "plain_tree (JReading st) (e # evs) =
     (case plain_step st e of Inl x \<Rightarrow> Inl x | Inr s \<Rightarrow> plain_tree s evs)"
| "plain_tree s evs = strict_tree s evs"

definition from_slice :: "ext_lib \<Rightarrow> bytes \<Rightarrow> canonical_error + json" where
  "from_slice lib b = map_sum id json_norm (plain_tree (JReading []) (lex lib b))"

subsection \<open>What the strict pass guarantees\<close>

text \<open>No object of the value, at any depth, repeats a key.\<close>

fun dup_free :: "json \<Rightarrow> bool" where
  "dup_free (JArr vs) = list_all dup_free vs"
| "dup_free (JObj es) = (distinct (map fst es) \<and> list_all (\<lambda>(k, v). dup_free v) es)"
| "dup_free v = True"

fun frame_ok :: "jframe \<Rightarrow> bool" where
  "frame_ok (FArr vs) = list_all dup_free vs"
| "frame_ok (FObj es) = (distinct (map fst es) \<and> list_all (\<lambda>(k, v). dup_free v) es)"
| "frame_ok (FKey es k) =
     (distinct (map fst es) \<and> k \<notin> set (map fst es) \<and> list_all (\<lambda>(k, v). dup_free v) es)"

fun jstate_ok :: "jstate \<Rightarrow> bool" where
  "jstate_ok (JReading st) = list_all frame_ok st"
| "jstate_ok (JDone v) = dup_free v"
| "jstate_ok JBad = True"

lemma feed_ok: "list_all frame_ok st \<Longrightarrow> dup_free v \<Longrightarrow> jstate_ok (feed st v)"
  by (induction st v rule: feed.induct) auto

lemma strict_step_ok:
  "strict_step st e = Inr s \<Longrightarrow> list_all frame_ok st \<Longrightarrow> jstate_ok s"
  by (induction st e rule: strict_step.induct)
    (auto intro!: feed_ok simp: list_all_iff rev_map [symmetric] split: if_splits)

lemma strict_tree_dup_free:
  "strict_tree s evs = Inr v \<Longrightarrow> jstate_ok s \<Longrightarrow> dup_free v"
  by (induction s evs rule: strict_tree.induct)
    (auto dest: strict_step_ok split: sum.splits)

lemma strict_tree_append:
  "strict_tree (JReading st) (json_events v @ evs) = strict_tree (feed st v) evs"
  if "dup_free v"
  using that
proof (induction v arbitrary: st evs)
  case (JArr vs)
  have arr: "strict_tree (JReading (FArr acc # st)) (concat (map json_events ws) @ EvArrEnd # evs) =
    strict_tree (feed st (JArr (rev acc @ ws))) evs" if "set ws \<subseteq> set vs" for ws acc
    using that
  proof (induction ws arbitrary: acc)
    case Nil
    then show ?case by simp
  next
    case (Cons w ws)
    have "dup_free w" using JArr.prems Cons.prems by (auto simp: list_all_iff)
    then show ?case using JArr.IH [of w] Cons by simp
  qed
  show ?case using arr [of vs "[]"] by simp
next
  case (JObj es)
  have obj: "strict_tree (JReading (FObj acc # st))
      (concat (map (\<lambda>(k, v). EvKey k # json_events v) fs) @ EvObjEnd # evs) =
    strict_tree (feed st (JObj (rev acc @ fs))) evs"
    if "set fs \<subseteq> set es" "distinct (map fst (rev acc @ fs))" for fs acc
    using that
  proof (induction fs arbitrary: acc)
    case Nil
    then show ?case by simp
  next
    case (Cons f fs)
    obtain k w where f: "f = (k, w)" by (cases f)
    have w: "dup_free w" using JObj.prems Cons.prems f by (auto simp: list_all_iff)
    have m: "f \<in> set es" "w \<in> Basic_BNFs.snds f" using Cons.prems f by auto
    have k: "k \<notin> set (map fst acc)" using Cons.prems f by auto
    show ?case
      using JObj.IH [OF m w] Cons.IH [of "(k, w) # acc"] Cons.prems f k by simp
  qed
  show ?case using obj [of es "[]"] JObj.prems by simp
qed auto

lemma plain_step_strict: "strict_step st e = Inr s \<Longrightarrow> plain_step st e = Inr s"
  by (induction st e rule: plain_step.induct) (auto split: if_splits)

lemma plain_tree_strict: "strict_tree s evs = Inr v \<Longrightarrow> plain_tree s evs = Inr v"
  by (induction s evs rule: plain_tree.induct)
    (auto simp: plain_step_strict split: sum.splits)

lemma parse_value_from_slice: "parse_value lib b = Inr v \<Longrightarrow> from_slice lib b = Inr v"
  by (auto simp: from_slice_strict_def from_slice_def map_sum_Inr_iff plain_tree_strict
      split: sum.splits)

lemma plain_tree_append:
  "plain_tree (JReading st) (json_events v @ evs) = plain_tree (feed st v) evs"
proof (induction v arbitrary: st evs)
  case (JArr vs)
  have arr: "plain_tree (JReading (FArr acc # st)) (concat (map json_events ws) @ EvArrEnd # evs) =
    plain_tree (feed st (JArr (rev acc @ ws))) evs" if "set ws \<subseteq> set vs" for ws acc
    using that JArr.IH by (induction ws arbitrary: acc) simp_all
  show ?case using arr [of vs "[]"] by simp
next
  case (JObj es)
  have obj: "plain_tree (JReading (FObj acc # st))
      (concat (map (\<lambda>(k, v). EvKey k # json_events v) fs) @ EvObjEnd # evs) =
    plain_tree (feed st (JObj (rev acc @ fs))) evs" if "set fs \<subseteq> set es" for fs acc
    using that
  proof (induction fs arbitrary: acc)
    case (Cons f fs)
    obtain k w where f: "f = (k, w)" by (cases f)
    have m: "f \<in> set es" "w \<in> Basic_BNFs.snds f" using Cons.prems f by auto
    show ?case using JObj.IH [OF m] Cons.IH [of "(k, w) # acc"] Cons.prems f by simp
  qed simp
  show ?case using obj [of es "[]"] by simp
qed auto

lemma strict_tree_events:
  "strict_tree (JReading []) (json_events t) = Inr t' \<longleftrightarrow> dup_free t \<and> t' = t"
proof
  assume s: "strict_tree (JReading []) (json_events t) = Inr t'"
  then have "t' = t"
    using plain_tree_strict plain_tree_append [of "[]" t "[]"] by fastforce
  then show "dup_free t \<and> t' = t" using strict_tree_dup_free [OF s] by simp
next
  assume "dup_free t \<and> t' = t"
  then show "strict_tree (JReading []) (json_events t) = Inr t'"
    using strict_tree_append [of t "[]" "[]"] by simp
qed

lemma from_slice_wf: "from_slice lib b = Inr v \<Longrightarrow> json_wf v"
  by (auto simp: from_slice_def map_sum_Inr_iff json_wf_norm)

lemma json_wf_dup_free: "json_wf v \<Longrightarrow> dup_free v"
  by (induction v rule: json_wf.induct)
    (auto simp: list_all_iff intro: sorted_keys_distinct)

lemma parse_value_wf: "parse_value lib b = Inr v \<Longrightarrow> json_wf v"
  by (auto simp: from_slice_strict_def json_wf_norm split: sum.splits)

text \<open>
  The contract relied on for a particular value: its canonical text exists, and read back it is
  that value, its object entries in whatever order the canonical form puts them.
\<close>

definition text_faithful :: "ext_lib \<Rightarrow> json \<Rightarrow> bool" where
  "text_faithful lib v \<longleftrightarrow>
     (\<exists>b t. jcs lib v = Inr b \<and> lex lib b = json_events t \<and> dup_free t \<and> json_norm t = v)"

lemma text_faithful_parse:
  assumes "text_faithful lib v"
  obtains b where "canonicalize lib v = Inr b" "parse_value lib b = Inr v"
proof -
  from assms obtain b t where b: "jcs lib v = Inr b" "lex lib b = json_events t"
      and t: "dup_free t" "json_norm t = v"
    by (auto simp: text_faithful_def)
  have "strict_tree (JReading []) (json_events t) = Inr t"
    using strict_tree_append [OF t(1), of "[]" "[]"] by simp
  then have "parse_value lib b = Inr v"
    using b t by (simp add: from_slice_strict_def)
  then show thesis
    using b that by (simp add: canonicalize_def)
qed

lemma text_faithful_sorted:
  "jcs lib v = Inr b \<Longrightarrow> lex lib b = json_events v \<Longrightarrow> json_wf v \<Longrightarrow> text_faithful lib v"
  unfolding text_faithful_def using json_wf_dup_free json_norm_wf by blast

end
