(* ===== verification/Mailbox.thy ===== *)
theory Mailbox
  imports Canonical
begin

text \<open>
  Mailboxes: \<open>famp-bus/src/mailbox.rs\<close> (names, the \<open>MailboxRead\<close> contract, the in-memory
  implementation), the production reader \<open>read_raw_from\<close> of \<open>famp/src/cli/broker/mailbox_env.rs\<close>
  and the durable append of \<open>famp-inbox/src/append.rs\<close>. The contract is the locale
  \<open>mailbox_read\<close>; both implementations are interpretations of it. Byte offsets are \<open>u64\<close> in the
  code and cannot wrap there (a file's length), so they are naturals here.
\<close>

subsection \<open>Names\<close>

datatype mailbox_name = Agent string | Channel string

fun mailbox_display :: "mailbox_name \<Rightarrow> string" where
  "mailbox_display (Agent n) = n"
| "mailbox_display (Channel n) = n"

fun mailbox_key :: "mailbox_name \<Rightarrow> bool \<times> string" where
  "mailbox_key (Agent n) = (False, n)"
| "mailbox_key (Channel n) = (True, n)"

lemma mailbox_key_inject: "mailbox_key a = mailbox_key b \<Longrightarrow> a = b"
  by (cases a; cases b) auto

text \<open>The derived order: variants in declaration order, then the names.\<close>

instantiation mailbox_name :: linorder
begin

definition less_eq_mailbox_name :: "mailbox_name \<Rightarrow> mailbox_name \<Rightarrow> bool" where
  "less_eq_mailbox_name a b \<longleftrightarrow> mailbox_key a \<le> mailbox_key b"

definition less_mailbox_name :: "mailbox_name \<Rightarrow> mailbox_name \<Rightarrow> bool" where
  "less_mailbox_name a b \<longleftrightarrow> mailbox_key a < mailbox_key b"

instance
  by standard
    (auto simp: less_eq_mailbox_name_def less_mailbox_name_def less_le_not_le
      intro: mailbox_key_inject)

end

fun mailbox_name_to_json :: "mailbox_name \<Rightarrow> json" where
  "mailbox_name_to_json (Agent n) = JObj [(''kind'', JStr ''agent''), (''name'', JStr n)]"
| "mailbox_name_to_json (Channel n) = JObj [(''kind'', JStr ''channel''), (''name'', JStr n)]"

fun de_mailbox_name :: "mailbox_name de" where
  "de_mailbox_name (JObj es) =
     res_bind (de_struct [req_field ''kind'' de_string, req_field ''name'' de_string] (JObj es)) (\<lambda>fs.
     res_bind (req fs ''kind'' de_string) (\<lambda>k.
     res_bind (req fs ''name'' de_string) (\<lambda>n.
     if k = ''agent'' then Inr (Agent n)
     else if k = ''channel'' then Inr (Channel n)
     else Inl (UnknownVariant k))))"
| "de_mailbox_name v = Inl InvalidType"

lemma de_mailbox_name_to_json: "de_mailbox_name (mailbox_name_to_json m) = Inr m"
  by (cases m) (auto simp: req_field_def req_def)

subsection \<open>Records\<close>

definition JSONL_RECORD_TERMINATOR_LEN :: nat where
  "JSONL_RECORD_TERMINATOR_LEN = 1"

record drained_record =
  rec_bytes :: bytes
  rec_start :: nat
  rec_end :: nat

record drain_result =
  records :: "drained_record list"
  next_offset :: nat

datatype mailbox_err = NotFound mailbox_name | InternalErr string

text \<open>The layout of a mailbox: its lines one after the other, each with its terminator.\<close>

fun frames :: "nat \<Rightarrow> bytes list \<Rightarrow> drained_record list" where
  "frames k [] = []"
| "frames k (l # ls) =
     \<lparr>rec_bytes = l, rec_start = k, rec_end = k + length l + JSONL_RECORD_TERMINATOR_LEN\<rparr> #
     frames (k + length l + JSONL_RECORD_TERMINATOR_LEN) ls"

definition total_len :: "bytes list \<Rightarrow> nat" where
  "total_len ls = sum_list (map (\<lambda>l. length l + JSONL_RECORD_TERMINATOR_LEN) ls)"

text \<open>Records that follow each other without a gap, from one offset to another.\<close>

fun contiguous :: "nat \<Rightarrow> drained_record list \<Rightarrow> nat \<Rightarrow> bool" where
  "contiguous a [] b \<longleftrightarrow> a = b"
| "contiguous a (r # rs) b \<longleftrightarrow> rec_start r = a \<and> a < rec_end r \<and> contiguous (rec_end r) rs b"

lemma total_len_simps [simp]:
  "total_len [] = 0"
  "total_len (l # ls) = length l + JSONL_RECORD_TERMINATOR_LEN + total_len ls"
  "total_len (xs @ ys) = total_len xs + total_len ys"
  by (simp_all add: total_len_def)

lemma contiguous_append:
  "contiguous a (xs @ ys) b \<longleftrightarrow> (\<exists>m. contiguous a xs m \<and> contiguous m ys b)"
  by (induction xs arbitrary: a) auto

lemma contiguous_le: "contiguous a rs b \<Longrightarrow> a \<le> b"
  by (induction a rs b rule: contiguous.induct) auto

lemma contiguous_bounds:
  "contiguous a rs b \<Longrightarrow> r \<in> set rs \<Longrightarrow> a \<le> rec_start r \<and> rec_start r < rec_end r \<and> rec_end r \<le> b"
  by (induction a rs b rule: contiguous.induct)
    (auto dest: contiguous_le less_imp_le le_less_trans)

lemma frames_contiguous: "contiguous k (frames k ls) (k + total_len ls)"
  by (induction k ls rule: frames.induct) (auto simp: JSONL_RECORD_TERMINATOR_LEN_def algebra_simps)

lemma frames_append: "frames k (xs @ ys) = frames k xs @ frames (k + total_len xs) ys"
  by (induction k xs rule: frames.induct) (auto simp: algebra_simps)

lemma frames_bytes [simp]: "map rec_bytes (frames k ls) = ls"
  by (induction k ls rule: frames.induct) auto

lemma filter_eq_splitE:
  assumes "filter P xs = pre @ r # post"
  obtains us vs where "xs = us @ r # vs" "filter P vs = post" "P r"
  using assms
proof (induction xs arbitrary: pre thesis)
  case (Cons x xs)
  show ?case
  proof (cases "P x \<and> pre = []")
    case True
    then show ?thesis using Cons.prems(1) [of "[]" xs] Cons.prems(2) by auto
  next
    case False
    then have "filter P xs = (if P x then tl pre else pre) @ r # post"
      using Cons.prems(2) by (cases pre) auto
    then show ?thesis using Cons.IH Cons.prems(1) by (metis append_Cons)
  qed
qed simp

subsection \<open>The contract\<close>

text \<open>
  \<open>lines_of\<close> is a mailbox's content. A drain returns the records at or after the cursor and the
  mailbox's end, and is never an error; an absent mailbox echoes the cursor back.
\<close>

locale mailbox_read =
  fixes wf :: "'s \<Rightarrow> bool"
    and lines_of :: "'s \<Rightarrow> mailbox_name \<Rightarrow> bytes list option"
    and drain :: "'s \<Rightarrow> mailbox_name \<Rightarrow> nat \<Rightarrow> mailbox_err + drain_result"
    and append :: "'s \<Rightarrow> mailbox_name \<Rightarrow> bytes \<Rightarrow> 's"
  assumes drain_absent:
      "wf s \<Longrightarrow> lines_of s n = None \<Longrightarrow> drain s n c = Inr \<lparr>records = [], next_offset = c\<rparr>"
    and drain_present:
      "wf s \<Longrightarrow> lines_of s n = Some ls \<Longrightarrow>
       drain s n c =
         Inr \<lparr>records = filter (\<lambda>r. c \<le> rec_start r) (frames 0 ls), next_offset = total_len ls\<rparr>"
    and append_wf: "wf s \<Longrightarrow> 10 \<notin> set l \<Longrightarrow> wf (append s n l)"
    and append_lines:
      "wf s \<Longrightarrow> 10 \<notin> set l \<Longrightarrow>
       lines_of (append s n l) n = Some (unwrap_or [] (lines_of s n) @ [l])"
begin

lemma drain_total: "wf s \<Longrightarrow> \<exists>r. drain s n c = Inr r"
  using drain_absent drain_present by (cases "lines_of s n") blast+

lemma drain_past_end:
  assumes "wf s" "lines_of s n = Some ls" "total_len ls \<le> c"
  shows "drain s n c = Inr \<lparr>records = [], next_offset = total_len ls\<rparr>"
proof -
  have "filter (\<lambda>r. c \<le> rec_start r) (frames 0 ls) = []"
    using frames_contiguous [of 0 ls] assms(3)
    by (auto simp: filter_empty_conv dest!: contiguous_bounds)
  then show ?thesis using drain_present [OF assms(1,2)] by simp
qed

lemma drain_from_line:
  assumes "wf s" "lines_of s n = Some (xs @ ys)"
  shows "drain s n (total_len xs) =
    Inr \<lparr>records = frames (total_len xs) ys, next_offset = total_len (xs @ ys)\<rparr>"
proof -
  let ?keep = "\<lambda>r. total_len xs \<le> rec_start r"
  have "filter ?keep (frames 0 xs) = []"
    using frames_contiguous [of 0 xs] by (auto simp: filter_empty_conv dest!: contiguous_bounds)
  moreover have "filter ?keep (frames (total_len xs) ys) = frames (total_len xs) ys"
    using frames_contiguous [of "total_len xs" ys]
    by (auto simp: filter_id_conv dest!: contiguous_bounds)
  ultimately show ?thesis
    using drain_present [OF assms] by (simp add: frames_append)
qed

lemma drain_after_append:
  assumes "wf s" "10 \<notin> set l" "lines_of s n = Some ls"
  shows "drain (append s n l) n (total_len ls) =
    Inr \<lparr>records = frames (total_len ls) [l], next_offset = total_len ls + length l + 1\<rparr>"
  using drain_from_line [OF append_wf [OF assms(1,2)], of n n ls "[l]"] assms
  by (simp add: append_lines JSONL_RECORD_TERMINATOR_LEN_def)

lemma drain_resumes:
  assumes "wf s" "drain s n c = Inr d" "records d = pre @ r # post"
  shows "drain s n (rec_end r) = Inr \<lparr>records = post, next_offset = next_offset d\<rparr>"
proof (cases "lines_of s n")
  case None
  then show ?thesis using drain_absent [OF assms(1) None] assms(2,3) by auto
next
  case (Some ls)
  let ?f = "frames 0 ls"
  have d: "filter (\<lambda>q. c \<le> rec_start q) ?f = pre @ r # post" "next_offset d = total_len ls"
    using assms(2,3) drain_present [OF assms(1) Some] by auto
  from d(1) obtain us vs where uv: "?f = us @ r # vs" "filter (\<lambda>q. c \<le> rec_start q) vs = post"
      "c \<le> rec_start r"
    by (rule filter_eq_splitE)
  obtain m where m: "contiguous 0 us m" "contiguous m (r # vs) (total_len ls)"
    using frames_contiguous [of 0 ls] uv(1) by (auto simp: contiguous_append)
  have us: "\<And>q. q \<in> set us \<Longrightarrow> rec_start q < rec_start r"
    and r: "rec_start r < rec_end r"
    and vs: "\<And>q. q \<in> set vs \<Longrightarrow> rec_end r \<le> rec_start q"
    using contiguous_bounds [OF m(1)] m(2) contiguous_bounds [of "rec_end r" vs "total_len ls"]
    by fastforce+
  have "filter (\<lambda>q. rec_end r \<le> rec_start q) us = []"
    using us r by (fastforce simp: filter_empty_conv)
  moreover have "filter (\<lambda>q. rec_end r \<le> rec_start q) vs = vs"
    using vs by (simp add: filter_id_conv)
  moreover have "post = vs"
    using vs r uv(2,3) by (fastforce simp: filter_id_conv)
  ultimately have "filter (\<lambda>q. rec_end r \<le> rec_start q) ?f = post"
    using uv(1) r by simp
  then show ?thesis using drain_present [OF assms(1) Some] d(2) by simp
qed

end

subsection \<open>The in-memory mailbox\<close>

type_synonym in_memory_mailbox = "(mailbox_name, bytes list) btree"

definition inmem_append :: "in_memory_mailbox \<Rightarrow> mailbox_name \<Rightarrow> bytes \<Rightarrow> in_memory_mailbox" where
  "inmem_append s n l = bt_insert n (unwrap_or [] (bt_get s n) @ [l]) s"

definition inmem_truncate :: "in_memory_mailbox \<Rightarrow> mailbox_name \<Rightarrow> in_memory_mailbox" where
  "inmem_truncate s n = bt_update n (\<lambda>_. []) s"

fun inmem_loop :: "nat \<Rightarrow> nat \<Rightarrow> bytes list \<Rightarrow> drained_record list \<times> nat" where
  "inmem_loop since cursor [] = ([], cursor)"
| "inmem_loop since cursor (line # ls) =
     (let next = cursor + length line + JSONL_RECORD_TERMINATOR_LEN;
          (rs, e) = inmem_loop since next ls
      in (if since \<le> cursor
          then \<lparr>rec_bytes = line, rec_start = cursor, rec_end = next\<rparr> # rs else rs, e))"

definition inmem_drain_from ::
  "in_memory_mailbox \<Rightarrow> mailbox_name \<Rightarrow> nat \<Rightarrow> mailbox_err + drain_result" where
  "inmem_drain_from s n since =
     (case bt_get s n of
        None \<Rightarrow> Inr \<lparr>records = [], next_offset = since\<rparr>
      | Some entries \<Rightarrow>
          (let total = sum_list (map (\<lambda>l. length l + JSONL_RECORD_TERMINATOR_LEN) entries) in
           if total \<le> since then Inr \<lparr>records = [], next_offset = total\<rparr>
           else (let (rs, e) = inmem_loop since 0 entries
                 in Inr \<lparr>records = rs, next_offset = e\<rparr>)))"

lemma inmem_loop_frames:
  "inmem_loop since k ls =
     (filter (\<lambda>r. since \<le> rec_start r) (frames k ls), k + total_len ls)"
  by (induction since k ls rule: inmem_loop.induct) (auto simp: algebra_simps Let_def)

lemma inmem_drain_present:
  assumes "bt_get s n = Some ls"
  shows "inmem_drain_from s n c =
    Inr \<lparr>records = filter (\<lambda>r. c \<le> rec_start r) (frames 0 ls), next_offset = total_len ls\<rparr>"
proof (cases "total_len ls \<le> c")
  case True
  then have "filter (\<lambda>r. c \<le> rec_start r) (frames 0 ls) = []"
    using frames_contiguous [of 0 ls]
    by (auto simp: filter_empty_conv dest!: contiguous_bounds)
  then show ?thesis
    using assms True by (simp add: inmem_drain_from_def Let_def total_len_def)
next
  case False
  then show ?thesis
    using assms by (simp add: inmem_drain_from_def inmem_loop_frames Let_def flip: total_len_def)
qed

interpretation inmem: mailbox_read "\<lambda>_. True" bt_get inmem_drain_from inmem_append
proof unfold_locales
  show "bt_get s n = None \<Longrightarrow> inmem_drain_from s n c = Inr \<lparr>records = [], next_offset = c\<rparr>" for s n c
    by (simp add: inmem_drain_from_def)
qed (auto simp: inmem_drain_present inmem_append_def)

subsection \<open>The mailbox on disk\<close>

text \<open>A file is absent or its bytes; any other outcome of reading it is an error.\<close>

datatype file_read = FileBytes bytes | FileNotFound | FileError string

fun byte_position :: "8 word \<Rightarrow> bytes \<Rightarrow> nat option" where
  "byte_position b [] = None"
| "byte_position b (x # xs) = (if x = b then Some 0 else map_option Suc (byte_position b xs))"

lemma byte_position_Some_iff:
  "byte_position b xs = Some i \<longleftrightarrow> i < length xs \<and> xs ! i = b \<and> b \<notin> set (take i xs)"
proof (induction xs arbitrary: i)
  case (Cons x xs)
  then show ?case by (cases i) auto
qed simp

function disk_loop :: "bytes \<Rightarrow> nat \<Rightarrow> drained_record list \<times> nat" where
  "disk_loop bs running =
     (case byte_position 10 bs of
        None \<Rightarrow> ([], running)
      | Some rel \<Rightarrow>
          (let running' = running + rel + JSONL_RECORD_TERMINATOR_LEN;
               (rs, e) = disk_loop (drop (rel + 1) bs) running'
           in (\<lparr>rec_bytes = take rel bs, rec_start = running, rec_end = running'\<rparr> # rs, e)))"
  by auto
termination
  by (relation "measure (length \<circ> fst)") (auto simp: byte_position_Some_iff)

declare disk_loop.simps [simp del]

text \<open>\<open>read_raw_from\<close> on a 64-bit platform, where every \<open>u64\<close> offset is a \<open>usize\<close>.\<close>

fun read_raw_from :: "file_read \<Rightarrow> nat \<Rightarrow> mailbox_err + drain_result" where
  "read_raw_from FileNotFound since = Inr \<lparr>records = [], next_offset = since\<rparr>"
| "read_raw_from (FileError e) since = Inl (InternalErr e)"
| "read_raw_from (FileBytes bs) since =
     (if length bs \<le> since then Inr \<lparr>records = [], next_offset = length bs\<rparr>
      else
        (case (if since = 0 \<or> bs ! (since - 1) = 10 then Some since
               else map_option (\<lambda>off. since + off + 1) (byte_position 10 (drop since bs))) of
           None \<Rightarrow> Inr \<lparr>records = [], next_offset = length bs\<rparr>
         | Some snapped \<Rightarrow>
             if length bs \<le> snapped then Inr \<lparr>records = [], next_offset = length bs\<rparr>
             else (let (rs, e) = disk_loop (drop snapped bs) snapped
                   in Inr \<lparr>records = rs, next_offset = e\<rparr>)))"

type_synonym disk = "string \<Rightarrow> file_read"

definition mailbox_path :: "mailbox_name \<Rightarrow> string" where
  "mailbox_path n = ''mailboxes/'' @ mailbox_display n @ ''.jsonl''"

definition disk_drain_from :: "disk \<Rightarrow> mailbox_name \<Rightarrow> nat \<Rightarrow> mailbox_err + drain_result" where
  "disk_drain_from d n since = read_raw_from (d (mailbox_path n)) since"

datatype inbox_error = EmbeddedNewline

text \<open>\<open>Inbox::append\<close> on the bytes of the open file, its writes not failing.\<close>

definition inbox_append :: "bytes \<Rightarrow> bytes \<Rightarrow> inbox_error + bytes" where
  "inbox_append file line =
     (if 10 \<in> set line then Inl EmbeddedNewline else Inr (file @ line @ [10]))"

text \<open>\<open>DiskMailboxEnv::append\<close>: the file is created when absent, then the line appended.\<close>

definition disk_append :: "disk \<Rightarrow> mailbox_name \<Rightarrow> bytes \<Rightarrow> mailbox_err + disk" where
  "disk_append d n line =
     (let old = (case d (mailbox_path n) of FileBytes bs \<Rightarrow> bs | _ \<Rightarrow> []) in
      case d (mailbox_path n) of
        FileError e \<Rightarrow> Inl (InternalErr e)
      | _ \<Rightarrow> (case inbox_append old line of
          Inl _ \<Rightarrow> Inl (InternalErr ''Inbox::append'')
        | Inr bs \<Rightarrow> Inr (d(mailbox_path n := FileBytes bs))))"

subsection \<open>The mailbox on disk meets the contract\<close>

definition unlines :: "bytes list \<Rightarrow> bytes" where
  "unlines ls = concat (map (\<lambda>l. l @ [10]) ls)"

fun file_lines :: "bytes \<Rightarrow> bytes \<Rightarrow> bytes list" where
  "file_lines acc [] = []"
| "file_lines acc (b # bs) =
     (if b = 10 then rev acc # file_lines [] bs else file_lines (b # acc) bs)"

text \<open>A file the appends have written: every line is terminated.\<close>

definition file_wf :: "file_read \<Rightarrow> bool" where
  "file_wf f = (case f of FileBytes bs \<Rightarrow> bs = [] \<or> last bs = 10 | FileNotFound \<Rightarrow> True | FileError _ \<Rightarrow> False)"

definition disk_wf :: "disk \<Rightarrow> bool" where
  "disk_wf d \<longleftrightarrow> (\<forall>p. file_wf (d p))"

definition disk_lines :: "disk \<Rightarrow> mailbox_name \<Rightarrow> bytes list option" where
  "disk_lines d n = (case d (mailbox_path n) of FileBytes bs \<Rightarrow> Some (file_lines [] bs) | _ \<Rightarrow> None)"

lemma unlines_simps [simp]:
  "unlines [] = []" "unlines (l # ls) = l @ 10 # unlines ls" "unlines (xs @ ys) = unlines xs @ unlines ys"
  by (simp_all add: unlines_def)

lemma length_unlines: "length (unlines ls) = total_len ls"
  by (induction ls) (auto simp: JSONL_RECORD_TERMINATOR_LEN_def)

lemma unlines_file_lines:
  "bs = [] \<or> last bs = 10 \<Longrightarrow> bs \<noteq> [] \<or> acc = [] \<Longrightarrow> unlines (file_lines acc bs) = rev acc @ bs"
  by (induction acc bs rule: file_lines.induct) (auto split: if_splits)

lemma file_lines_no_newline:
  "10 \<notin> set acc \<Longrightarrow> l \<in> set (file_lines acc bs) \<Longrightarrow> 10 \<notin> set l"
  by (induction acc bs rule: file_lines.induct) (auto split: if_splits)

lemma file_lines_line: "10 \<notin> set l \<Longrightarrow> file_lines acc (l @ 10 # bs) = (rev acc @ l) # file_lines [] bs"
  by (induction l arbitrary: acc) auto

lemma file_lines_append:
  "bs = [] \<or> last bs = 10 \<Longrightarrow> bs \<noteq> [] \<or> acc = [] \<Longrightarrow>
   file_lines acc (bs @ cs) = file_lines acc bs @ file_lines [] cs"
  by (induction acc bs rule: file_lines.induct) (auto split: if_splits)

lemma byte_position_line: "10 \<notin> set l \<Longrightarrow> byte_position 10 (l @ 10 # bs) = Some (length l)"
  by (induction l) auto

lemma disk_loop_unlines:
  "\<forall>l \<in> set ls. 10 \<notin> set l \<Longrightarrow> disk_loop (unlines ls) k = (frames k ls, k + total_len ls)"
proof (induction ls arbitrary: k)
  case Nil
  then show ?case by (simp add: disk_loop.simps)
next
  case (Cons l ls)
  then show ?case
    by (subst disk_loop.simps)
      (simp add: byte_position_line Let_def JSONL_RECORD_TERMINATOR_LEN_def algebra_simps)
qed

lemma line_at:
  assumes "c < total_len ls"
  obtains xs l ys where "ls = xs @ l # ys" "total_len xs \<le> c"
    "c < total_len xs + length l + 1"
  using assms
proof (induction ls arbitrary: c thesis)
  case (Cons l ls)
  show ?case
  proof (cases "c < length l + 1")
    case True
    then show ?thesis using Cons.prems(1) [of "[]" l ls] by simp
  next
    case False
    then have "c - (length l + 1) < total_len ls"
      using Cons.prems(2) by (simp add: JSONL_RECORD_TERMINATOR_LEN_def)
    then obtain xs m ys where "ls = xs @ m # ys" "total_len xs \<le> c - (length l + 1)"
        "c - (length l + 1) < total_len xs + length m + 1"
      using Cons.IH by blast
    then show ?thesis
      using Cons.prems(1) [of "l # xs" m ys] False by (simp add: JSONL_RECORD_TERMINATOR_LEN_def)
  qed
qed simp

lemma frames_from:
  assumes "total_len xs \<le> c" "c < total_len xs + length l + 1"
  shows "filter (\<lambda>r. c \<le> rec_start r) (frames 0 (xs @ l # ys)) =
    (if c = total_len xs then frames c (l # ys) else frames (total_len (xs @ [l])) ys)"
proof -
  let ?keep = "\<lambda>r. c \<le> rec_start r"
  have xs: "filter ?keep (frames 0 xs) = []"
    using frames_contiguous [of 0 xs] assms(1)
    by (auto simp: filter_empty_conv dest!: contiguous_bounds)
  have ys: "filter ?keep (frames (total_len (xs @ [l])) ys) = frames (total_len (xs @ [l])) ys"
    using frames_contiguous [of "total_len (xs @ [l])" ys] assms(2)
    by (auto simp: filter_id_conv JSONL_RECORD_TERMINATOR_LEN_def dest!: contiguous_bounds)
  show ?thesis using xs ys assms(1) by (auto simp: frames_append add.assoc)
qed

lemma snapped_boundary:
  "total_len xs = 0 \<or> (unlines xs @ bs) ! (total_len xs - 1) = 10"
proof (cases xs rule: rev_cases)
  case (snoc zs z)
  then show ?thesis
    using length_unlines [of zs] by (simp add: nth_append JSONL_RECORD_TERMINATOR_LEN_def)
qed simp

lemma snapped_inside:
  assumes "10 \<notin> set l" "i < length l"
  shows "(unlines xs @ l @ 10 # bs) ! (total_len xs + i) \<noteq> 10"
    and "byte_position 10 (drop (total_len xs + Suc i) (unlines xs @ l @ 10 # bs)) = Some (length l - Suc i)"
proof -
  show "(unlines xs @ l @ 10 # bs) ! (total_len xs + i) \<noteq> 10"
    using assms length_unlines [of xs] nth_mem [OF assms(2)] by (metis nth_append nth_append_length_plus)
  have "drop (total_len xs + Suc i) (unlines xs @ l @ 10 # bs) = drop (Suc i) l @ 10 # bs"
    using assms(2) length_unlines [of xs] by simp
  moreover have "10 \<notin> set (drop (Suc i) l)" using assms(1) by (meson in_set_dropD)
  ultimately show
    "byte_position 10 (drop (total_len xs + Suc i) (unlines xs @ l @ 10 # bs)) = Some (length l - Suc i)"
    by (simp add: byte_position_line)
qed

text \<open>The boundary a cursor inside the line \<open>l\<close> is moved to.\<close>

lemma snapped_unlines:
  assumes "10 \<notin> set l" "total_len xs \<le> c" "c < total_len xs + length l + 1"
    and bs: "bs = unlines xs @ l @ 10 # rest"
  shows "(if c = 0 \<or> bs ! (c - 1) = 10 then Some c
          else map_option (\<lambda>off. c + off + 1) (byte_position 10 (drop c bs))) =
    Some (if c = total_len xs then c else total_len (xs @ [l]))"
proof (cases "c = total_len xs")
  case True
  then show ?thesis using snapped_boundary [of xs "l @ 10 # rest"] bs by simp
next
  case False
  then obtain i where i: "c = total_len xs + Suc i" "i < length l"
    using assms(2,3) by (metis Suc_eq_plus1 add_less_cancel_left le_neq_implies_less
        less_imp_Suc_add add_Suc_right Suc_less_eq add.assoc)
  then show ?thesis
    using snapped_inside [OF assms(1) i(2), of xs rest] bs
    by (simp add: JSONL_RECORD_TERMINATOR_LEN_def)
qed

lemma read_raw_from_unlines:
  assumes "\<forall>l \<in> set ls. 10 \<notin> set l"
  shows "read_raw_from (FileBytes (unlines ls)) c =
    Inr \<lparr>records = filter (\<lambda>r. c \<le> rec_start r) (frames 0 ls), next_offset = total_len ls\<rparr>"
proof (cases "total_len ls \<le> c")
  case True
  then have "filter (\<lambda>r. c \<le> rec_start r) (frames 0 ls) = []"
    using frames_contiguous [of 0 ls]
    by (auto simp: filter_empty_conv dest!: contiguous_bounds)
  then show ?thesis using True by (simp add: length_unlines)
next
  case False
  then have "c < total_len ls" by simp
  then obtain xs l ys where ls: "ls = xs @ l # ys" "total_len xs \<le> c"
      "c < total_len xs + length l + 1"
    by (rule line_at)
  define zs where "zs = (if c = total_len xs then xs else xs @ [l])"
  define ws where "ws = (if c = total_len xs then l # ys else ys)"
  have zw: "ls = zs @ ws" "\<forall>l \<in> set ws. 10 \<notin> set l"
    using ls assms by (auto simp: zs_def ws_def)
  have snap: "(if c = 0 \<or> unlines ls ! (c - 1) = 10 then Some c
      else map_option (\<lambda>off. c + off + 1) (byte_position 10 (drop c (unlines ls)))) =
      Some (total_len zs)"
    using snapped_unlines [of l xs c "unlines ls" "unlines ys"] ls assms by (auto simp: zs_def)
  have keep: "filter (\<lambda>r. c \<le> rec_start r) (frames 0 ls) = frames (total_len zs) ws"
    using frames_from [OF ls(2,3), of ys] ls(1) by (auto simp: zs_def ws_def)
  have "drop (total_len zs) (unlines ls) = unlines ws"
    using zw(1) length_unlines [of zs] by simp
  then have read: "read_raw_from (FileBytes (unlines ls)) c =
      (if total_len ls \<le> total_len zs then Inr \<lparr>records = [], next_offset = total_len ls\<rparr>
       else Inr \<lparr>records = frames (total_len zs) ws, next_offset = total_len ls\<rparr>)"
    using False disk_loop_unlines [OF zw(2), of "total_len zs"] zw(1)
    unfolding read_raw_from.simps snap length_unlines by simp
  have "ws = []" if "total_len ls \<le> total_len zs"
    using that zw(1) by (cases ws) (simp_all add: JSONL_RECORD_TERMINATOR_LEN_def)
  then show ?thesis using read keep by auto
qed

text \<open>The file after an append that is accepted; a refused one leaves it as it was.\<close>

definition disk_appended :: "disk \<Rightarrow> mailbox_name \<Rightarrow> bytes \<Rightarrow> disk" where
  "disk_appended d n l = (case disk_append d n l of Inl _ \<Rightarrow> d | Inr d' \<Rightarrow> d')"

lemma disk_append_eq:
  assumes "disk_wf d" "10 \<notin> set l"
  obtains bs where "file_wf (FileBytes bs)"
    "disk_appended d n l = d(mailbox_path n := FileBytes (bs @ l @ [10]))"
    "file_lines [] bs = unwrap_or [] (disk_lines d n)"
proof -
  have w: "file_wf (d (mailbox_path n))" using assms(1) by (simp add: disk_wf_def)
  show thesis
    using that [of "case d (mailbox_path n) of FileBytes bs \<Rightarrow> bs | _ \<Rightarrow> []"] w assms(2)
    by (cases "d (mailbox_path n)")
      (auto simp: disk_appended_def disk_append_def inbox_append_def disk_lines_def file_wf_def)
qed

interpretation disk: mailbox_read disk_wf disk_lines disk_drain_from disk_appended
proof unfold_locales
  show "disk_drain_from d n c = Inr \<lparr>records = [], next_offset = c\<rparr>"
    if "disk_wf d" "disk_lines d n = None" for d n c
  proof -
    have "file_wf (d (mailbox_path n))" using that(1) by (simp add: disk_wf_def)
    then show ?thesis
      using that(2) by (auto simp: disk_lines_def disk_drain_from_def file_wf_def split: file_read.splits)
  qed
  show "disk_drain_from d n c =
      Inr \<lparr>records = filter (\<lambda>r. c \<le> rec_start r) (frames 0 ls), next_offset = total_len ls\<rparr>"
    if w: "disk_wf d" and l: "disk_lines d n = Some ls" for d n ls c
  proof -
    obtain bs where bs: "d (mailbox_path n) = FileBytes bs" "ls = file_lines [] bs"
      using l by (auto simp: disk_lines_def split: file_read.splits)
    have "file_wf (FileBytes bs)" using w bs(1) by (metis disk_wf_def)
    then have "unlines ls = bs" using bs(2) unlines_file_lines [of bs "[]"] by (simp add: file_wf_def)
    then show ?thesis
      using read_raw_from_unlines [of ls c] file_lines_no_newline [of "[]" _ bs] bs
      by (simp add: disk_drain_from_def)
  qed
  show "disk_wf (disk_appended d n l)" if w: "disk_wf d" and l: "10 \<notin> set l" for d n l
  proof -
    obtain bs where "disk_appended d n l = d(mailbox_path n := FileBytes (bs @ l @ [10]))"
      using disk_append_eq [OF w l] by metis
    then show ?thesis using w by (simp add: disk_wf_def file_wf_def)
  qed
  show "disk_lines (disk_appended d n l) n = Some (unwrap_or [] (disk_lines d n) @ [l])"
    if w: "disk_wf d" and l: "10 \<notin> set l" for d n l
  proof -
    obtain bs where bs: "file_wf (FileBytes bs)"
        "disk_appended d n l = d(mailbox_path n := FileBytes (bs @ l @ [10]))"
        "file_lines [] bs = unwrap_or [] (disk_lines d n)"
      using disk_append_eq [OF w l] by metis
    have "file_lines [] (bs @ l @ [10]) = file_lines [] bs @ [l]"
      using bs(1) file_lines_append [of bs "[]"] file_lines_line [OF l, of "[]" "[]"]
      by (simp add: file_wf_def)
    then show ?thesis using bs(2,3) by (simp add: disk_lines_def)
  qed
qed

end
