(* ===== verification/Core.thy ===== *)
theory Core
  imports Canonical
begin

text \<open>
  The crate \<open>famp-core\<close>: message classes, terminal statuses, the authority ladder, the UUID
  newtypes and the two identity grammars \<open>agent:<authority>/<name>\<close> and
  \<open>agent:<authority>/<name>#<instance>\<close>.
\<close>

subsection \<open>Enumerations\<close>

datatype message_class = Request | Commit | Deliver | Ack | Control | AuditLog

definition class_wire :: "(string \<times> message_class) list" where
  "class_wire =
     [(''request'', Request), (''commit'', Commit), (''deliver'', Deliver), (''ack'', Ack),
      (''control'', Control), (''audit_log'', AuditLog)]"

fun class_str :: "message_class \<Rightarrow> string" where
  "class_str Request = ''request''"
| "class_str Commit = ''commit''"
| "class_str Deliver = ''deliver''"
| "class_str Ack = ''ack''"
| "class_str Control = ''control''"
| "class_str AuditLog = ''audit_log''"

datatype terminal_status = TsCompleted | TsFailed | TsCancelled

definition terminal_wire :: "(string \<times> terminal_status) list" where
  "terminal_wire =
     [(''completed'', TsCompleted), (''failed'', TsFailed), (''cancelled'', TsCancelled)]"

datatype authority_scope = Advisory | Negotiate | CommitLocal | CommitDelegate | Transfer

fun scope_as_wire :: "authority_scope \<Rightarrow> string" where
  "scope_as_wire Advisory = ''advisory''"
| "scope_as_wire Negotiate = ''negotiate''"
| "scope_as_wire CommitLocal = ''commit_local''"
| "scope_as_wire CommitDelegate = ''commit_delegate''"
| "scope_as_wire Transfer = ''transfer''"

fun scope_rank :: "authority_scope \<Rightarrow> nat" where
  "scope_rank Advisory = 0"
| "scope_rank Negotiate = 1"
| "scope_rank CommitLocal = 2"
| "scope_rank CommitDelegate = 3"
| "scope_rank Transfer = 4"

definition satisfies :: "authority_scope \<Rightarrow> authority_scope \<Rightarrow> bool" where
  "satisfies s required \<longleftrightarrow> scope_rank required \<le> scope_rank s"

definition scope_from_str :: "string \<Rightarrow> authority_scope option" where
  "scope_from_str s =
     (if s = ''advisory'' then Some Advisory
      else if s = ''negotiate'' then Some Negotiate
      else if s = ''commit_local'' then Some CommitLocal
      else if s = ''commit_delegate'' then Some CommitDelegate
      else if s = ''transfer'' then Some Transfer
      else None)"

definition authority_wire :: "(string \<times> authority_scope) list" where
  "authority_wire =
     map (\<lambda>s. (scope_as_wire s, s)) [Advisory, Negotiate, CommitLocal, CommitDelegate, Transfer]"

lemma scope_rank_inject: "scope_rank a = scope_rank b \<Longrightarrow> a = b"
  by (cases a; cases b) auto

lemma scope_from_str_wire [simp]: "scope_from_str (scope_as_wire s) = Some s"
  by (cases s) (auto simp: scope_from_str_def)

lemma class_wire_str [simp]: "map_of class_wire (class_str c) = Some c"
  by (cases c) (auto simp: class_wire_def)

text \<open>
  \<open>satisfies\<close> is the ladder's order: the library's order class on the scopes is the rank's
  order, which is a total order.
\<close>

instantiation authority_scope :: linorder
begin

definition less_eq_authority_scope :: "authority_scope \<Rightarrow> authority_scope \<Rightarrow> bool" where
  "less_eq_authority_scope a b \<longleftrightarrow> satisfies b a"

definition less_authority_scope :: "authority_scope \<Rightarrow> authority_scope \<Rightarrow> bool" where
  "less_authority_scope a b \<longleftrightarrow> satisfies b a \<and> \<not> satisfies a b"

instance
  by standard
    (auto simp: less_eq_authority_scope_def less_authority_scope_def satisfies_def
      dest: scope_rank_inject)

end

subsection \<open>Identifiers\<close>

text \<open>\<open>FromStr\<close> of the UUID newtypes: only the 36-character hyphenated form.\<close>

definition parse_id :: "ext_lib \<Rightarrow> string \<Rightarrow> uuid option" where
  "parse_id lib s = (if length s \<noteq> 36 then None else uuid_parse lib s)"

datatype artifact_id_error = MissingPrefix | UnsupportedAlgorithm | InvalidHex

definition is_lower_hex :: "char \<Rightarrow> bool" where
  "is_lower_hex b \<longleftrightarrow> is_ascii_digit b \<or> CHR ''a'' \<le> b \<and> b \<le> CHR ''f''"

definition artifact_id_from_str :: "string \<Rightarrow> artifact_id_error + string" where
  "artifact_id_from_str s =
     (case split_at_char (CHR '':'') s of
        None \<Rightarrow> Inl MissingPrefix
      | Some (algo, hex) \<Rightarrow>
          if algo \<noteq> ''sha256'' then Inl UnsupportedAlgorithm
          else if length hex \<noteq> 64 then Inl InvalidHex
          else if \<not> list_all is_lower_hex hex then Inl InvalidHex
          else Inr s)"

subsection \<open>Identities\<close>

record principal =
  authority :: string
  pname :: string

record instance_id =
  iauthority :: string
  iname :: string
  iinstance :: string

datatype principal_error =
    MissingScheme
  | UnexpectedInstanceTail
  | InvalidAuthority string
  | InvalidName string
  | MissingNameSeparator

datatype instance_error =
    IMissingScheme
  | IMissingInstanceTail
  | IInvalidAuthority string
  | IInvalidName string
  | IInvalidInstanceId string
  | IMissingNameSeparator

text \<open>A text between single quotes, as the error messages have it.\<close>

definition quoted :: "string \<Rightarrow> string" where
  "quoted s = CHR 0x27 # s @ [CHR 0x27]"

definition label_char :: "char \<Rightarrow> bool" where
  "label_char b \<longleftrightarrow> is_ascii_alphanumeric b \<or> b = CHR ''-''"

fun check_labels :: "string list \<Rightarrow> string + unit" where
  "check_labels [] = Inr ()"
| "check_labels (l # ls) =
     (if l = [] then Inl ''empty label''
      else if hd l = CHR ''-'' \<or> last l = CHR ''-'' then Inl (''label must not start or end with '' @ quoted ''-'')
      else if \<not> list_all label_char l then Inl ''label contains invalid character''
      else check_labels ls)"

definition validate_authority :: "string \<Rightarrow> string + unit" where
  "validate_authority s =
     (if s = [] then Inl ''empty authority''
      else if 253 < length s then Inl ''authority exceeds 253 bytes''
      else if \<not> list_all is_ascii s then Inl ''authority must be ASCII''
      else check_labels (split_all (CHR ''.'') s))"

definition name_char :: "char \<Rightarrow> bool" where
  "name_char b \<longleftrightarrow>
     is_ascii_alphanumeric b \<or> b = CHR ''.'' \<or> b = CHR ''_'' \<or> b = CHR ''-''"

definition validate_name_or_instance_id :: "string \<Rightarrow> string + unit" where
  "validate_name_or_instance_id s =
     (if s = [] then Inl ''empty''
      else if 64 < length s then Inl ''length exceeds 64 bytes''
      else if \<not> list_all is_ascii s then Inl ''must be ASCII''
      else if \<not> list_all name_char s then Inl ''contains invalid character''
      else Inr ())"

definition principal_from_str :: "string \<Rightarrow> principal_error + principal" where
  "principal_from_str s =
     (case strip_prefix ''agent:'' s of
        None \<Rightarrow> Inl MissingScheme
      | Some rest \<Rightarrow>
          if CHR ''#'' \<in> set rest then Inl UnexpectedInstanceTail
          else (case split_at_char (CHR ''/'') rest of
              None \<Rightarrow> Inl MissingNameSeparator
            | Some (a, n) \<Rightarrow>
                (case validate_authority a of
                   Inl e \<Rightarrow> Inl (InvalidAuthority e)
                 | Inr _ \<Rightarrow>
                     (case validate_name_or_instance_id n of
                        Inl e \<Rightarrow> Inl (InvalidName e)
                      | Inr _ \<Rightarrow> Inr \<lparr>authority = a, pname = n\<rparr>))))"

definition principal_display :: "principal \<Rightarrow> string" where
  "principal_display p = ''agent:'' @ authority p @ ''/'' @ pname p"

definition instance_from_str :: "string \<Rightarrow> instance_error + instance_id" where
  "instance_from_str s =
     (case strip_prefix ''agent:'' s of
        None \<Rightarrow> Inl IMissingScheme
      | Some rest \<Rightarrow>
          (case split_at_char (CHR ''/'') rest of
             None \<Rightarrow> Inl IMissingNameSeparator
           | Some (a, tail) \<Rightarrow>
               (case split_at_char (CHR ''#'') tail of
                  None \<Rightarrow> Inl IMissingInstanceTail
                | Some (n, i) \<Rightarrow>
                    if CHR ''#'' \<in> set i then Inl (IInvalidInstanceId (''multiple '' @ quoted ''#'' @ '' separators''))
                    else (case validate_authority a of
                        Inl e \<Rightarrow> Inl (IInvalidAuthority e)
                      | Inr _ \<Rightarrow>
                          (case validate_name_or_instance_id n of
                             Inl e \<Rightarrow> Inl (IInvalidName e)
                           | Inr _ \<Rightarrow>
                               (case validate_name_or_instance_id i of
                                  Inl e \<Rightarrow> Inl (IInvalidInstanceId e)
                                | Inr _ \<Rightarrow>
                                    Inr \<lparr>iauthority = a, iname = n, iinstance = i\<rparr>))))))"

definition instance_display :: "instance_id \<Rightarrow> string" where
  "instance_display i = ''agent:'' @ iauthority i @ ''/'' @ iname i @ ''#'' @ iinstance i"

subsection \<open>The grammars\<close>

definition wf_principal :: "principal \<Rightarrow> bool" where
  "wf_principal p \<longleftrightarrow>
     is_ok (validate_authority (authority p)) \<and> is_ok (validate_name_or_instance_id (pname p))"

definition wf_instance :: "instance_id \<Rightarrow> bool" where
  "wf_instance i \<longleftrightarrow>
     is_ok (validate_authority (iauthority i)) \<and>
     is_ok (validate_name_or_instance_id (iname i)) \<and>
     is_ok (validate_name_or_instance_id (iinstance i))"

lemma name_char_plain: "name_char c \<Longrightarrow> c \<noteq> CHR ''/'' \<and> c \<noteq> CHR ''#''"
  by (auto simp: name_char_def is_ascii_alphanumeric_def is_ascii_digit_def is_ascii_lower_def
      is_ascii_upper_def less_eq_char_def)

lemma valid_name_chars:
  "validate_name_or_instance_id n = Inr u \<Longrightarrow> c \<in> set n \<Longrightarrow> name_char c"
  by (auto simp: validate_name_or_instance_id_def list_all_iff split: if_splits)

lemma valid_name_plain:
  assumes "validate_name_or_instance_id n = Inr u"
  shows "CHR ''/'' \<notin> set n" "CHR ''#'' \<notin> set n"
  using valid_name_chars [OF assms] name_char_plain by blast+

lemma split_all_chars:
  "c \<in> set s \<Longrightarrow> c \<noteq> d \<Longrightarrow> \<exists>l \<in> set (split_all d s). c \<in> set l"
  by (induction s) (auto split: list.splits)

lemma check_labels_chars:
  "check_labels ls = Inr u \<Longrightarrow> l \<in> set ls \<Longrightarrow> c \<in> set l \<Longrightarrow> label_char c"
  by (induction ls) (auto simp: list_all_iff split: if_splits)

lemma label_char_plain: "label_char c \<Longrightarrow> c \<noteq> CHR ''/'' \<and> c \<noteq> CHR ''#''"
  by (auto simp: label_char_def is_ascii_alphanumeric_def is_ascii_digit_def is_ascii_lower_def
      is_ascii_upper_def less_eq_char_def)

lemma valid_authority_plain:
  assumes "validate_authority a = Inr u"
  shows "CHR ''/'' \<notin> set a" "CHR ''#'' \<notin> set a"
proof -
  have "check_labels (split_all (CHR ''.'') a) = Inr u"
    using assms by (auto simp: validate_authority_def split: if_splits)
  then have "c \<in> set a \<Longrightarrow> c \<noteq> CHR ''.'' \<Longrightarrow> c \<noteq> CHR ''/'' \<and> c \<noteq> CHR ''#''" for c
    using split_all_chars [of c a "CHR ''.''"] check_labels_chars label_char_plain by blast
  then show "CHR ''/'' \<notin> set a" "CHR ''#'' \<notin> set a" by auto
qed

lemma principal_from_str_Inr_iff:
  "principal_from_str s = Inr p \<longleftrightarrow> s = principal_display p \<and> wf_principal p"
proof
  assume "principal_from_str s = Inr p"
  then show "s = principal_display p \<and> wf_principal p"
    by (auto simp: principal_from_str_def principal_display_def wf_principal_def
        strip_prefix_Some_iff split_at_char_Some_iff
        split: option.splits if_splits sum.splits prod.splits)
next
  assume r: "s = principal_display p \<and> wf_principal p"
  then have v: "validate_authority (authority p) = Inr ()"
      "validate_name_or_instance_id (pname p) = Inr ()"
    by (auto simp: wf_principal_def is_ok_iff)
  note plain = valid_authority_plain [OF v(1)] valid_name_plain [OF v(2)]
  have s: "s = ''agent:'' @ (authority p @ CHR ''/'' # pname p)"
    using r by (simp add: principal_display_def)
  have "strip_prefix ''agent:'' s = Some (authority p @ CHR ''/'' # pname p)"
    unfolding s by (rule strip_prefix_append)
  then show "principal_from_str s = Inr p"
    using plain v by (simp add: principal_from_str_def)
qed

lemma instance_from_str_Inr_iff:
  "instance_from_str s = Inr i \<longleftrightarrow> s = instance_display i \<and> wf_instance i"
proof
  assume "instance_from_str s = Inr i"
  then show "s = instance_display i \<and> wf_instance i"
    by (auto simp: instance_from_str_def instance_display_def wf_instance_def
        strip_prefix_Some_iff split_at_char_Some_iff
        split: option.splits if_splits sum.splits prod.splits)
next
  assume r: "s = instance_display i \<and> wf_instance i"
  then have v: "validate_authority (iauthority i) = Inr ()"
      "validate_name_or_instance_id (iname i) = Inr ()"
      "validate_name_or_instance_id (iinstance i) = Inr ()"
    by (auto simp: wf_instance_def is_ok_iff)
  note plain = valid_authority_plain [OF v(1)] valid_name_plain [OF v(2)] valid_name_plain [OF v(3)]
  have s: "s = ''agent:'' @ (iauthority i @ CHR ''/'' # (iname i @ CHR ''#'' # iinstance i))"
    using r by (simp add: instance_display_def)
  have "strip_prefix ''agent:'' s =
      Some (iauthority i @ CHR ''/'' # (iname i @ CHR ''#'' # iinstance i))"
    unfolding s by (rule strip_prefix_append)
  then show "instance_from_str s = Inr i"
    using plain v by (simp add: instance_from_str_def)
qed

lemma last_segment_principal:
  "wf_principal p \<Longrightarrow> last_segment (principal_display p) = pname p"
proof -
  assume "wf_principal p"
  then have "CHR ''/'' \<notin> set (pname p)"
    by (auto simp: wf_principal_def is_ok_iff dest: valid_name_plain)
  then have "last_segment ((''agent:'' @ authority p) @ CHR ''/'' # pname p) = pname p"
    by (rule last_segment_append_slash)
  then show ?thesis by (simp add: principal_display_def)
qed

end
