(* ===== verification/Crypto.thy ===== *)
theory Crypto
  imports Core
begin

text \<open>
  The crate \<open>famp-crypto\<close>: the encodings of keys and signatures, the domain-separated signing
  input, signing and verifying canonical values, key fingerprints and artifact hashes. The
  primitives belong to third-party crates and are a parameter, the record \<open>fed_lib\<close>: unpadded
  URL-safe base64 (\<open>base64\<close>), Ed25519 (\<open>ed25519-dalek\<close>, whose keys and signatures are their
  byte strings), SHA-256 (\<open>sha2\<close>) and \<open>serde_json\<close>'s writer for values.
\<close>

record fed_lib =
  b64_encode :: "bytes \<Rightarrow> string"
  b64_decode :: "string \<Rightarrow> bytes option"
  ed_public :: "bytes \<Rightarrow> bytes"
  ed_point :: "bytes \<Rightarrow> bool"
  ed_weak :: "bytes \<Rightarrow> bool"
  ed_sign :: "bytes \<Rightarrow> bytes \<Rightarrow> bytes"
  ed_verify_strict :: "bytes \<Rightarrow> bytes \<Rightarrow> bytes \<Rightarrow> bool"
  sha256 :: "bytes \<Rightarrow> bytes"
  json_to_vec :: "json \<Rightarrow> string + bytes"

type_synonym signing_key = bytes
type_synonym verifying_key = bytes
type_synonym signature = bytes

datatype crypto_error =
    InvalidKeyEncoding
  | CrInvalidSignatureEncoding
  | WeakKey
  | Canonicalization canonical_error
  | VerificationFailed

subsection \<open>Keys and signatures\<close>

text \<open>Decoding into an array \<open>[u8; n]\<close>.\<close>

definition b64_array :: "fed_lib \<Rightarrow> crypto_error \<Rightarrow> nat \<Rightarrow> string \<Rightarrow> crypto_error + bytes" where
  "b64_array fl e n input =
     (case b64_decode fl input of
        None \<Rightarrow> Inl e
      | Some v \<Rightarrow> if length v = n then Inr v else Inl e)"

definition sk_from_b64url :: "fed_lib \<Rightarrow> string \<Rightarrow> crypto_error + signing_key" where
  "sk_from_b64url fl input = b64_array fl InvalidKeyEncoding 32 input"

definition sk_to_b64url :: "fed_lib \<Rightarrow> signing_key \<Rightarrow> string" where
  "sk_to_b64url fl sk = b64_encode fl sk"

definition sk_verifying_key :: "fed_lib \<Rightarrow> signing_key \<Rightarrow> verifying_key" where
  "sk_verifying_key fl sk = ed_public fl sk"

definition vk_from_bytes :: "fed_lib \<Rightarrow> bytes \<Rightarrow> crypto_error + verifying_key" where
  "vk_from_bytes fl b =
     (if \<not> ed_point fl b then Inl InvalidKeyEncoding
      else if ed_weak fl b then Inl WeakKey
      else Inr b)"

definition vk_from_b64url :: "fed_lib \<Rightarrow> string \<Rightarrow> crypto_error + verifying_key" where
  "vk_from_b64url fl input = res_bind (b64_array fl InvalidKeyEncoding 32 input) (vk_from_bytes fl)"

definition vk_to_b64url :: "fed_lib \<Rightarrow> verifying_key \<Rightarrow> string" where
  "vk_to_b64url fl vk = b64_encode fl vk"

definition key_id :: "fed_lib \<Rightarrow> verifying_key \<Rightarrow> string" where
  "key_id fl vk = take 16 (b64_encode fl (sha256 fl vk))"

definition sig_from_b64url :: "fed_lib \<Rightarrow> string \<Rightarrow> crypto_error + signature" where
  "sig_from_b64url fl input = b64_array fl CrInvalidSignatureEncoding 64 input"

definition sig_to_b64url :: "fed_lib \<Rightarrow> signature \<Rightarrow> string" where
  "sig_to_b64url fl s = b64_encode fl s"

subsection \<open>Signing and verifying\<close>

definition ascii_bytes :: "string \<Rightarrow> bytes" where
  "ascii_bytes s = map (\<lambda>c. word_of_nat (of_char c)) s"

definition DOMAIN_PREFIX :: bytes where
  "DOMAIN_PREFIX = ascii_bytes ''FAMP-sig-v1'' @ [0]"

definition canonicalize_for_signature :: "ext_lib \<Rightarrow> json \<Rightarrow> crypto_error + bytes" where
  "canonicalize_for_signature lib v =
     res_bind (map_err Canonicalization (canonicalize lib v)) (\<lambda>c. Inr (DOMAIN_PREFIX @ c))"

definition sign_canonical_bytes :: "fed_lib \<Rightarrow> signing_key \<Rightarrow> bytes \<Rightarrow> signature" where
  "sign_canonical_bytes fl sk c = ed_sign fl sk (DOMAIN_PREFIX @ c)"

definition sign_value :: "fed_lib \<Rightarrow> ext_lib \<Rightarrow> signing_key \<Rightarrow> json \<Rightarrow> crypto_error + signature" where
  "sign_value fl lib sk v =
     res_bind (map_err Canonicalization (canonicalize lib v)) (\<lambda>c.
     Inr (sign_canonical_bytes fl sk c))"

definition verify_canonical_bytes ::
  "fed_lib \<Rightarrow> verifying_key \<Rightarrow> bytes \<Rightarrow> signature \<Rightarrow> crypto_error + unit" where
  "verify_canonical_bytes fl vk c s =
     (if ed_verify_strict fl vk (DOMAIN_PREFIX @ c) s then Inr () else Inl VerificationFailed)"

definition verify_value ::
  "fed_lib \<Rightarrow> ext_lib \<Rightarrow> verifying_key \<Rightarrow> json \<Rightarrow> signature \<Rightarrow> crypto_error + unit" where
  "verify_value fl lib vk v s =
     res_bind (map_err Canonicalization (canonicalize lib v)) (\<lambda>c.
     verify_canonical_bytes fl vk c s)"

subsection \<open>Hashes\<close>

text \<open>\<open>char::from_digit(d, 16)\<close>.\<close>

definition hex_digit :: "8 word \<Rightarrow> char" where
  "hex_digit d = char_of (if d < 10 then 48 + unat d else 87 + unat d)"

definition sha256_artifact_id :: "fed_lib \<Rightarrow> bytes \<Rightarrow> string" where
  "sha256_artifact_id fl b =
     ''sha256:'' @ concat (map (\<lambda>x. [hex_digit (drop_bit 4 x), hex_digit (and x 15)]) (sha256 fl b))"

text \<open>The same identifier as \<open>famp-canonical\<close> computes it, with a digit table.\<close>

definition bytes_to_lower_hex :: "bytes \<Rightarrow> string" where
  "bytes_to_lower_hex b =
     concat (map (\<lambda>x. [''0123456789abcdef'' ! unat (drop_bit 4 x), ''0123456789abcdef'' ! unat (and x 15)]) b)"

definition artifact_id_for_canonical_bytes :: "fed_lib \<Rightarrow> bytes \<Rightarrow> string" where
  "artifact_id_for_canonical_bytes fl c = ''sha256:'' @ bytes_to_lower_hex (sha256 fl c)"

definition artifact_id_for_value :: "fed_lib \<Rightarrow> ext_lib \<Rightarrow> json \<Rightarrow> canonical_error + string" where
  "artifact_id_for_value fl lib v =
     res_bind (canonicalize lib v) (\<lambda>c. Inr (artifact_id_for_canonical_bytes fl c))"

subsection \<open>Facts about the wrappers\<close>

text \<open>What an honest key pair promises: the key is well formed, what it signs verifies, encodings decode.\<close>

definition honest_signer :: "fed_lib \<Rightarrow> signing_key \<Rightarrow> bool" where
  "honest_signer fl sk \<longleftrightarrow>
     (\<forall>m. ed_verify_strict fl (ed_public fl sk) m (ed_sign fl sk m) \<and> length (ed_sign fl sk m) = 64) \<and>
     (\<forall>b. b64_decode fl (b64_encode fl b) = Some b)"

lemma verify_value_Inr_iff:
  "verify_value fl lib vk v s = Inr () \<longleftrightarrow>
     (\<exists>m. canonicalize_for_signature lib v = Inr m \<and> ed_verify_strict fl vk m s)"
  by (auto simp: verify_value_def canonicalize_for_signature_def verify_canonical_bytes_def
      res_bind_Inr_iff)

lemma sign_value_Inr_iff:
  "sign_value fl lib sk v = Inr s \<longleftrightarrow>
     (\<exists>m. canonicalize_for_signature lib v = Inr m \<and> s = ed_sign fl sk m)"
  by (auto simp: sign_value_def canonicalize_for_signature_def sign_canonical_bytes_def
      res_bind_Inr_iff)

lemma signed_value_verifies:
  assumes "honest_signer fl sk" "sign_value fl lib sk v = Inr s"
  shows "verify_value fl lib (sk_verifying_key fl sk) v s = Inr ()"
    and "sig_from_b64url fl (sig_to_b64url fl s) = Inr s"
  using assms
  by (auto simp: honest_signer_def sign_value_Inr_iff verify_value_Inr_iff sk_verifying_key_def
      sig_from_b64url_def sig_to_b64url_def b64_array_def)

lemma hex_digit_lower: "d < 16 \<Longrightarrow> is_lower_hex (hex_digit d)"
proof -
  assume "d < 16"
  then have "unat d < 16" by (simp add: word_less_nat_alt)
  then have "unat d \<in> {0, 1, 2, 3, 4, 5, 6, 7, 8, 9, 10, 11, 12, 13, 14, 15}"
    by (simp only: insert_iff empty_iff) arith
  then show ?thesis
    by (auto simp: hex_digit_def word_less_nat_alt is_lower_hex_def is_ascii_digit_def
        less_eq_char_def)
qed

lemma nibble_less: "drop_bit 4 x < 16" "and x 15 < 16" for x :: "8 word"
proof -
  show "drop_bit 4 x < 16"
    using unsigned_less [of x, where 'a = nat]
    by (simp add: word_less_nat_alt unat_drop_bit_eq drop_bit_eq_div unat_div)
  have "and x 15 \<le> 15" by (rule word_and_le1)
  then show "and x 15 < 16" by (simp add: word_le_nat_alt word_less_nat_alt)
qed

lemma hex_digit_table: "d < 16 \<Longrightarrow> ''0123456789abcdef'' ! unat d = hex_digit d"
proof -
  assume "d < 16"
  then have "unat d < 16" by (simp add: word_less_nat_alt)
  then have "unat d \<in> {0, 1, 2, 3, 4, 5, 6, 7, 8, 9, 10, 11, 12, 13, 14, 15}"
    by (simp only: insert_iff empty_iff) arith
  then show ?thesis by (auto simp: hex_digit_def word_less_nat_alt char_of_def bit_0)
qed

lemma artifact_ids_agree: "artifact_id_for_canonical_bytes fl b = sha256_artifact_id fl b"
  by (simp add: artifact_id_for_canonical_bytes_def bytes_to_lower_hex_def sha256_artifact_id_def
      hex_digit_table nibble_less)

lemma sha256_artifact_id_parses:
  assumes "length (sha256 fl b) = 32"
  shows "artifact_id_from_str (sha256_artifact_id fl b) = Inr (sha256_artifact_id fl b)"
proof -
  let ?hex = "concat (map (\<lambda>x. [hex_digit (drop_bit 4 x), hex_digit (and x 15)]) (sha256 fl b))"
  have l: "length ?hex = 64" using assms by (simp add: length_concat comp_def sum_list_triv)
  have h: "list_all is_lower_hex ?hex" by (auto simp: list_all_iff hex_digit_lower nibble_less)
  have "split_at_char (CHR '':'') (''sha256'' @ CHR '':'' # ?hex) = Some (''sha256'', ?hex)"
    by (rule split_at_char_append) simp
  then show ?thesis using l h by (simp add: artifact_id_from_str_def sha256_artifact_id_def)
qed

end
