(* ===== verification/Bodies.thy ===== *)
theory Bodies
  imports Crypto
begin

text \<open>
  The parts of an envelope (\<open>famp-envelope\<close>): scopes, causality, timestamps, bounds and the six
  bodies, with the serializers and deserializers serde derives for them and the cross-field
  validation of each body. A text an error carries only for display is represented by its cause.
\<close>

definition FAMP_SPEC_VERSION :: string where "FAMP_SPEC_VERSION = ''0.5.2''"

datatype envelope_scope = ScStandalone | ScConversation | ScTask

definition scope_wire :: "(string \<times> envelope_scope) list" where
  "scope_wire =
     [(''standalone'', ScStandalone), (''conversation'', ScConversation), (''task'', ScTask)]"

datatype relation = Acknowledges | Requests | Commits | Delivers | Cancels | Audits

definition relation_wire :: "(string \<times> relation) list" where
  "relation_wire =
     [(''acknowledges'', Acknowledges), (''requests'', Requests), (''commits'', Commits),
      (''delivers'', Delivers), (''cancels'', Cancels), (''audits'', Audits)]"

record causality =
  rel :: relation
  referenced :: uuid

subsection \<open>Timestamps\<close>

text \<open>Byte \<open>i\<close> of a string is \<open>b\<close>; every index is below the length checked before.\<close>

definition byte_is :: "string \<Rightarrow> nat \<Rightarrow> char \<Rightarrow> bool" where
  "byte_is s i b \<longleftrightarrow> i < length s \<and> s ! i = b"

definition byte_digit :: "string \<Rightarrow> nat \<Rightarrow> bool" where
  "byte_digit s i \<longleftrightarrow> i < length s \<and> is_ascii_digit (s ! i)"

definition shallow_validate :: "string \<Rightarrow> bool" where
  "shallow_validate v =
     (if length v < 20 then False
      else if \<not> byte_is v 4 (CHR ''-'') \<or> \<not> byte_is v 7 (CHR ''-'') \<or> \<not> byte_is v 10 (CHR ''T'')
      then False
      else if \<not> byte_is v 13 (CHR '':'') \<or> \<not> byte_is v 16 (CHR '':'') then False
      else if last v = CHR ''Z'' then True
      else if length v < 25 then False
      else (let off = drop (length v - 6) v in
          (byte_is off 0 (CHR ''+'') \<or> byte_is off 0 (CHR ''-'')) \<and>
          byte_digit off 1 \<and> byte_digit off 2 \<and> byte_is off 3 (CHR '':'') \<and>
          byte_digit off 4 \<and> byte_digit off 5))"

definition is_canonical_utc_form :: "string \<Rightarrow> bool" where
  "is_canonical_utc_form v \<longleftrightarrow> shallow_validate v \<and> length v = 20 \<and> byte_is v 19 (CHR ''Z'')"

subsection \<open>Errors\<close>

datatype validation_failure =
    SerdeFailure serde_err
  | RootNotObject
  | FampNotString
  | EventEmpty
  | ConfidenceOutOfRange rat

datatype envelope_decode_error =
    MalformedJson canonical_error
  | EnvMissingField string
  | UnknownEnvelopeField string
  | UnknownBodyField message_class string
  | UnsupportedVersion string
  | UnknownClass string
  | ClassMismatch message_class message_class
  | ScopeMismatch message_class envelope_scope envelope_scope
  | MissingSignature
  | UnexpectedSignature
  | InvalidSignatureEncoding crypto_error
  | SignatureInvalid
  | InvalidControlAction string
  | InterimWithTerminalStatus
  | TerminalWithoutStatus
  | MissingErrorDetail
  | MissingProvenance
  | InsufficientBounds nat
  | BodyValidation validation_failure

subsection \<open>Scalar deserializers\<close>

definition de_parsed :: "string \<Rightarrow> (string \<Rightarrow> 'a option) \<Rightarrow> 'a de" where
  "de_parsed what p v = res_bind (de_string v) (\<lambda>s. ok_or (InvalidValue what) (p s))"

definition ok_opt :: "'e + 'a \<Rightarrow> 'a option" where
  "ok_opt r = (case r of Inl _ \<Rightarrow> None | Inr x \<Rightarrow> Some x)"

definition de_message_id :: "ext_lib \<Rightarrow> uuid de" where
  "de_message_id lib = de_parsed ''uuid'' (parse_id lib)"

definition de_principal :: "principal de" where
  "de_principal = de_parsed ''principal'' (ok_opt \<circ> principal_from_str)"

definition de_timestamp :: "string de" where
  "de_timestamp = de_parsed ''timestamp'' (\<lambda>s. if shallow_validate s then Some s else None)"

definition de_artifact_id :: "string de" where
  "de_artifact_id = de_parsed ''artifact id'' (ok_opt \<circ> artifact_id_from_str)"

definition de_causality :: "ext_lib \<Rightarrow> causality de" where
  "de_causality lib v =
     res_bind (de_struct [req_field ''rel'' (de_enum relation_wire),
                          req_field ''ref'' (de_message_id lib)] v) (\<lambda>es.
     res_bind (req es ''rel'' (de_enum relation_wire)) (\<lambda>r.
     res_bind (req es ''ref'' (de_message_id lib)) (\<lambda>i.
     Inr \<lparr>rel = r, referenced = i\<rparr>)))"

subsection \<open>Bounds\<close>

record budget =
  amount :: string
  unit_of :: string

record bounds =
  deadline :: "string option"
  budget_of :: "budget option"
  hop_limit :: "nat option"
  policy_domain :: "string option"
  bounds_authority :: "authority_scope option"
  max_artifact_size :: "nat option"
  confidence_floor :: "rat option"
  recursion_depth :: "nat option"

definition de_budget :: "budget de" where
  "de_budget v =
     res_bind (de_struct [req_field ''amount'' de_string, req_field ''unit'' de_string] v) (\<lambda>es.
     res_bind (req es ''amount'' de_string) (\<lambda>a.
     res_bind (req es ''unit'' de_string) (\<lambda>u.
     Inr \<lparr>amount = a, unit_of = u\<rparr>)))"

definition bounds_fields :: "field list" where
  "bounds_fields =
     [opt_field ''deadline'' de_string, opt_field ''budget'' de_budget,
      opt_field ''hop_limit'' de_u64, opt_field ''policy_domain'' de_string,
      opt_field ''authority_scope'' (de_enum authority_wire),
      opt_field ''max_artifact_size'' de_u64, opt_field ''confidence_floor'' de_f64,
      opt_field ''recursion_depth'' de_u8]"

definition de_bounds :: "bounds de" where
  "de_bounds v =
     res_bind (de_struct bounds_fields v) (\<lambda>es.
     res_bind (opt es ''deadline'' de_string) (\<lambda>dl.
     res_bind (opt es ''budget'' de_budget) (\<lambda>bu.
     res_bind (opt es ''hop_limit'' de_u64) (\<lambda>hl.
     res_bind (opt es ''policy_domain'' de_string) (\<lambda>pd.
     res_bind (opt es ''authority_scope'' (de_enum authority_wire)) (\<lambda>au.
     res_bind (opt es ''max_artifact_size'' de_u64) (\<lambda>ma.
     res_bind (opt es ''confidence_floor'' de_f64) (\<lambda>cf.
     res_bind (opt es ''recursion_depth'' de_u8) (\<lambda>rd.
     Inr \<lparr>deadline = dl, budget_of = bu, hop_limit = hl, policy_domain = pd,
          bounds_authority = au, max_artifact_size = ma, confidence_floor = cf,
          recursion_depth = rd\<rparr>)))))))))"

definition bounds_count :: "bounds \<Rightarrow> nat" where
  "bounds_count b =
     length (filter id
       [deadline b \<noteq> None, budget_of b \<noteq> None, hop_limit b \<noteq> None, policy_domain b \<noteq> None,
        bounds_authority b \<noteq> None, max_artifact_size b \<noteq> None, confidence_floor b \<noteq> None,
        recursion_depth b \<noteq> None])"

definition validate_bounds :: "bounds \<Rightarrow> envelope_decode_error + unit" where
  "validate_bounds b =
     (if bounds_count b < 2 then Inl (InsufficientBounds (bounds_count b))
      else (case confidence_floor b of
          Some cf \<Rightarrow>
            if \<not> (0 \<le> cf \<and> cf \<le> 1) then Inl (BodyValidation (ConfidenceOutOfRange cf)) else Inr ()
        | None \<Rightarrow> Inr ()))"

subsection \<open>Bodies\<close>

record request_body =
  rq_scope :: json
  rq_bounds :: bounds
  rq_summary :: "string option"

record commit_body =
  cm_scope :: json
  cm_scope_subset :: "bool option"
  cm_bounds :: bounds
  cm_accepted_policies :: "string list"
  cm_delegation_permissions :: "json option"
  cm_reporting_obligations :: "json option"
  cm_terminal_condition :: json
  cm_conditions :: "json list option"
  cm_summary :: "string option"

record artifact =
  art_id :: string
  media_type :: string
  art_size :: nat

datatype error_category =
  CatMalformed | CatUnauthorized | CatUnsupportedVersion | CatTimeout | CatInternal | CatOther

definition category_wire :: "(string \<times> error_category) list" where
  "category_wire =
     [(''malformed'', CatMalformed), (''unauthorized'', CatUnauthorized),
      (''unsupported_version'', CatUnsupportedVersion), (''timeout'', CatTimeout),
      (''internal'', CatInternal), (''other'', CatOther)]"

record error_detail =
  category :: error_category
  ed_message :: string
  diagnostic :: "json option"

record deliver_body =
  interim :: bool
  artifacts :: "artifact list option"
  dl_result :: "json option"
  usage_metrics :: "json option"
  error_detail_of :: "error_detail option"
  provenance :: "json option"
  dl_summary :: "string option"

datatype ack_disposition =
  AckAccepted | AckRejected | AckReceived | AckCompleted | AckFailed | AckCancelled

definition ack_wire :: "(string \<times> ack_disposition) list" where
  "ack_wire =
     [(''accepted'', AckAccepted), (''rejected'', AckRejected), (''received'', AckReceived),
      (''completed'', AckCompleted), (''failed'', AckFailed), (''cancelled'', AckCancelled)]"

record ack_body =
  disposition :: ack_disposition
  ack_reason :: "string option"

datatype control_action = Cancel
datatype control_target = CtTask
datatype control_disposition = CdAccepted | CdRejected

definition action_wire :: "(string \<times> control_action) list" where
  "action_wire = [(''cancel'', Cancel)]"

definition target_wire :: "(string \<times> control_target) list" where
  "target_wire = [(''task'', CtTask)]"

definition control_disposition_wire :: "(string \<times> control_disposition) list" where
  "control_disposition_wire = [(''accepted'', CdAccepted), (''rejected'', CdRejected)]"

record control_body =
  ct_target :: control_target
  ct_action :: control_action
  ct_disposition :: "control_disposition option"
  ct_reason :: "string option"
  affected_ids :: "string list option"

record audit_log_body =
  event :: string
  subject :: "string option"
  details :: "json option"

definition de_request_body :: "request_body de" where
  "de_request_body v =
     res_bind (de_struct [req_field ''scope'' de_value, req_field ''bounds'' de_bounds,
                          opt_field ''natural_language_summary'' de_string] v) (\<lambda>es.
     res_bind (req es ''scope'' de_value) (\<lambda>sc.
     res_bind (req es ''bounds'' de_bounds) (\<lambda>bo.
     res_bind (opt es ''natural_language_summary'' de_string) (\<lambda>su.
     Inr \<lparr>rq_scope = sc, rq_bounds = bo, rq_summary = su\<rparr>))))"

definition commit_fields :: "field list" where
  "commit_fields =
     [req_field ''scope'' de_value, opt_field ''scope_subset'' de_bool,
      req_field ''bounds'' de_bounds, req_field ''accepted_policies'' (de_vec de_string),
      opt_field ''delegation_permissions'' de_value, opt_field ''reporting_obligations'' de_value,
      req_field ''terminal_condition'' de_value, opt_field ''conditions'' (de_vec de_value),
      opt_field ''natural_language_summary'' de_string]"

definition de_commit_body :: "commit_body de" where
  "de_commit_body v =
     res_bind (de_struct commit_fields v) (\<lambda>es.
     res_bind (req es ''scope'' de_value) (\<lambda>sc.
     res_bind (opt es ''scope_subset'' de_bool) (\<lambda>ss.
     res_bind (req es ''bounds'' de_bounds) (\<lambda>bo.
     res_bind (req es ''accepted_policies'' (de_vec de_string)) (\<lambda>ap.
     res_bind (opt es ''delegation_permissions'' de_value) (\<lambda>dp.
     res_bind (opt es ''reporting_obligations'' de_value) (\<lambda>ro.
     res_bind (req es ''terminal_condition'' de_value) (\<lambda>tc.
     res_bind (opt es ''conditions'' (de_vec de_value)) (\<lambda>co.
     res_bind (opt es ''natural_language_summary'' de_string) (\<lambda>su.
     Inr \<lparr>cm_scope = sc, cm_scope_subset = ss, cm_bounds = bo, cm_accepted_policies = ap,
          cm_delegation_permissions = dp, cm_reporting_obligations = ro,
          cm_terminal_condition = tc, cm_conditions = co, cm_summary = su\<rparr>))))))))))"

definition de_artifact :: "artifact de" where
  "de_artifact v =
     res_bind (de_struct [req_field ''id'' de_artifact_id, req_field ''media_type'' de_string,
                          req_field ''size'' de_u64] v) (\<lambda>es.
     res_bind (req es ''id'' de_artifact_id) (\<lambda>i.
     res_bind (req es ''media_type'' de_string) (\<lambda>m.
     res_bind (req es ''size'' de_u64) (\<lambda>s.
     Inr \<lparr>art_id = i, media_type = m, art_size = s\<rparr>))))"

definition de_error_detail :: "error_detail de" where
  "de_error_detail v =
     res_bind (de_struct [req_field ''category'' (de_enum category_wire),
                          req_field ''message'' de_string,
                          opt_field ''diagnostic'' de_value] v) (\<lambda>es.
     res_bind (req es ''category'' (de_enum category_wire)) (\<lambda>c.
     res_bind (req es ''message'' de_string) (\<lambda>m.
     res_bind (opt es ''diagnostic'' de_value) (\<lambda>d.
     Inr \<lparr>category = c, ed_message = m, diagnostic = d\<rparr>))))"

definition deliver_fields :: "field list" where
  "deliver_fields =
     [req_field ''interim'' de_bool, opt_field ''artifacts'' (de_vec de_artifact),
      opt_field ''result'' de_value, opt_field ''usage_metrics'' de_value,
      opt_field ''error_detail'' de_error_detail, opt_field ''provenance'' de_value,
      opt_field ''natural_language_summary'' de_string]"

definition de_deliver_body :: "deliver_body de" where
  "de_deliver_body v =
     res_bind (de_struct deliver_fields v) (\<lambda>es.
     res_bind (req es ''interim'' de_bool) (\<lambda>i.
     res_bind (opt es ''artifacts'' (de_vec de_artifact)) (\<lambda>ar.
     res_bind (opt es ''result'' de_value) (\<lambda>re.
     res_bind (opt es ''usage_metrics'' de_value) (\<lambda>um.
     res_bind (opt es ''error_detail'' de_error_detail) (\<lambda>ed.
     res_bind (opt es ''provenance'' de_value) (\<lambda>pr.
     res_bind (opt es ''natural_language_summary'' de_string) (\<lambda>su.
     Inr \<lparr>interim = i, artifacts = ar, dl_result = re, usage_metrics = um,
          error_detail_of = ed, provenance = pr, dl_summary = su\<rparr>))))))))"

definition de_ack_body :: "ack_body de" where
  "de_ack_body v =
     res_bind (de_struct [req_field ''disposition'' (de_enum ack_wire),
                          opt_field ''reason'' de_string] v) (\<lambda>es.
     res_bind (req es ''disposition'' (de_enum ack_wire)) (\<lambda>d.
     res_bind (opt es ''reason'' de_string) (\<lambda>r.
     Inr \<lparr>disposition = d, ack_reason = r\<rparr>)))"

definition control_fields :: "field list" where
  "control_fields =
     [req_field ''target'' (de_enum target_wire), req_field ''action'' (de_enum action_wire),
      opt_field ''disposition'' (de_enum control_disposition_wire),
      opt_field ''reason'' de_string, opt_field ''affected_ids'' (de_vec de_string)]"

definition de_control_body :: "control_body de" where
  "de_control_body v =
     res_bind (de_struct control_fields v) (\<lambda>es.
     res_bind (req es ''target'' (de_enum target_wire)) (\<lambda>t.
     res_bind (req es ''action'' (de_enum action_wire)) (\<lambda>a.
     res_bind (opt es ''disposition'' (de_enum control_disposition_wire)) (\<lambda>d.
     res_bind (opt es ''reason'' de_string) (\<lambda>r.
     res_bind (opt es ''affected_ids'' (de_vec de_string)) (\<lambda>ai.
     Inr \<lparr>ct_target = t, ct_action = a, ct_disposition = d, ct_reason = r,
          affected_ids = ai\<rparr>))))))"

definition de_audit_log_body :: "audit_log_body de" where
  "de_audit_log_body v =
     res_bind (de_struct [req_field ''event'' de_string, opt_field ''subject'' de_string,
                          opt_field ''details'' de_value] v) (\<lambda>es.
     res_bind (req es ''event'' de_string) (\<lambda>e.
     res_bind (opt es ''subject'' de_string) (\<lambda>s.
     res_bind (opt es ''details'' de_value) (\<lambda>d.
     Inr \<lparr>event = e, subject = s, details = d\<rparr>))))"

subsection \<open>Serializers\<close>

definition ser_uint :: "nat \<Rightarrow> json" where "ser_uint n = JNum (PosInt n)"

definition ser_f64 :: "rat \<Rightarrow> json" where "ser_f64 r = JNum (Float r)"

definition ser_vec :: "('a \<Rightarrow> json) \<Rightarrow> 'a list \<Rightarrow> json" where "ser_vec f xs = JArr (map f xs)"

definition ser_message_id :: "ext_lib \<Rightarrow> uuid \<Rightarrow> json" where
  "ser_message_id lib i = JStr (uuid_show lib i)"

definition ser_principal :: "principal \<Rightarrow> json" where
  "ser_principal p = JStr (principal_display p)"

definition ser_causality :: "ext_lib \<Rightarrow> causality \<Rightarrow> json" where
  "ser_causality lib c =
     ser_struct [(''rel'', Some (ser_enum relation_wire (rel c))),
                 (''ref'', Some (ser_message_id lib (referenced c)))]"

definition ser_budget :: "budget \<Rightarrow> json" where
  "ser_budget b = ser_struct [(''amount'', Some (JStr (amount b))), (''unit'', Some (JStr (unit_of b)))]"

definition ser_bounds :: "bounds \<Rightarrow> json" where
  "ser_bounds b =
     ser_struct
       [(''deadline'', map_option JStr (deadline b)),
        (''budget'', map_option ser_budget (budget_of b)),
        (''hop_limit'', map_option ser_uint (hop_limit b)),
        (''policy_domain'', map_option JStr (policy_domain b)),
        (''authority_scope'', map_option (ser_enum authority_wire) (bounds_authority b)),
        (''max_artifact_size'', map_option ser_uint (max_artifact_size b)),
        (''confidence_floor'', map_option ser_f64 (confidence_floor b)),
        (''recursion_depth'', map_option ser_uint (recursion_depth b))]"

definition ser_request_body :: "request_body \<Rightarrow> json" where
  "ser_request_body b =
     ser_struct
       [(''scope'', Some (rq_scope b)), (''bounds'', Some (ser_bounds (rq_bounds b))),
        (''natural_language_summary'', map_option JStr (rq_summary b))]"

definition ser_commit_body :: "commit_body \<Rightarrow> json" where
  "ser_commit_body b =
     ser_struct
       [(''scope'', Some (cm_scope b)),
        (''scope_subset'', map_option JBool (cm_scope_subset b)),
        (''bounds'', Some (ser_bounds (cm_bounds b))),
        (''accepted_policies'', Some (ser_vec JStr (cm_accepted_policies b))),
        (''delegation_permissions'', map_option (\<lambda>v. v) (cm_delegation_permissions b)),
        (''reporting_obligations'', map_option (\<lambda>v. v) (cm_reporting_obligations b)),
        (''terminal_condition'', Some (cm_terminal_condition b)),
        (''conditions'', map_option (ser_vec (\<lambda>v. v)) (cm_conditions b)),
        (''natural_language_summary'', map_option JStr (cm_summary b))]"

definition ser_artifact :: "artifact \<Rightarrow> json" where
  "ser_artifact a =
     ser_struct
       [(''id'', Some (JStr (art_id a))), (''media_type'', Some (JStr (media_type a))),
        (''size'', Some (ser_uint (art_size a)))]"

definition ser_error_detail :: "error_detail \<Rightarrow> json" where
  "ser_error_detail e =
     ser_struct
       [(''category'', Some (ser_enum category_wire (category e))),
        (''message'', Some (JStr (ed_message e))),
        (''diagnostic'', map_option (\<lambda>v. v) (diagnostic e))]"

definition ser_deliver_body :: "deliver_body \<Rightarrow> json" where
  "ser_deliver_body b =
     ser_struct
       [(''interim'', Some (JBool (interim b))),
        (''artifacts'', map_option (ser_vec ser_artifact) (artifacts b)),
        (''result'', map_option (\<lambda>v. v) (dl_result b)),
        (''usage_metrics'', map_option (\<lambda>v. v) (usage_metrics b)),
        (''error_detail'', map_option ser_error_detail (error_detail_of b)),
        (''provenance'', map_option (\<lambda>v. v) (provenance b)),
        (''natural_language_summary'', map_option JStr (dl_summary b))]"

definition ser_ack_body :: "ack_body \<Rightarrow> json" where
  "ser_ack_body b =
     ser_struct
       [(''disposition'', Some (ser_enum ack_wire (disposition b))),
        (''reason'', map_option JStr (ack_reason b))]"

definition ser_control_body :: "control_body \<Rightarrow> json" where
  "ser_control_body b =
     ser_struct
       [(''target'', Some (ser_enum target_wire (ct_target b))),
        (''action'', Some (ser_enum action_wire (ct_action b))),
        (''disposition'', map_option (ser_enum control_disposition_wire) (ct_disposition b)),
        (''reason'', map_option JStr (ct_reason b)),
        (''affected_ids'', map_option (ser_vec JStr) (affected_ids b))]"

definition ser_audit_log_body :: "audit_log_body \<Rightarrow> json" where
  "ser_audit_log_body b =
     ser_struct
       [(''event'', Some (JStr (event b))), (''subject'', map_option JStr (subject b)),
        (''details'', map_option (\<lambda>v. v) (details b))]"

subsection \<open>Cross-field validation and the body interface\<close>

definition validate_against_terminal_status ::
  "deliver_body \<Rightarrow> terminal_status option \<Rightarrow> envelope_decode_error + unit" where
  "validate_against_terminal_status b ts =
     (case (interim b, ts) of
        (True, Some _) \<Rightarrow> Inl InterimWithTerminalStatus
      | (False, None) \<Rightarrow> Inl TerminalWithoutStatus
      | (False, Some s) \<Rightarrow>
          if s = TsFailed \<and> error_detail_of b = None then Inl MissingErrorDetail
          else if provenance b = None then Inl MissingProvenance
          else Inr ()
      | (True, None) \<Rightarrow> Inr ())"

definition validate_audit_log :: "audit_log_body \<Rightarrow> envelope_decode_error + unit" where
  "validate_audit_log b = (if event b = [] then Inl (BodyValidation EventEmpty) else Inr ())"

text \<open>The trait \<open>BodySchema\<close>: a body's class and scope, its serializer, deserializer and validation hook.\<close>

record 'b body_schema =
  CLASS :: message_class
  SCOPE :: envelope_scope
  ser_body :: "'b \<Rightarrow> json"
  de_body :: "'b de"
  post_decode_validate :: "'b \<Rightarrow> terminal_status option \<Rightarrow> envelope_decode_error + unit"

definition request_schema :: "request_body body_schema" where
  "request_schema =
     \<lparr>CLASS = Request, SCOPE = ScStandalone, ser_body = ser_request_body,
      de_body = de_request_body,
      post_decode_validate = (\<lambda>b _. validate_bounds (rq_bounds b))\<rparr>"

definition commit_schema :: "commit_body body_schema" where
  "commit_schema =
     \<lparr>CLASS = Commit, SCOPE = ScTask, ser_body = ser_commit_body,
      de_body = de_commit_body,
      post_decode_validate = (\<lambda>b _. validate_bounds (cm_bounds b))\<rparr>"

definition deliver_schema :: "deliver_body body_schema" where
  "deliver_schema =
     \<lparr>CLASS = Deliver, SCOPE = ScTask, ser_body = ser_deliver_body,
      de_body = de_deliver_body,
      post_decode_validate = validate_against_terminal_status\<rparr>"

definition ack_schema :: "ack_body body_schema" where
  "ack_schema =
     \<lparr>CLASS = Ack, SCOPE = ScStandalone, ser_body = ser_ack_body,
      de_body = de_ack_body,
      post_decode_validate = (\<lambda>_ _. Inr ())\<rparr>"

definition control_schema :: "control_body body_schema" where
  "control_schema =
     \<lparr>CLASS = Control, SCOPE = ScTask, ser_body = ser_control_body,
      de_body = de_control_body,
      post_decode_validate = (\<lambda>_ _. Inr ())\<rparr>"

definition audit_log_schema :: "audit_log_body body_schema" where
  "audit_log_schema =
     \<lparr>CLASS = AuditLog, SCOPE = ScStandalone, ser_body = ser_audit_log_body,
      de_body = de_audit_log_body,
      post_decode_validate = (\<lambda>b _. validate_audit_log b)\<rparr>"

subsection \<open>What survives the wire\<close>

text \<open>
  The values a Rust program can hold and the wire can tell apart: integers within their width,
  validated artifact ids, and no \<open>Some(Value::Null)\<close> in an optional field, which would be read back
  as absent.
\<close>

definition not_null :: "json option \<Rightarrow> bool" where "not_null v \<longleftrightarrow> v \<noteq> Some JNull"

definition bounds_ok :: "bounds \<Rightarrow> bool" where
  "bounds_ok b \<longleftrightarrow>
     pred_option (\<lambda>n. n < 2 ^ 64) (hop_limit b) \<and> pred_option (\<lambda>n. n < 2 ^ 64) (max_artifact_size b) \<and>
     pred_option (\<lambda>n. n < 256) (recursion_depth b)"

definition artifact_ok :: "artifact \<Rightarrow> bool" where
  "artifact_ok a \<longleftrightarrow> artifact_id_from_str (art_id a) = Inr (art_id a) \<and> art_size a < 2 ^ 64"

definition request_ok :: "request_body \<Rightarrow> bool" where
  "request_ok b \<longleftrightarrow> bounds_ok (rq_bounds b)"

definition commit_ok :: "commit_body \<Rightarrow> bool" where
  "commit_ok b \<longleftrightarrow>
     bounds_ok (cm_bounds b) \<and> not_null (cm_delegation_permissions b) \<and>
     not_null (cm_reporting_obligations b)"

definition deliver_ok :: "deliver_body \<Rightarrow> bool" where
  "deliver_ok b \<longleftrightarrow>
     pred_option (list_all artifact_ok) (artifacts b) \<and> not_null (dl_result b) \<and>
     not_null (usage_metrics b) \<and> not_null (provenance b) \<and>
     pred_option (\<lambda>e. not_null (diagnostic e)) (error_detail_of b)"

definition audit_log_ok :: "audit_log_body \<Rightarrow> bool" where
  "audit_log_ok b \<longleftrightarrow> not_null (details b)"

lemma ser_struct_not_null [simp]: "ser_struct vs \<noteq> JNull"
  by (simp add: ser_struct_def)

lemma survives_opt_value: "not_null v \<Longrightarrow> survives_opt de_value (\<lambda>v. v) v"
  by (auto simp: survives_opt_def not_null_def)

lemma survives_opt_string: "survives_opt de_string JStr s"
  and survives_opt_bool: "survives_opt de_bool JBool b"
  by (auto simp: survives_opt_def)

lemma survives_opt_enum:
  "distinct (map fst tbl) \<Longrightarrow> UNIV \<subseteq> snd ` set tbl \<Longrightarrow> survives_opt (de_enum tbl) (ser_enum tbl) x"
  by (rule survives_opt_of) (auto intro!: survives_enum simp: ser_enum_def)

lemma survives_opt_vec:
  "pred_option (list_all (survives d f)) x \<Longrightarrow> survives_opt (de_vec d) (ser_vec f) x"
  using survives_vec [of _ d f]
  by (cases x) (auto simp: survives_opt_def ser_vec_def list_all_iff survives_def [of "de_vec d"])

lemma survives_uint: "n < 2 ^ 64 \<Longrightarrow> survives de_u64 ser_uint n" "n < 256 \<Longrightarrow> survives de_u8 ser_uint n"
  by (auto simp: survives_def de_u64_def de_u8_def ser_uint_def)

lemma survives_opt_uint:
  "pred_option (\<lambda>n. n < 2 ^ 64) x \<Longrightarrow> survives_opt de_u64 ser_uint x"
  "pred_option (\<lambda>n. n < 256) x \<Longrightarrow> survives_opt de_u8 ser_uint x"
  using survives_uint by (auto intro!: survives_opt_of simp: ser_uint_def)

lemma survives_opt_f64: "survives_opt de_f64 ser_f64 x"
  by (auto simp: survives_opt_def ser_f64_def)

lemma wire_tables_total:
  "UNIV \<subseteq> snd ` set relation_wire" "UNIV \<subseteq> snd ` set ack_wire" "UNIV \<subseteq> snd ` set category_wire"
  "UNIV \<subseteq> snd ` set action_wire" "UNIV \<subseteq> snd ` set target_wire"
  "UNIV \<subseteq> snd ` set control_disposition_wire" "UNIV \<subseteq> snd ` set authority_wire"
  "UNIV \<subseteq> snd ` set scope_wire" "UNIV \<subseteq> snd ` set class_wire" "UNIV \<subseteq> snd ` set terminal_wire"
proof -
  show "UNIV \<subseteq> snd ` set relation_wire"
    by (auto simp: relation_wire_def intro: relation.exhaust)
  show "UNIV \<subseteq> snd ` set ack_wire" by (auto simp: ack_wire_def intro: ack_disposition.exhaust)
  show "UNIV \<subseteq> snd ` set category_wire" by (auto simp: category_wire_def intro: error_category.exhaust)
  show "UNIV \<subseteq> snd ` set action_wire" by (auto simp: action_wire_def intro: control_action.exhaust)
  show "UNIV \<subseteq> snd ` set target_wire" by (auto simp: target_wire_def intro: control_target.exhaust)
  show "UNIV \<subseteq> snd ` set control_disposition_wire"
    by (auto simp: control_disposition_wire_def intro: control_disposition.exhaust)
  show "UNIV \<subseteq> snd ` set authority_wire"
    by (auto simp: authority_wire_def intro: authority_scope.exhaust)
  show "UNIV \<subseteq> snd ` set scope_wire" by (auto simp: scope_wire_def intro: envelope_scope.exhaust)
  show "UNIV \<subseteq> snd ` set class_wire" by (auto simp: class_wire_def intro: message_class.exhaust)
  show "UNIV \<subseteq> snd ` set terminal_wire" by (auto simp: terminal_wire_def intro: terminal_status.exhaust)
qed

lemma wire_tables_distinct:
  "distinct (map fst relation_wire)" "distinct (map fst ack_wire)" "distinct (map fst category_wire)"
  "distinct (map fst action_wire)" "distinct (map fst target_wire)"
  "distinct (map fst control_disposition_wire)" "distinct (map fst authority_wire)"
  "distinct (map fst scope_wire)" "distinct (map fst class_wire)" "distinct (map fst terminal_wire)"
  by (simp_all add: relation_wire_def ack_wire_def category_wire_def action_wire_def target_wire_def
      control_disposition_wire_def authority_wire_def scope_wire_def class_wire_def terminal_wire_def)

lemma survives_wire_enum:
  "distinct (map fst tbl) \<Longrightarrow> UNIV \<subseteq> snd ` set tbl \<Longrightarrow> survives (de_enum tbl) (ser_enum tbl) x"
  by (rule survives_enum) auto

lemmas survives_enums =
  survives_wire_enum [OF wire_tables_distinct(1) wire_tables_total(1)]
  survives_wire_enum [OF wire_tables_distinct(2) wire_tables_total(2)]
  survives_wire_enum [OF wire_tables_distinct(3) wire_tables_total(3)]
  survives_wire_enum [OF wire_tables_distinct(4) wire_tables_total(4)]
  survives_wire_enum [OF wire_tables_distinct(5) wire_tables_total(5)]
  survives_wire_enum [OF wire_tables_distinct(7) wire_tables_total(7)]
  survives_wire_enum [OF wire_tables_distinct(8) wire_tables_total(8)]
  survives_wire_enum [OF wire_tables_distinct(9) wire_tables_total(9)]

lemmas survives_opt_enums =
  survives_opt_enum [OF wire_tables_distinct(6) wire_tables_total(6)]
  survives_opt_enum [OF wire_tables_distinct(7) wire_tables_total(7)]
  survives_opt_enum [OF wire_tables_distinct(10) wire_tables_total(10)]

text \<open>Reading a field back out of a written struct, in the forms the simplifier meets.\<close>

lemma opt_case_survives:
  "survives_opt d f x \<Longrightarrow> (case x of None \<Rightarrow> Inr None | Some y \<Rightarrow> (de_option d \<circ> f) y) = Inr x"
  by (cases x) (auto simp: survives_opt_def de_option_not_null)

lemmas struct_match = fields_match_req fields_match_opt
lemmas struct_read = req_def opt_def opt_case_survives
lemmas struct_survives =
  struct_match struct_read survives_enums [unfolded survives_def] survives_opt_enums
  survives_opt_string survives_opt_bool survives_opt_uint survives_opt_f64 survives_opt_value

lemma survives_causality:
  assumes "survives (de_message_id lib) (ser_message_id lib) (referenced c)"
  shows "survives (de_causality lib) (ser_causality lib) c"
  unfolding survives_def de_causality_def ser_causality_def
  by (rule de_struct_serI) (use assms in \<open>simp_all add: struct_survives survives_def\<close>)

lemma survives_budget: "survives de_budget ser_budget b"
  unfolding survives_def de_budget_def ser_budget_def
  by (rule de_struct_serI) (simp_all add: struct_survives)

lemma survives_bounds: "bounds_ok b \<Longrightarrow> survives de_bounds ser_bounds b"
proof -
  assume ok: "bounds_ok b"
  have bu: "survives_opt de_budget ser_budget (budget_of b)"
    by (rule survives_opt_of) (simp_all add: survives_budget, simp add: ser_budget_def)
  show ?thesis
    unfolding survives_def de_bounds_def ser_bounds_def bounds_fields_def
    by (rule de_struct_serI) (use ok bu in \<open>simp_all add: struct_survives bounds_ok_def\<close>)
qed

lemma survives_artifact: "artifact_ok a \<Longrightarrow> survives de_artifact ser_artifact a"
  unfolding survives_def de_artifact_def ser_artifact_def
  by (rule de_struct_serI)
    (simp_all add: struct_survives survives_uint [unfolded survives_def] artifact_ok_def
      de_artifact_id_def de_parsed_def ok_opt_def)

lemma survives_error_detail: "not_null (diagnostic e) \<Longrightarrow> survives de_error_detail ser_error_detail e"
  unfolding survives_def de_error_detail_def ser_error_detail_def
  by (rule de_struct_serI) (simp_all add: struct_survives)

lemma survives_request: "request_ok b \<Longrightarrow> survives de_request_body ser_request_body b"
  using survives_bounds [of "rq_bounds b"]
  unfolding survives_def de_request_body_def ser_request_body_def request_ok_def
  by (intro de_struct_serI) (simp_all add: struct_survives)

lemma survives_commit: "commit_ok b \<Longrightarrow> survives de_commit_body ser_commit_body b"
proof -
  assume ok: "commit_ok b"
  have p: "de_vec de_string (ser_vec JStr (cm_accepted_policies b)) = Inr (cm_accepted_policies b)"
    using survives_vec [OF survives_string] by (simp add: survives_def ser_vec_def)
  have c: "survives_opt (de_vec de_value) (ser_vec (\<lambda>v. v)) (cm_conditions b)"
    by (rule survives_opt_vec) (simp add: survives_def option.pred_set list_all_iff)
  show ?thesis
    using survives_bounds [of "cm_bounds b"] ok p c
    unfolding survives_def de_commit_body_def ser_commit_body_def commit_ok_def commit_fields_def
    by (intro de_struct_serI) (simp_all add: struct_survives)
qed

lemma survives_deliver: "deliver_ok b \<Longrightarrow> survives de_deliver_body ser_deliver_body b"
proof -
  assume ok: "deliver_ok b"
  have a: "survives_opt (de_vec de_artifact) (ser_vec ser_artifact) (artifacts b)"
    using ok by (intro survives_opt_vec) (auto simp: deliver_ok_def option.pred_set list_all_iff survives_artifact)
  have e: "survives_opt de_error_detail ser_error_detail (error_detail_of b)"
    using ok by (intro survives_opt_of) (auto simp: deliver_ok_def survives_error_detail ser_error_detail_def)
  show ?thesis
    using ok a e
    unfolding survives_def de_deliver_body_def ser_deliver_body_def deliver_ok_def deliver_fields_def
    by (intro de_struct_serI) (simp_all add: struct_survives)
qed

lemma survives_ack: "survives de_ack_body ser_ack_body b"
  unfolding survives_def de_ack_body_def ser_ack_body_def
  by (rule de_struct_serI) (simp_all add: struct_survives)

lemma survives_control: "survives de_control_body ser_control_body b"
proof -
  have a: "survives_opt (de_vec de_string) (ser_vec JStr) (affected_ids b)"
    by (rule survives_opt_vec) (simp add: survives_def option.pred_set list_all_iff)
  show ?thesis
    using a unfolding survives_def de_control_body_def ser_control_body_def control_fields_def
    by (intro de_struct_serI) (simp_all add: struct_survives)
qed

lemma survives_audit_log: "audit_log_ok b \<Longrightarrow> survives de_audit_log_body ser_audit_log_body b"
  unfolding survives_def de_audit_log_body_def ser_audit_log_body_def audit_log_ok_def
  by (intro de_struct_serI) (simp_all add: struct_survives)

end
