(* ===== verification/Envelope.thy ===== *)
theory Envelope
  imports Bodies
begin

text \<open>
  The wire envelope of \<open>famp-envelope\<close> with the serializer and deserializer serde derives for it,
  and the bus envelope: \<open>BusEnvelope::decode\<close> and \<open>AnyBusEnvelope::decode\<close>.
\<close>

subsection \<open>The wire envelope\<close>

record 'b wire_envelope =
  w_famp :: string
  w_id :: uuid
  w_from :: principal
  w_to :: principal
  w_scope :: envelope_scope
  w_class :: message_class
  w_causality :: "causality option"
  w_authority :: authority_scope
  w_ts :: string
  w_terminal_status :: "terminal_status option"
  w_idempotency_key :: "string option"
  w_extensions :: "(string \<times> json) list option"
  w_from_domain :: "string option"
  w_to_domain :: "string option"
  w_sender_key_id :: "string option"
  w_nonce :: "string option"
  w_expiry :: "string option"
  w_capability :: "json option"
  w_approval :: "json option"
  w_body :: 'b

definition wire_fields :: "ext_lib \<Rightarrow> 'b de \<Rightarrow> field list" where
  "wire_fields lib d =
     [req_field ''famp'' de_string, req_field ''id'' (de_message_id lib),
      req_field ''from'' de_principal, req_field ''to'' de_principal,
      req_field ''scope'' (de_enum scope_wire), req_field ''class'' (de_enum class_wire),
      opt_field ''causality'' (de_causality lib),
      req_field ''authority'' (de_enum authority_wire), req_field ''ts'' de_timestamp,
      opt_field ''terminal_status'' (de_enum terminal_wire),
      opt_field ''idempotency_key'' de_string, opt_field ''extensions'' de_map,
      opt_field ''from_domain'' de_string, opt_field ''to_domain'' de_string,
      opt_field ''sender_key_id'' de_string, opt_field ''nonce'' de_string,
      opt_field ''expiry'' de_timestamp, opt_field ''capability'' de_value,
      opt_field ''approval'' de_value, req_field ''body'' d]"

definition de_wire :: "ext_lib \<Rightarrow> 'b de \<Rightarrow> 'b wire_envelope de" where
  "de_wire lib d v =
     res_bind (de_struct (wire_fields lib d) v) (\<lambda>es.
     res_bind (req es ''famp'' de_string) (\<lambda>famp.
     res_bind (req es ''id'' (de_message_id lib)) (\<lambda>i.
     res_bind (req es ''from'' de_principal) (\<lambda>from.
     res_bind (req es ''to'' de_principal) (\<lambda>to.
     res_bind (req es ''scope'' (de_enum scope_wire)) (\<lambda>sc.
     res_bind (req es ''class'' (de_enum class_wire)) (\<lambda>cl.
     res_bind (opt es ''causality'' (de_causality lib)) (\<lambda>ca.
     res_bind (req es ''authority'' (de_enum authority_wire)) (\<lambda>au.
     res_bind (req es ''ts'' de_timestamp) (\<lambda>ts.
     res_bind (opt es ''terminal_status'' (de_enum terminal_wire)) (\<lambda>st.
     res_bind (opt es ''idempotency_key'' de_string) (\<lambda>ik.
     res_bind (opt es ''extensions'' de_map) (\<lambda>ex.
     res_bind (opt es ''from_domain'' de_string) (\<lambda>fd.
     res_bind (opt es ''to_domain'' de_string) (\<lambda>td.
     res_bind (opt es ''sender_key_id'' de_string) (\<lambda>sk.
     res_bind (opt es ''nonce'' de_string) (\<lambda>no.
     res_bind (opt es ''expiry'' de_timestamp) (\<lambda>ep.
     res_bind (opt es ''capability'' de_value) (\<lambda>cp.
     res_bind (opt es ''approval'' de_value) (\<lambda>ap.
     res_bind (req es ''body'' d) (\<lambda>bo.
     Inr \<lparr>w_famp = famp, w_id = i, w_from = from, w_to = to, w_scope = sc, w_class = cl,
          w_causality = ca, w_authority = au, w_ts = ts, w_terminal_status = st,
          w_idempotency_key = ik, w_extensions = ex, w_from_domain = fd, w_to_domain = td,
          w_sender_key_id = sk, w_nonce = no, w_expiry = ep, w_capability = cp,
          w_approval = ap, w_body = bo\<rparr>)))))))))))))))))))))"

text \<open>\<open>WireEnvelopeRef\<close>: the envelope as the value that is signed and written.\<close>

definition ser_wire :: "ext_lib \<Rightarrow> ('b \<Rightarrow> json) \<Rightarrow> 'b wire_envelope \<Rightarrow> json" where
  "ser_wire lib sb e =
     ser_struct
       [(''famp'', Some (JStr (w_famp e))),
        (''id'', Some (ser_message_id lib (w_id e))),
        (''from'', Some (ser_principal (w_from e))),
        (''to'', Some (ser_principal (w_to e))),
        (''scope'', Some (ser_enum scope_wire (w_scope e))),
        (''class'', Some (ser_enum class_wire (w_class e))),
        (''causality'', map_option (ser_causality lib) (w_causality e)),
        (''authority'', Some (ser_enum authority_wire (w_authority e))),
        (''ts'', Some (JStr (w_ts e))),
        (''terminal_status'', map_option (ser_enum terminal_wire) (w_terminal_status e)),
        (''idempotency_key'', map_option JStr (w_idempotency_key e)),
        (''extensions'', map_option JObj (w_extensions e)),
        (''from_domain'', map_option JStr (w_from_domain e)),
        (''to_domain'', map_option JStr (w_to_domain e)),
        (''sender_key_id'', map_option JStr (w_sender_key_id e)),
        (''nonce'', map_option JStr (w_nonce e)),
        (''expiry'', map_option JStr (w_expiry e)),
        (''capability'', map_option (\<lambda>v. v) (w_capability e)),
        (''approval'', map_option (\<lambda>v. v) (w_approval e)),
        (''body'', Some (sb (w_body e)))]"

subsection \<open>Bus envelopes\<close>

text \<open>\<open>BusEnvelope::<B>::decode\<close>, with its three checks before the typed deserialization.\<close>

definition check_famp :: "(string \<times> json) list \<Rightarrow> envelope_decode_error option" where
  "check_famp es =
     (case map_of es ''famp'' of
        Some (JStr s) \<Rightarrow> if s = FAMP_SPEC_VERSION then None else Some (UnsupportedVersion s)
      | Some _ \<Rightarrow> Some (BodyValidation FampNotString)
      | None \<Rightarrow> Some (EnvMissingField ''famp''))"

definition bus_decode ::
  "ext_lib \<Rightarrow> 'b body_schema \<Rightarrow> bytes \<Rightarrow> envelope_decode_error + 'b wire_envelope" where
  "bus_decode lib B b =
     (case parse_value lib b of
        Inl e \<Rightarrow> Inl (MalformedJson e)
      | Inr v \<Rightarrow>
          (case as_object v of
             None \<Rightarrow> Inl (BodyValidation RootNotObject)
           | Some es \<Rightarrow>
               if map_of es ''signature'' \<noteq> None then Inl UnexpectedSignature
               else (case check_famp es of
                   Some e \<Rightarrow> Inl e
                 | None \<Rightarrow>
                     (case de_wire lib (de_body B) v of
                        Inl e \<Rightarrow> Inl (BodyValidation (SerdeFailure e))
                      | Inr w \<Rightarrow>
                          if w_class w \<noteq> CLASS B then Inl (ClassMismatch (CLASS B) (w_class w))
                          else if w_scope w \<noteq> SCOPE B
                          then Inl (ScopeMismatch (CLASS B) (SCOPE B) (w_scope w))
                          else res_bind
                              (post_decode_validate B (w_body w) (w_terminal_status w))
                              (\<lambda>_. Inr w)))))"

datatype any_bus_envelope =
    BusRequest "request_body wire_envelope"
  | BusCommit "commit_body wire_envelope"
  | BusDeliver "deliver_body wire_envelope"
  | BusAck "ack_body wire_envelope"
  | BusControl "control_body wire_envelope"
  | BusAuditLog "audit_log_body wire_envelope"

fun bus_class :: "any_bus_envelope \<Rightarrow> message_class" where
  "bus_class (BusRequest e) = w_class e"
| "bus_class (BusCommit e) = w_class e"
| "bus_class (BusDeliver e) = w_class e"
| "bus_class (BusAck e) = w_class e"
| "bus_class (BusControl e) = w_class e"
| "bus_class (BusAuditLog e) = w_class e"

definition any_bus_decode :: "ext_lib \<Rightarrow> bytes \<Rightarrow> envelope_decode_error + any_bus_envelope" where
  "any_bus_decode lib b =
     (case parse_value lib b of
        Inl e \<Rightarrow> Inl (MalformedJson e)
      | Inr v \<Rightarrow>
          (case jget_str v ''class'' of
             None \<Rightarrow> Inl (EnvMissingField ''class'')
           | Some c \<Rightarrow>
               if c = ''request'' then map_sum id BusRequest (bus_decode lib request_schema b)
               else if c = ''commit'' then map_sum id BusCommit (bus_decode lib commit_schema b)
               else if c = ''deliver'' then map_sum id BusDeliver (bus_decode lib deliver_schema b)
               else if c = ''ack'' then map_sum id BusAck (bus_decode lib ack_schema b)
               else if c = ''control'' then map_sum id BusControl (bus_decode lib control_schema b)
               else if c = ''audit_log''
               then map_sum id BusAuditLog (bus_decode lib audit_log_schema b)
               else Inl (UnknownClass c)))"

subsection \<open>What survives the wire\<close>

text \<open>An envelope the wire can carry: valid identities and times, no explicit null in an optional value.\<close>

definition id_ok :: "ext_lib \<Rightarrow> uuid \<Rightarrow> bool" where
  "id_ok lib i \<longleftrightarrow> parse_id lib (uuid_show lib i) = Some i"

definition wire_ok :: "ext_lib \<Rightarrow> 'b wire_envelope \<Rightarrow> bool" where
  "wire_ok lib e \<longleftrightarrow>
     id_ok lib (w_id e) \<and> pred_option (\<lambda>c. id_ok lib (referenced c)) (w_causality e) \<and>
     wf_principal (w_from e) \<and> wf_principal (w_to e) \<and> shallow_validate (w_ts e) \<and>
     pred_option shallow_validate (w_expiry e) \<and> not_null (w_capability e) \<and> not_null (w_approval e)"

lemma survives_message_id: "id_ok lib i \<Longrightarrow> survives (de_message_id lib) (ser_message_id lib) i"
  by (simp add: survives_def de_message_id_def ser_message_id_def de_parsed_def id_ok_def)

lemma ok_opt_Some_iff [simp]: "ok_opt r = Some x \<longleftrightarrow> r = Inr x"
  by (cases r) (auto simp: ok_opt_def)

lemma de_principal_Inr_iff:
  "de_principal v = Inr p \<longleftrightarrow> v = JStr (principal_display p) \<and> wf_principal p"
  by (cases v)
    (auto simp: de_principal_def de_parsed_def principal_from_str_Inr_iff)

lemma survives_principal: "wf_principal p \<Longrightarrow> survives de_principal ser_principal p"
  by (simp add: survives_def ser_principal_def de_principal_Inr_iff)

lemma survives_timestamp: "shallow_validate t \<Longrightarrow> survives de_timestamp JStr t"
  by (simp add: survives_def de_timestamp_def de_parsed_def)

lemma survives_wire:
  assumes "wire_ok lib e" "survives d sb (w_body e)"
  shows "survives (de_wire lib d) (ser_wire lib sb) e"
proof -
  have "survives_opt (de_causality lib) (ser_causality lib) (w_causality e)"
    using assms(1) survives_causality [OF survives_message_id]
    by (intro survives_opt_of) (auto simp: wire_ok_def ser_causality_def)
  moreover have "survives_opt de_timestamp JStr (w_expiry e)"
    using assms(1) by (intro survives_opt_of survives_timestamp) (auto simp: wire_ok_def)
  moreover have "survives_opt de_map JObj (w_extensions e)" by (simp add: survives_opt_def)
  moreover have "de_message_id lib (ser_message_id lib (w_id e)) = Inr (w_id e)"
      "de_principal (ser_principal (w_from e)) = Inr (w_from e)"
      "de_principal (ser_principal (w_to e)) = Inr (w_to e)" "de_timestamp (JStr (w_ts e)) = Inr (w_ts e)"
    using assms(1) survives_message_id survives_principal survives_timestamp
    by (auto simp: wire_ok_def survives_def)
  ultimately show ?thesis
    using assms
    unfolding survives_def de_wire_def ser_wire_def wire_fields_def wire_ok_def
    by (intro de_struct_serI) (simp_all add: struct_survives)
qed

subsection \<open>What a decoded envelope satisfies\<close>

lemma req_Inr_iff: "req es n d = Inr x \<longleftrightarrow> (\<exists>v. map_of es n = Some v \<and> d v = Inr x)"
  by (auto simp: req_def res_bind_Inr_iff)

lemma de_wire_Inr:
  assumes "de_wire lib d (JObj es) = Inr w"
  shows "set (map fst es) \<subseteq> set (map fst (wire_fields lib d))"
    and "req es ''from'' de_principal = Inr (w_from w)"
    and "req es ''to'' de_principal = Inr (w_to w)"
    and "req es ''class'' (de_enum class_wire) = Inr (w_class w)"
    and "req es ''id'' (de_message_id lib) = Inr (w_id w)"
    and "req es ''body'' d = Inr (w_body w)"
    and "opt es ''terminal_status'' (de_enum terminal_wire) = Inr (w_terminal_status w)"
proof -
  obtain r where r: "de_struct (wire_fields lib d) (JObj es) = Inr r"
    using assms unfolding de_wire_def by (cases "de_struct (wire_fields lib d) (JObj es)") auto
  have re: "r = es" using de_struct_JObj_known(1) [OF r] .
  show "set (map fst es) \<subseteq> set (map fst (wire_fields lib d))"
    by (rule de_struct_JObj_known(2) [OF r])
  note w = assms [unfolded de_wire_def r re res_bind.simps res_bind_Inr_iff]
  show "req es ''from'' de_principal = Inr (w_from w)"
    and "req es ''to'' de_principal = Inr (w_to w)"
    and "req es ''class'' (de_enum class_wire) = Inr (w_class w)"
    and "req es ''id'' (de_message_id lib) = Inr (w_id w)"
    and "req es ''body'' d = Inr (w_body w)"
    and "opt es ''terminal_status'' (de_enum terminal_wire) = Inr (w_terminal_status w)"
    using w by (elim exE conjE; clarsimp)+
qed

lemma check_famp_None_iff: "check_famp es = None \<longleftrightarrow> map_of es ''famp'' = Some (JStr FAMP_SPEC_VERSION)"
  by (auto simp: check_famp_def split: option.splits json.splits)

lemma bus_decode_InrD:
  assumes "bus_decode lib B b = Inr w"
  obtains es where "parse_value lib b = Inr (JObj es)" "map_of es ''signature'' = None"
    "map_of es ''famp'' = Some (JStr FAMP_SPEC_VERSION)" "de_wire lib (de_body B) (JObj es) = Inr w"
    "w_class w = CLASS B" "w_scope w = SCOPE B"
    "post_decode_validate B (w_body w) (w_terminal_status w) = Inr ()"
  using assms
  by (auto simp: bus_decode_def check_famp_None_iff res_bind_Inr_iff split: sum.splits option.splits if_splits)

fun bus_from :: "any_bus_envelope \<Rightarrow> principal" where
  "bus_from (BusRequest e) = w_from e"
| "bus_from (BusCommit e) = w_from e"
| "bus_from (BusDeliver e) = w_from e"
| "bus_from (BusAck e) = w_from e"
| "bus_from (BusControl e) = w_from e"
| "bus_from (BusAuditLog e) = w_from e"

text \<open>What every accepted bus envelope satisfies of its parsed text.\<close>

definition bus_envelope_ok :: "ext_lib \<Rightarrow> bytes \<Rightarrow> any_bus_envelope \<Rightarrow> bool" where
  "bus_envelope_ok lib b e \<longleftrightarrow>
     (\<exists>es. parse_value lib b = Inr (JObj es) \<and> map_of es ''signature'' = None \<and>
        map_of es ''famp'' = Some (JStr FAMP_SPEC_VERSION) \<and>
        map_of es ''class'' = Some (JStr (class_str (bus_class e))) \<and>
        map_of es ''from'' = Some (JStr (principal_display (bus_from e))) \<and>
        wf_principal (bus_from e) \<and>
        set (map fst es) \<subseteq> set (map fst (wire_fields lib de_value)))"

lemma wire_fields_names: "map fst (wire_fields lib d) = map fst (wire_fields lib de_value)"
  by (simp add: wire_fields_def req_field_def opt_field_def)

lemma bus_decode_fields:
  assumes "bus_decode lib B b = Inr w" "parse_value lib b = Inr v" "v = JObj es"
  shows "map_of es ''signature'' = None" "map_of es ''famp'' = Some (JStr FAMP_SPEC_VERSION)"
    "map_of es ''from'' = Some (JStr (principal_display (w_from w)))" "wf_principal (w_from w)"
    "set (map fst es) \<subseteq> set (map fst (wire_fields lib de_value))" "w_class w = CLASS B"
    "w_scope w = SCOPE B" "post_decode_validate B (w_body w) (w_terminal_status w) = Inr ()"
proof -
  obtain fs where fs: "parse_value lib b = Inr (JObj fs)" "map_of fs ''signature'' = None"
    "map_of fs ''famp'' = Some (JStr FAMP_SPEC_VERSION)" "de_wire lib (de_body B) (JObj fs) = Inr w"
    "w_class w = CLASS B" "w_scope w = SCOPE B"
    "post_decode_validate B (w_body w) (w_terminal_status w) = Inr ()"
    using assms(1) by (rule bus_decode_InrD)
  have e: "fs = es" using fs(1) assms(2,3) by simp
  note w = de_wire_Inr [OF fs(4)]
  show "map_of es ''signature'' = None" "map_of es ''famp'' = Some (JStr FAMP_SPEC_VERSION)"
    "map_of es ''from'' = Some (JStr (principal_display (w_from w)))" "wf_principal (w_from w)"
    "set (map fst es) \<subseteq> set (map fst (wire_fields lib de_value))" "w_class w = CLASS B"
    "w_scope w = SCOPE B" "post_decode_validate B (w_body w) (w_terminal_status w) = Inr ()"
    using fs w(1,2) e wire_fields_names [of lib "de_body B"]
    by (auto simp: req_Inr_iff de_principal_Inr_iff)
qed

lemma bus_envelope_okI:
  assumes "bus_decode lib B b = Inr w" "parse_value lib b = Inr (JObj es)"
    "map_of es ''class'' = Some (JStr (class_str (CLASS B)))"
    "bus_from e = w_from w" "bus_class e = w_class w"
  shows "bus_envelope_ok lib b e"
  unfolding bus_envelope_ok_def
  using bus_decode_fields(1-6) [OF assms(1,2) refl] assms by auto

lemmas body_schema_defs =
  request_schema_def commit_schema_def deliver_schema_def ack_schema_def control_schema_def
  audit_log_schema_def

lemma any_bus_decode_ok:
  assumes "any_bus_decode lib b = Inr e"
  shows "bus_envelope_ok lib b e"
proof -
  obtain v where v: "parse_value lib b = Inr v"
    using assms unfolding any_bus_decode_def by (cases "parse_value lib b") auto
  obtain c where c: "jget_str v ''class'' = Some c"
    using assms v unfolding any_bus_decode_def by (cases "jget_str v ''class''") auto
  obtain es where es: "v = JObj es" "map_of es ''class'' = Some (JStr c)"
    using c by (cases v) (auto simp: jget_str_def split: bind_splits)
  from assms v c show ?thesis
    by (auto simp: any_bus_decode_def map_sum_Inr_iff body_schema_defs es
        split: if_splits elim!: bus_envelope_okI)
qed

end
