(* ===== verification/Origin.thy ===== *)
theory Origin
  imports Envelope
begin

text \<open>
  The provenance stamp of a mailbox line (\<open>famp-bus/src/origin.rs\<close>): \<open>stamp_line\<close> wraps an
  envelope, \<open>split_stamped\<close> reads a line back, anything but the exact wrapper shape being of
  unknown origin.
\<close>

datatype origin = Local | Gateway | Unknown

definition origin_default :: origin where "origin_default = Unknown"

definition origin_wire :: "(string \<times> origin) list" where
  "origin_wire = [(''local'', Local), (''gateway'', Gateway), (''unknown'', Unknown)]"

fun origin_str :: "origin \<Rightarrow> string" where
  "origin_str Local = ''local''"
| "origin_str Gateway = ''gateway''"
| "origin_str Unknown = ''unknown''"

record stamped_envelope =
  st_origin :: origin
  st_envelope :: json

text \<open>A stamped envelope as the object serde writes (entries in key order).\<close>

definition stamped_to_json :: "stamped_envelope \<Rightarrow> json" where
  "stamped_to_json s = JObj [(''envelope'', st_envelope s), (''origin'', JStr (origin_str (st_origin s)))]"

definition stamp_line :: "ext_lib \<Rightarrow> bytes \<Rightarrow> origin \<Rightarrow> canonical_error + bytes" where
  "stamp_line lib line o' =
     res_bind (from_slice lib line) (\<lambda>e.
     canonicalize lib (stamped_to_json \<lparr>st_origin = o', st_envelope = e\<rparr>))"

definition split_stamped :: "json \<Rightarrow> origin \<times> json" where
  "split_stamped line =
     (case as_object line of
        None \<Rightarrow> (Unknown, line)
      | Some obj \<Rightarrow>
          if length obj \<noteq> 2 then (Unknown, line)
          else (case (map_of obj ''origin'', map_of obj ''envelope'') of
              (Some ov, Some ev) \<Rightarrow>
                (case de_enum origin_wire ov of
                   Inr o' \<Rightarrow> (o', ev)
                 | Inl _ \<Rightarrow> (Unknown, line))
            | _ \<Rightarrow> (Unknown, line)))"

lemma split_stamped_stamped [simp]: "split_stamped (stamped_to_json s) = (st_origin s, st_envelope s)"
  by (cases "st_origin s") (simp_all add: split_stamped_def stamped_to_json_def origin_wire_def)

lemma stamp_line_split:
  assumes "from_slice lib line = Inr e" "stamp_line lib line o' = Inr b"
    and "text_faithful lib (stamped_to_json \<lparr>st_origin = o', st_envelope = e\<rparr>)"
  shows "\<exists>v. parse_value lib b = Inr v \<and> split_stamped v = (o', e)"
proof -
  obtain b' where b': "canonicalize lib (stamped_to_json \<lparr>st_origin = o', st_envelope = e\<rparr>) = Inr b'"
      "parse_value lib b' = Inr (stamped_to_json \<lparr>st_origin = o', st_envelope = e\<rparr>)"
    using assms(3) by (rule text_faithful_parse)
  have "b = b'" using assms(1,2) b'(1) by (simp add: stamp_line_def)
  then show ?thesis using b'(2) by simp
qed

text \<open>A line read as not of unknown origin has exactly the wrapper's two keys.\<close>

lemma split_stamped_known:
  assumes "split_stamped line = (o', e)" "o' \<noteq> Unknown"
  obtains obj where "line = JObj obj" "length obj = 2" "map_of obj ''envelope'' = Some e"
    "\<exists>ov. map_of obj ''origin'' = Some ov \<and> de_enum origin_wire ov = Inr o'"
  using assms by (auto simp: split_stamped_def split: option.splits if_splits sum.splits)

lemma two_keys:
  assumes "length es = 2" "map_of es a \<noteq> None" "map_of es b \<noteq> None" "map_of es c \<noteq> None" "a \<noteq> b"
  shows "c = a \<or> c = b"
proof -
  obtain x y where "es = [x, y]"
    using assms(1) by (auto simp: numeral_2_eq_2 length_Suc_conv)
  then show ?thesis using assms(2-5) by (cases x; cases y) (auto split: if_splits)
qed

lemma split_stamped_envelope:
  assumes "map_of es ''famp'' \<noteq> None"
  shows "split_stamped (JObj es) = (Unknown, JObj es)"
  using assms two_keys [of es "''origin''" "''envelope''" "''famp''"]
  by (auto simp: split_stamped_def split: option.splits)

end
