(* ===== verification/Proto.thy ===== *)
theory Proto
  imports Mailbox Origin
begin

text \<open>
  The bus protocol (\<open>famp-bus/src/proto.rs\<close>, \<open>error.rs\<close>): messages and replies, the two name
  patterns the broker relies on, and the JSON a reply is encoded as.
\<close>

definition BUS_PROTO_VERSION :: u32 where "BUS_PROTO_VERSION = 3"

datatype bus_error_kind =
    NotRegistered | NameTaken | ChannelNameInvalid | NotJoined | EnvelopeInvalid
  | EnvelopeTooLarge | TaskNotFound | BrokerProtoMismatch | BrokerUnreachable | InternalKind

fun error_kind_str :: "bus_error_kind \<Rightarrow> string" where
  "error_kind_str NotRegistered = ''not_registered''"
| "error_kind_str NameTaken = ''name_taken''"
| "error_kind_str ChannelNameInvalid = ''channel_name_invalid''"
| "error_kind_str NotJoined = ''not_joined''"
| "error_kind_str EnvelopeInvalid = ''envelope_invalid''"
| "error_kind_str EnvelopeTooLarge = ''envelope_too_large''"
| "error_kind_str TaskNotFound = ''task_not_found''"
| "error_kind_str BrokerProtoMismatch = ''broker_proto_mismatch''"
| "error_kind_str BrokerUnreachable = ''broker_unreachable''"
| "error_kind_str InternalKind = ''internal''"

subsection \<open>Name patterns\<close>

text \<open>\<open>CHANNEL_PATTERN\<close>: \<open>^#[a-z0-9][a-z0-9_-]{0,31}$\<close>.\<close>

definition lower_or_digit :: "char \<Rightarrow> bool" where
  "lower_or_digit c \<longleftrightarrow> is_ascii_lower c \<or> is_ascii_digit c"

definition channel_name_valid :: "string \<Rightarrow> bool" where
  "channel_name_valid s =
     (case s of
        h # c # rest \<Rightarrow>
          h = CHR ''#'' \<and> lower_or_digit c \<and> length rest \<le> 31 \<and>
          list_all (\<lambda>b. lower_or_digit b \<or> b = CHR ''_'' \<or> b = CHR ''-'') rest
      | _ \<Rightarrow> False)"

text \<open>\<open>WAKE_ADDR_PATTERN\<close>: \<open>^uds:/tmp/cc-socks/[0-9]{1,10}\.sock$\<close>.\<close>

definition wake_addr_valid :: "string \<Rightarrow> bool" where
  "wake_addr_valid s =
     (case strip_prefix ''uds:/tmp/cc-socks/'' s of
        None \<Rightarrow> False
      | Some r \<Rightarrow>
          (let n = length (takeWhile is_ascii_digit r)
           in 1 \<le> n \<and> n \<le> 10 \<and> dropWhile is_ascii_digit r = ''.sock''))"

lemma wake_addr_valid_iff:
  "wake_addr_valid s \<longleftrightarrow>
     (\<exists>d. s = ''uds:/tmp/cc-socks/'' @ d @ ''.sock'' \<and> list_all is_ascii_digit d \<and>
        1 \<le> length d \<and> length d \<le> 10)"
proof
  assume "wake_addr_valid s"
  then obtain r where r: "s = ''uds:/tmp/cc-socks/'' @ r" "1 \<le> length (takeWhile is_ascii_digit r)"
      "length (takeWhile is_ascii_digit r) \<le> 10" "dropWhile is_ascii_digit r = ''.sock''"
    by (auto simp: wake_addr_valid_def Let_def strip_prefix_Some_iff split: option.splits)
  show "\<exists>d. s = ''uds:/tmp/cc-socks/'' @ d @ ''.sock'' \<and> list_all is_ascii_digit d \<and>
      1 \<le> length d \<and> length d \<le> 10"
    using r takeWhile_dropWhile_id [of is_ascii_digit r] set_takeWhileD [of _ is_ascii_digit r]
    by (intro exI [of _ "takeWhile is_ascii_digit r"]) (auto simp: list_all_iff)
next
  assume "\<exists>d. s = ''uds:/tmp/cc-socks/'' @ d @ ''.sock'' \<and> list_all is_ascii_digit d \<and>
      1 \<le> length d \<and> length d \<le> 10"
  then obtain d where d: "s = ''uds:/tmp/cc-socks/'' @ (d @ ''.sock'')" "list_all is_ascii_digit d"
      "1 \<le> length d" "length d \<le> 10"
    by auto
  have "\<not> is_ascii_digit (CHR ''.'')" by (simp add: is_ascii_digit_def less_eq_char_def)
  then have "takeWhile is_ascii_digit (d @ ''.sock'') = d" "dropWhile is_ascii_digit (d @ ''.sock'') = ''.sock''"
    using d(2) by (auto simp: list_all_iff takeWhile_append2 dropWhile_append2)
  moreover have "strip_prefix ''uds:/tmp/cc-socks/'' s = Some (d @ ''.sock'')"
    unfolding d(1) by (rule strip_prefix_append)
  ultimately show "wake_addr_valid s"
    using d by (simp add: wake_addr_valid_def)
qed

subsection \<open>Messages\<close>

datatype await_filter = AnyEnvelope | TaskFilter uuid

datatype target = ToAgent string | ToChannel string

fun de_target :: "target de" where
  "de_target (JObj es) =
     res_bind (de_struct [req_field ''kind'' de_string, req_field ''name'' de_string] (JObj es)) (\<lambda>fs.
     res_bind (req fs ''kind'' de_string) (\<lambda>k.
     res_bind (req fs ''name'' de_string) (\<lambda>n.
     if k = ''agent'' then Inr (ToAgent n)
     else if k = ''channel''
     then (if channel_name_valid n then Inr (ToChannel n) else Inl (InvalidValue ''channel name''))
     else Inl (UnknownVariant k))))"
| "de_target v = Inl InvalidType"

datatype inspect_kind =
    InspectBroker
  | InspectIdentities
  | InspectTasks "uuid option" bool
  | InspectMessages "string option" "nat option"
  | InspectWaiters

datatype bus_message =
    Hello u32 string "string option"
  | Register string u32 "string option" bool "origin option"
  | Send target json
  | Inbox "nat option" "bool option"
  | Await nat "uuid option"
  | Join string "string option"
  | Leave string
  | Sessions
  | Whoami
  | Inspect inspect_kind
  | SetListen bool
  | SetWakeAddr "string option"

subsection \<open>Replies\<close>

record delivered =
  dl_to :: target
  dl_ok :: bool
  dl_woken :: bool
  dl_wake_addr :: "string option"

record session_row =
  sr_name :: string
  sr_pid :: u32
  sr_joined :: "string list"

record member_info =
  mi_name :: string
  mi_role :: "string option"

datatype bus_reply =
    HelloOk u32
  | HelloErr bus_error_kind string
  | RegisterOk string "stamped_envelope list" "string list"
  | SendOk uuid "delivered list"
  | InboxOk "stamped_envelope list" nat
  | AwaitOk "stamped_envelope list" mailbox_name nat
  | AwaitTimeout
  | JoinOk string "member_info list" "stamped_envelope list"
  | LeaveOk string
  | SessionsOk "session_row list"
  | WhoamiOk "string option" "string list"
  | InspectOk json
  | SetListenOk bool
  | SetWakeAddrOk "string option"
  | ErrReply bus_error_kind string

fun variant_name :: "bus_reply \<Rightarrow> string" where
  "variant_name (HelloOk _) = ''HelloOk''"
| "variant_name (HelloErr _ _) = ''HelloErr''"
| "variant_name (RegisterOk _ _ _) = ''RegisterOk''"
| "variant_name (SendOk _ _) = ''SendOk''"
| "variant_name (InboxOk _ _) = ''InboxOk''"
| "variant_name (AwaitOk _ _ _) = ''AwaitOk''"
| "variant_name AwaitTimeout = ''AwaitTimeout''"
| "variant_name (JoinOk _ _ _) = ''JoinOk''"
| "variant_name (LeaveOk _) = ''LeaveOk''"
| "variant_name (SessionsOk _) = ''SessionsOk''"
| "variant_name (WhoamiOk _ _) = ''WhoamiOk''"
| "variant_name (InspectOk _) = ''InspectOk''"
| "variant_name (SetListenOk _) = ''SetListenOk''"
| "variant_name (SetWakeAddrOk _) = ''SetWakeAddrOk''"
| "variant_name (ErrReply _ _) = ''Err''"

subsection \<open>Replies as JSON\<close>

definition jnat :: "nat \<Rightarrow> json" where "jnat n = JNum (PosInt n)"

definition jstrs :: "string list \<Rightarrow> json" where "jstrs ss = JArr (map JStr ss)"

text \<open>A field that is left out when \<open>None\<close>, and one written as \<open>null\<close>.\<close>

fun skip_none :: "string \<Rightarrow> string option \<Rightarrow> (string \<times> json) list" where
  "skip_none k None = []"
| "skip_none k (Some s) = [(k, JStr s)]"

fun or_null :: "string option \<Rightarrow> json" where
  "or_null None = JNull"
| "or_null (Some s) = JStr s"

fun target_to_json :: "target \<Rightarrow> json" where
  "target_to_json (ToAgent n) = JObj [(''kind'', JStr ''agent''), (''name'', JStr n)]"
| "target_to_json (ToChannel n) = JObj [(''kind'', JStr ''channel''), (''name'', JStr n)]"

definition delivered_to_json :: "delivered \<Rightarrow> json" where
  "delivered_to_json d =
     JObj ([(''ok'', JBool (dl_ok d)), (''to'', target_to_json (dl_to d))] @
       skip_none ''wake_addr'' (dl_wake_addr d) @ [(''woken'', JBool (dl_woken d))])"

definition session_row_to_json :: "session_row \<Rightarrow> json" where
  "session_row_to_json r =
     JObj [(''joined'', jstrs (sr_joined r)), (''name'', JStr (sr_name r)),
           (''pid'', jnat (unat (sr_pid r)))]"

definition member_info_to_json :: "member_info \<Rightarrow> json" where
  "member_info_to_json m = JObj ((''name'', JStr (mi_name m)) # skip_none ''role'' (mi_role m))"

definition stamped_list :: "stamped_envelope list \<Rightarrow> json" where
  "stamped_list es = JArr (map stamped_to_json es)"

text \<open>The reply as a JSON object, its entries in key order.\<close>

fun reply_to_json :: "ext_lib \<Rightarrow> bus_reply \<Rightarrow> json" where
  "reply_to_json lib (HelloOk p) = JObj [(''bus_proto'', jnat (unat p)), (''op'', JStr ''hello_ok'')]"
| "reply_to_json lib (HelloErr k m) =
     JObj [(''kind'', JStr (error_kind_str k)), (''message'', JStr m), (''op'', JStr ''hello_err'')]"
| "reply_to_json lib (RegisterOk a d ps) =
     JObj [(''active'', JStr a), (''drained'', stamped_list d), (''op'', JStr ''register_ok''),
           (''peers'', jstrs ps)]"
| "reply_to_json lib (SendOk t ds) =
     JObj [(''delivered'', JArr (map delivered_to_json ds)), (''op'', JStr ''send_ok''),
           (''task_id'', JStr (uuid_show lib t))]"
| "reply_to_json lib (InboxOk es n) =
     JObj [(''envelopes'', stamped_list es), (''next_offset'', jnat n), (''op'', JStr ''inbox_ok'')]"
| "reply_to_json lib (AwaitOk es m n) =
     JObj [(''envelopes'', stamped_list es), (''mailbox'', mailbox_name_to_json m),
           (''next_offset'', jnat n), (''op'', JStr ''await_ok'')]"
| "reply_to_json lib AwaitTimeout = JObj [(''op'', JStr ''await_timeout'')]"
| "reply_to_json lib (JoinOk c ms d) =
     JObj [(''channel'', JStr c), (''drained'', stamped_list d),
           (''members'', JArr (map member_info_to_json ms)), (''op'', JStr ''join_ok'')]"
| "reply_to_json lib (LeaveOk c) = JObj [(''channel'', JStr c), (''op'', JStr ''leave_ok'')]"
| "reply_to_json lib (SessionsOk rs) =
     JObj [(''op'', JStr ''sessions_ok''), (''rows'', JArr (map session_row_to_json rs))]"
| "reply_to_json lib (WhoamiOk a js) =
     JObj (skip_none ''active'' a @ [(''joined'', jstrs js), (''op'', JStr ''whoami_ok'')])"
| "reply_to_json lib (InspectOk p) = JObj [(''op'', JStr ''inspect_ok''), (''payload'', p)]"
| "reply_to_json lib (SetListenOk b) =
     JObj [(''listen_mode'', JBool b), (''op'', JStr ''set_listen_ok'')]"
| "reply_to_json lib (SetWakeAddrOk w) =
     JObj [(''op'', JStr ''set_wake_addr_ok''), (''wake_addr'', or_null w)]"
| "reply_to_json lib (ErrReply k m) =
     JObj [(''kind'', JStr (error_kind_str k)), (''message'', JStr m), (''op'', JStr ''err'')]"

end
