(* ===== verification/Codec.thy ===== *)
theory Codec
  imports Proto
begin

unbundle bit_operations_syntax

text \<open>
  The frame codec (\<open>famp-bus/src/codec.rs\<close>): a big-endian 32-bit length, then the canonical JSON
  of the value. The length is a 32-bit word here as it is there.
\<close>

definition MAX_FRAME_BYTES :: nat where "MAX_FRAME_BYTES = 16 * 1024 * 1024"
definition LEN_PREFIX_BYTES :: nat where "LEN_PREFIX_BYTES = 4"

datatype frame_error =
    FrameTooLarge u32
  | EmptyFrame
  | FrameEncode canonical_error
  | FrameDecode canonical_error

definition to_be_bytes :: "u32 \<Rightarrow> bytes" where
  "to_be_bytes w = [ucast (drop_bit 24 w), ucast (drop_bit 16 w), ucast (drop_bit 8 w), ucast w]"

definition from_be_bytes :: "8 word \<Rightarrow> 8 word \<Rightarrow> 8 word \<Rightarrow> 8 word \<Rightarrow> u32" where
  "from_be_bytes a b c d =
     push_bit 24 (ucast a) OR push_bit 16 (ucast b) OR push_bit 8 (ucast c) OR ucast d"

text \<open>\<open>encode_frame\<close> on the JSON a value serializes to.\<close>

definition encode_frame :: "ext_lib \<Rightarrow> json \<Rightarrow> frame_error + bytes" where
  "encode_frame lib v =
     (case canonicalize lib v of
        Inl e \<Rightarrow> Inl (FrameEncode e)
      | Inr body \<Rightarrow>
          if \<not> length body < 2 ^ 32 then Inl (FrameTooLarge (- 1))
          else (let len = (of_nat (length body) :: u32) in
            if MAX_FRAME_BYTES < length body then Inl (FrameTooLarge len)
            else Inr (to_be_bytes len @ body)))"

text \<open>
  \<open>try_decode_frame\<close> for a target type whose deserializer is \<open>d\<close>: \<open>Inr None\<close> asks for more bytes,
  \<open>Inr (Some (v, n))\<close> is a value and the bytes it took.
\<close>

definition try_decode_frame ::
  "ext_lib \<Rightarrow> (json \<Rightarrow> string + 'a) \<Rightarrow> bytes \<Rightarrow> frame_error + ('a \<times> nat) option" where
  "try_decode_frame lib d buf =
     (if length buf < LEN_PREFIX_BYTES then Inr None
      else (let len = from_be_bytes (buf ! 0) (buf ! 1) (buf ! 2) (buf ! 3) in
        if len = 0 then Inl EmptyFrame
        else if MAX_FRAME_BYTES < unat len then Inl (FrameTooLarge len)
        else (let total = LEN_PREFIX_BYTES + unat len in
          if length buf < total then Inr None
          else (case from_slice_strict lib d (take (unat len) (drop LEN_PREFIX_BYTES buf)) of
              Inl e \<Rightarrow> Inl (FrameDecode e)
            | Inr v \<Rightarrow> Inr (Some (v, total))))))"

subsection \<open>Displayed errors\<close>

text \<open>
  \<open>Debug\<close> of a string, as far as the ASCII range goes; the errors of \<open>canonicalize\<close> never carry
  a key, so this text does not reach a reply.
\<close>

fun debug_char :: "char \<Rightarrow> string" where
  "debug_char c =
     (if c = CHR 0x22 then [CHR 0x5C, CHR 0x22]
      else if c = CHR 0x5C then [CHR 0x5C, CHR 0x5C]
      else [c])"

fun canonical_error_display :: "canonical_error \<Rightarrow> string" where
  "canonical_error_display (Serialize e) = ''serialization failed: '' @ e"
| "canonical_error_display (InvalidJson e) = ''invalid JSON input: '' @ e"
| "canonical_error_display (DuplicateKey k) =
     ''duplicate key in JSON object: '' @ [CHR 0x22] @ concat (map debug_char k) @ [CHR 0x22]"
| "canonical_error_display NonFiniteNumber =
     ''non-finite number (NaN or Infinity) not permitted by RFC 8785''"
| "canonical_error_display (InternalCanonicalization e) = ''internal canonicalization error: '' @ e"

fun frame_error_display :: "frame_error \<Rightarrow> string" where
  "frame_error_display (FrameTooLarge n) =
     ''frame length '' @ show_nat (unat n) @ '' exceeds maximum 16 MiB''"
| "frame_error_display EmptyFrame = ''frame length cannot be zero''"
| "frame_error_display (FrameEncode e) =
     ''canonical JSON encode failed: '' @ canonical_error_display e"
| "frame_error_display (FrameDecode e) =
     ''canonical JSON decode (strict-parse) failed: '' @ canonical_error_display e"

fun mailbox_err_display :: "mailbox_err \<Rightarrow> string" where
  "mailbox_err_display (NotFound n) = ''mailbox '' @ mailbox_display n @ '' does not exist''"
| "mailbox_err_display (InternalErr e) = ''internal mailbox error: '' @ e"

subsection \<open>Round trip\<close>

lemma from_to_be_bytes:
  "from_be_bytes (ucast (drop_bit 24 w)) (ucast (drop_bit 16 w)) (ucast (drop_bit 8 w)) (ucast w) = w"
proof (rule bit_word_eqI)
  fix n :: nat
  assume "n < LENGTH(32)"
  then consider "n < 8" | "8 \<le> n" "n < 16" | "16 \<le> n" "n < 24" | "24 \<le> n" "n < 32"
    by fastforce
  then show "bit (from_be_bytes (ucast (drop_bit 24 w)) (ucast (drop_bit 16 w))
      (ucast (drop_bit 8 w)) (ucast w)) n = bit w n"
    by cases (auto simp: from_be_bytes_def bit_simps)
qed

lemma length_to_be_bytes [simp]: "length (to_be_bytes w) = LEN_PREFIX_BYTES"
  by (simp add: to_be_bytes_def LEN_PREFIX_BYTES_def)

lemma to_be_bytes_prefix:
  "from_be_bytes ((to_be_bytes w @ bs) ! 0) ((to_be_bytes w @ bs) ! 1) ((to_be_bytes w @ bs) ! 2)
     ((to_be_bytes w @ bs) ! 3) = w"
  by (simp add: to_be_bytes_def from_to_be_bytes numeral_2_eq_2 numeral_3_eq_3)

lemma encode_frame_Inr:
  assumes "encode_frame lib v = Inr b"
  obtains body where "canonicalize lib v = Inr body" "length body \<le> MAX_FRAME_BYTES"
    "b = to_be_bytes (of_nat (length body)) @ body" "unat (of_nat (length body) :: u32) = length body"
proof -
  obtain body where body: "canonicalize lib v = Inr body" "length body < 2 ^ 32"
      "length body \<le> MAX_FRAME_BYTES" "b = to_be_bytes (of_nat (length body)) @ body"
    using assms by (auto simp: encode_frame_def Let_def split: sum.splits if_splits)
  moreover have "unat (of_nat (length body) :: u32) = length body"
    using body(2) by (simp add: unat_of_nat take_bit_nat_eq_self)
  ultimately show thesis using that by blast
qed

lemma decode_encoded_frame:
  assumes e: "encode_frame lib v = Inr b" and b: "4 < length b" and t: "text_faithful lib v"
  shows "try_decode_frame lib d (b @ rest) =
    (case d v of
       Inl e \<Rightarrow> Inl (FrameDecode (InvalidJson e))
     | Inr x \<Rightarrow> Inr (Some (x, length b)))"
proof -
  obtain body where body: "canonicalize lib v = Inr body" "length body \<le> MAX_FRAME_BYTES"
      "b = to_be_bytes (of_nat (length body)) @ body"
      "unat (of_nat (length body) :: u32) = length body"
    using e by (rule encode_frame_Inr)
  let ?w = "of_nat (length body) :: u32"
  obtain body' where "canonicalize lib v = Inr body'" and p: "parse_value lib body' = Inr v"
    using t by (rule text_faithful_parse)
  then have bb: "body' = body" using body(1) by simp
  have w: "?w \<noteq> 0" using b body(3,4) by (auto simp: LEN_PREFIX_BYTES_def)
  have "from_slice_strict lib d body = map_err InvalidJson (d v)"
    using p bb by (auto simp: from_slice_strict_def split: sum.splits)
  moreover have "length b = 4 + length body" using body(3) by (simp add: LEN_PREFIX_BYTES_def)
  moreover have "drop LEN_PREFIX_BYTES (b @ rest) = body @ rest"
    unfolding body(3) by simp
  ultimately show ?thesis
    using body(2,4) w to_be_bytes_prefix [of ?w "body @ rest"]
    by (simp add: try_decode_frame_def Let_def body(3) LEN_PREFIX_BYTES_def split: sum.splits)
qed

lemma decode_short_frame:
  assumes e: "encode_frame lib v = Inr b" and n: "n < length b" and b: "4 < length b"
  shows "try_decode_frame lib d (take n b) = Inr None"
proof (cases "n < 4")
  case True
  then have "length (take n b) < 4" by simp
  then show ?thesis unfolding try_decode_frame_def LEN_PREFIX_BYTES_def by (simp only: if_True)
next
  case False
  obtain body where body: "canonicalize lib v = Inr body" "length body \<le> MAX_FRAME_BYTES"
      "b = to_be_bytes (of_nat (length body)) @ body"
      "unat (of_nat (length body) :: u32) = length body"
    using e by (rule encode_frame_Inr)
  let ?w = "of_nat (length body) :: u32"
  have w: "?w \<noteq> 0" using b body(3,4) by (auto simp: LEN_PREFIX_BYTES_def)
  have "take n b = to_be_bytes ?w @ take (n - 4) body"
    using False unfolding body(3) by (simp add: LEN_PREFIX_BYTES_def)
  moreover have "n < 4 + length body" using n body(3) by (simp add: LEN_PREFIX_BYTES_def)
  ultimately show ?thesis
    using body(2,4) w to_be_bytes_prefix [of ?w "take (n - 4) body"] False
    by (simp add: try_decode_frame_def Let_def LEN_PREFIX_BYTES_def)
qed

end
