(* ===== verification/DrainWalk.thy ===== *)
theory DrainWalk
  imports Codec
begin

text \<open>
  The walk over drained mailbox records (\<open>famp-bus/src/broker/drain_walk.rs\<close>) with \<open>decode_line\<close>
  and \<open>decode_lines\<close> of \<open>handle.rs\<close>: each record is delivered, skipped for good, or stops the
  walk, and the cursor moves past exactly the records accounted for.
\<close>

datatype drain_cap = CapDelivered nat | CapScanned nat

record drain_policy =
  p_filter :: await_filter
  p_skip_self :: "string option"
  p_require_local :: bool
  p_cap :: "drain_cap option"

record walk_outcome =
  wo_delivered :: "(origin \<times> json) list"
  wo_next_offset :: nat
  wo_fully_drained :: bool

datatype line_error =
    LineParse canonical_error
  | LineRecanonicalize canonical_error
  | LineRejected envelope_decode_error

definition decode_line :: "ext_lib \<Rightarrow> bytes \<Rightarrow> line_error + origin \<times> json" where
  "decode_line lib line =
     (case parse_value lib line of
        Inl e \<Rightarrow> Inl (LineParse e)
      | Inr raw \<Rightarrow>
          (let (o', inner) = split_stamped raw in
           case canonicalize lib inner of
             Inl e \<Rightarrow> Inl (LineRecanonicalize e)
           | Inr b \<Rightarrow>
               (case any_bus_decode lib b of
                  Inl e \<Rightarrow> Inl (LineRejected e)
                | Inr _ \<Rightarrow> Inr (o', inner))))"

definition is_self_authored :: "json \<Rightarrow> string option \<Rightarrow> bool" where
  "is_self_authored envelope identity =
     (case identity of
        None \<Rightarrow> False
      | Some reader \<Rightarrow>
          (case jget_str envelope ''from'' of
             None \<Rightarrow> False
           | Some from \<Rightarrow> last_segment from = reader))"

fun filter_matches :: "ext_lib \<Rightarrow> await_filter \<Rightarrow> json \<Rightarrow> bool" where
  "filter_matches lib AnyEnvelope envelope = True"
| "filter_matches lib (TaskFilter task) envelope =
     (let raw =
        (if jget_str envelope ''class'' = Some ''request'' then jget_str envelope ''id''
         else Option.bind (jget envelope ''causality'') (\<lambda>c. jget_str c ''ref''))
      in Option.bind raw (uuid_parse lib) = Some task)"

text \<open>
  The loop. Its result is what was delivered, the cursor, and whether every record was
  accounted for (neither a stop at a mismatch nor the delivery cap).
\<close>

fun walk_loop ::
  "ext_lib \<Rightarrow> drain_policy \<Rightarrow> nat option \<Rightarrow> drained_record list \<Rightarrow> (origin \<times> json) list \<Rightarrow> nat \<Rightarrow>
   (origin \<times> json) list \<times> nat \<times> bool" where
  "walk_loop lib p cap [] del next = (del, next, True)"
| "walk_loop lib p cap (r # rs) del next =
     (case decode_line lib (rec_bytes r) of
        Inl _ \<Rightarrow> walk_loop lib p cap rs del (rec_end r)
      | Inr (o', v) \<Rightarrow>
          if p_require_local p \<and> o' \<noteq> Local then walk_loop lib p cap rs del (rec_end r)
          else if is_self_authored v (p_skip_self p) then walk_loop lib p cap rs del (rec_end r)
          else if filter_matches lib (p_filter p) v
          then (let del' = del @ [(o', v)] in
            if cap = Some (length del') then (del', rec_end r, False)
            else walk_loop lib p cap rs del' (rec_end r))
          else (del, next, False))"

definition walk :: "ext_lib \<Rightarrow> nat \<Rightarrow> drain_result \<Rightarrow> drain_policy \<Rightarrow> walk_outcome" where
  "walk lib since d p =
     (let (scan, full) =
        (case p_cap p of
           Some (CapScanned n) \<Rightarrow> (take n (records d), length (records d) \<le> n)
         | _ \<Rightarrow> (records d, True));
          cap = (case p_cap p of Some (CapDelivered n) \<Rightarrow> Some n | _ \<Rightarrow> None);
          (del, next, ok) = walk_loop lib p cap scan [] (min since (next_offset d))
      in \<lparr>wo_delivered = del, wo_next_offset = next, wo_fully_drained = (full \<and> ok)\<rparr>)"

definition decode_lines_policy :: drain_policy where
  "decode_lines_policy =
     \<lparr>p_filter = AnyEnvelope, p_skip_self = None, p_require_local = False, p_cap = None\<rparr>"

definition decode_lines :: "ext_lib \<Rightarrow> nat \<Rightarrow> drain_result \<Rightarrow> (origin \<times> json) list" where
  "decode_lines lib start d = wo_delivered (walk lib start d decode_lines_policy)"

definition DRAIN_WARN_BYTES :: nat where "DRAIN_WARN_BYTES = 8 * 1024 * 1024"

definition drained_span :: "nat \<Rightarrow> drained_record list \<Rightarrow> nat" where
  "drained_span start rs = (if rs = [] then 0 else rec_end (last rs) - start)"

subsection \<open>What one record is to a policy\<close>

text \<open>A record that is never wanted, is delivered, or is real but not for this filter.\<close>

datatype verdict = Skip | Take origin json | Block

definition verdict_of :: "ext_lib \<Rightarrow> drain_policy \<Rightarrow> drained_record \<Rightarrow> verdict" where
  "verdict_of lib p r =
     (case decode_line lib (rec_bytes r) of
        Inl _ \<Rightarrow> Skip
      | Inr (o', v) \<Rightarrow>
          if p_require_local p \<and> o' \<noteq> Local then Skip
          else if is_self_authored v (p_skip_self p) then Skip
          else if filter_matches lib (p_filter p) v then Take o' v
          else Block)"

fun taken :: "verdict \<Rightarrow> (origin \<times> json) option" where
  "taken (Take o' v) = Some (o', v)"
| "taken _ = None"

definition takes :: "ext_lib \<Rightarrow> drain_policy \<Rightarrow> drained_record list \<Rightarrow> (origin \<times> json) list" where
  "takes lib p rs = List.map_filter (taken \<circ> verdict_of lib p) rs"

text \<open>The cursor after a list of accounted-for records.\<close>

definition end_after :: "drained_record list \<Rightarrow> nat \<Rightarrow> nat" where
  "end_after rs k = (if rs = [] then k else rec_end (last rs))"

lemma takes_simps [simp]:
  "takes lib p [] = []"
  "takes lib p (r # rs) =
     (case taken (verdict_of lib p r) of None \<Rightarrow> takes lib p rs | Some x \<Rightarrow> x # takes lib p rs)"
  "takes lib p (xs @ ys) = takes lib p xs @ takes lib p ys"
  by (simp_all add: takes_def List.map_filter_def split: option.splits)

lemma end_after_simps [simp]:
  "end_after [] k = k"
  "end_after (r # rs) k = end_after rs (rec_end r)"
  by (auto simp: end_after_def)

lemma walk_loop_verdict:
  "walk_loop lib p cap (r # rs) del next =
     (case verdict_of lib p r of
        Skip \<Rightarrow> walk_loop lib p cap rs del (rec_end r)
      | Take o' v \<Rightarrow>
          if cap = Some (length (del @ [(o', v)])) then (del @ [(o', v)], rec_end r, False)
          else walk_loop lib p cap rs (del @ [(o', v)]) (rec_end r)
      | Block \<Rightarrow> (del, next, False))"
  by (cases "decode_line lib (rec_bytes r)") (auto simp: verdict_of_def Let_def)

declare walk_loop.simps(2) [simp del]
declare walk_loop_verdict [simp]

text \<open>
  The loop takes a prefix of the records that holds no blocked record, delivers exactly its
  wanted records in order, and stops before the end only at a blocked record or at the cap.
\<close>

lemma walk_loop_prefix:
  assumes "walk_loop lib p cap rs del next = (del', next', ok)"
  shows "\<exists>pre post. rs = pre @ post \<and> del' = del @ takes lib p pre \<and>
    next' = end_after pre next \<and> (\<forall>r \<in> set pre. verdict_of lib p r \<noteq> Block) \<and>
    (ok \<longrightarrow> post = []) \<and>
    (\<not> ok \<longrightarrow> cap = Some (length del') \<or> (\<exists>r ys. post = r # ys \<and> verdict_of lib p r = Block))"
  using assms
proof (induction rs arbitrary: del "next")
  case Nil
  then show ?case by (auto intro: exI [of _ "[]"])
next
  case (Cons r rs)
  show ?case
  proof (cases "verdict_of lib p r")
    case Block
    then show ?thesis using Cons.prems by (intro exI [of _ "[]"] exI [of _ "r # rs"]) auto
  next
    case Skip
    then have "walk_loop lib p cap rs del (rec_end r) = (del', next', ok)"
      using Cons.prems by simp
    from Cons.IH [OF this] Skip show ?thesis
      by (elim exE) (rule exI [of _ "r # _"], auto)
  next
    case (Take o' v)
    show ?thesis
    proof (cases "cap = Some (length (del @ [(o', v)]))")
      case True
      then show ?thesis
        using Cons.prems Take by - (rule exI [of _ "[r]"], rule exI [of _ rs], auto)
    next
      case False
      then have "walk_loop lib p cap rs (del @ [(o', v)]) (rec_end r) = (del', next', ok)"
        using Cons.prems Take by simp
      from Cons.IH [OF this] Take show ?thesis
        by (elim exE) (rule exI [of _ "r # _"], auto)
    qed
  qed
qed

lemma walk_loop_cap:
  "walk_loop lib p (Some n) rs del next = (del', next', ok) \<Longrightarrow> length del < n \<Longrightarrow> length del' \<le> n"
  by (induction rs arbitrary: del "next") (auto split: verdict.splits if_splits)

lemma walk_loop_no_block:
  assumes "\<forall>r \<in> set rs. verdict_of lib p r \<noteq> Block"
  shows "walk_loop lib p None rs del next = (del @ takes lib p rs, end_after rs next, True)"
  using assms
  by (induction rs arbitrary: del "next") (auto split: verdict.splits)

lemma verdict_any: "p_filter p = AnyEnvelope \<Longrightarrow> verdict_of lib p r \<noteq> Block"
  by (auto simp: verdict_of_def split: sum.splits)

lemma verdict_Take:
  "verdict_of lib p r = Take o' v \<Longrightarrow>
   decode_line lib (rec_bytes r) = Inr (o', v) \<and> (p_require_local p \<longrightarrow> o' = Local) \<and>
   \<not> is_self_authored v (p_skip_self p) \<and> filter_matches lib (p_filter p) v"
  by (auto simp: verdict_of_def split: sum.splits if_splits prod.splits)

lemma takes_iff:
  "(o', v) \<in> set (takes lib p rs) \<longleftrightarrow> (\<exists>r \<in> set rs. verdict_of lib p r = Take o' v)"
proof (induction rs)
  case (Cons r rs)
  then show ?case by (cases "verdict_of lib p r") auto
qed simp

subsection \<open>The whole walk\<close>

lemma walk_accounts:
  obtains pre post where "records d = pre @ post"
    "wo_delivered (walk lib since d p) = takes lib p pre"
    "wo_next_offset (walk lib since d p) = end_after pre (min since (next_offset d))"
    "\<forall>r \<in> set pre. verdict_of lib p r \<noteq> Block"
    "wo_fully_drained (walk lib since d p) \<longrightarrow> post = []"
proof -
  define scan where "scan = (case p_cap p of Some (CapScanned n) \<Rightarrow> take n (records d) | _ \<Rightarrow> records d)"
  define cap where "cap = (case p_cap p of Some (CapDelivered n) \<Rightarrow> Some n | _ \<Rightarrow> None)"
  obtain del nxt ok where l:
      "walk_loop lib p cap scan [] (min since (next_offset d)) = (del, nxt, ok)"
    by (metis prod_cases3)
  obtain pre post where pp: "scan = pre @ post" "del = takes lib p pre"
      "nxt = end_after pre (min since (next_offset d))" "\<forall>r \<in> set pre. verdict_of lib p r \<noteq> Block"
      "ok \<Longrightarrow> post = []"
    using walk_loop_prefix [OF l] by auto
  define rest where "rest = (case p_cap p of Some (CapScanned n) \<Rightarrow> drop n (records d) | _ \<Rightarrow> [])"
  have "scan @ rest = records d"
    by (auto simp: scan_def rest_def split: option.splits drain_cap.splits)
  then have "records d = pre @ (post @ rest)" using pp(1) by simp
  moreover have w: "wo_delivered (walk lib since d p) = del" "wo_next_offset (walk lib since d p) = nxt"
      "wo_fully_drained (walk lib since d p) \<Longrightarrow> ok \<and> rest = []"
    using l by (auto simp: walk_def scan_def cap_def rest_def Let_def split: option.splits drain_cap.splits)
  ultimately show thesis using that [of pre "post @ rest"] pp by auto
qed

lemma walk_delivered:
  assumes "(o', v) \<in> set (wo_delivered (walk lib since d p))"
  shows "(p_require_local p \<longrightarrow> o' = Local) \<and> \<not> is_self_authored v (p_skip_self p) \<and>
    filter_matches lib (p_filter p) v \<and>
    (\<exists>r \<in> set (records d). decode_line lib (rec_bytes r) = Inr (o', v))"
proof -
  obtain pre post where pp: "records d = pre @ post"
      "wo_delivered (walk lib since d p) = takes lib p pre"
    by (rule walk_accounts [of d lib since p])
  then obtain r where r: "r \<in> set pre" "verdict_of lib p r = Take o' v"
    using assms by (auto simp: takes_iff)
  then show ?thesis using pp(1) verdict_Take [OF r(2)] by auto
qed

lemma walk_cap:
  assumes "p_cap p = Some (CapDelivered n)" "0 < n"
  shows "length (wo_delivered (walk lib since d p)) \<le> n"
proof -
  obtain del nxt ok where l:
      "walk_loop lib p (Some n) (records d) [] (min since (next_offset d)) = (del, nxt, ok)"
    by (metis prod_cases3)
  then show ?thesis using walk_loop_cap [OF l] assms by (simp add: walk_def)
qed

text \<open>A walk that hit neither the cap nor a blocked record delivered less than the cap.\<close>

lemma walk_cap_full:
  assumes "p_cap p = Some (CapDelivered n)" "0 < n" "wo_fully_drained (walk lib since d p)"
  shows "length (wo_delivered (walk lib since d p)) < n"
proof -
  have "ok \<Longrightarrow> length del' < n"
    if "walk_loop lib p (Some n) rs del k = (del', k', ok)" "length del < n" for rs del k del' k' ok
    using that
    by (induction rs arbitrary: del k) (auto split: verdict.splits if_splits)
  then show ?thesis
    using assms by (auto simp: walk_def split: prod.splits)
qed

lemma walk_empty:
  "records d = [] \<Longrightarrow>
   walk lib since d p =
     \<lparr>wo_delivered = [], wo_next_offset = min since (next_offset d), wo_fully_drained = True\<rparr>"
  by (auto simp: walk_def split: option.splits drain_cap.splits)

lemma walk_all:
  assumes "p_filter p = AnyEnvelope" "p_cap p = None"
  shows "walk lib since d p =
    \<lparr>wo_delivered = takes lib p (records d),
     wo_next_offset = end_after (records d) (min since (next_offset d)), wo_fully_drained = True\<rparr>"
  using assms walk_loop_no_block [of "records d" lib p] verdict_any [OF assms(1)]
  by (simp add: walk_def)

lemma decode_lines_takes: "decode_lines lib start d = takes lib decode_lines_policy (records d)"
  unfolding decode_lines_def by (subst walk_all) (simp_all add: decode_lines_policy_def)

subsection \<open>Resuming a walk\<close>

text \<open>
  Against any mailbox that meets the reading contract: the drain from the cursor a walk
  returned holds exactly the records the walk did not account for.
\<close>

context mailbox_read
begin

lemma walk_resumes:
  assumes w: "wf s" and d: "drain s n c = Inr d" and c: "c \<le> next_offset d"
  shows "\<exists>pre d'. drain s n (wo_next_offset (walk lib c d p)) = Inr d' \<and>
    records d = pre @ records d' \<and> next_offset d' = next_offset d \<and>
    wo_delivered (walk lib c d p) = takes lib p pre \<and>
    (\<forall>r \<in> set pre. verdict_of lib p r \<noteq> Block) \<and>
    (wo_fully_drained (walk lib c d p) \<longrightarrow> records d' = [])"
proof -
  obtain pre post where pp: "records d = pre @ post"
      "wo_delivered (walk lib c d p) = takes lib p pre"
      "wo_next_offset (walk lib c d p) = end_after pre (min c (next_offset d))"
      "\<forall>r \<in> set pre. verdict_of lib p r \<noteq> Block"
      "wo_fully_drained (walk lib c d p) \<longrightarrow> post = []"
    by (rule walk_accounts [of d lib c p])
  have "drain s n (end_after pre (min c (next_offset d))) =
      Inr \<lparr>records = post, next_offset = next_offset d\<rparr>"
  proof (cases pre rule: rev_cases)
    case Nil
    then show ?thesis using c d pp(1) by simp
  next
    case (snoc us r)
    then show ?thesis
      using drain_resumes [OF w d, of us r post] pp(1) by (simp add: end_after_def)
  qed
  then show ?thesis using pp by auto
qed

lemma walk_heals:
  assumes "wf s" "lines_of s n = Some ls" "total_len ls \<le> c"
  shows "\<exists>d. drain s n c = Inr d \<and>
    walk lib c d p =
      \<lparr>wo_delivered = [], wo_next_offset = total_len ls, wo_fully_drained = True\<rparr>"
  using drain_past_end [OF assms] assms(3) by (simp add: walk_empty)

end

end
