(* ===== verification/BrokerState.thy ===== *)
theory BrokerState
  imports DrainWalk
begin

text \<open>
  The broker's state (\<open>famp-bus/src/broker/state.rs\<close>), its inputs and staged effects
  (\<open>broker/mod.rs\<close>) and the identity helpers (\<open>broker/identity.rs\<close>). An \<open>Instant\<close> is a number of
  milliseconds, a \<open>SystemTime\<close> a number of seconds; the environment \<open>BrokerEnv\<close> is a record of the
  two trait functions.
\<close>

record broker_env =
  is_alive :: "u32 \<Rightarrow> bool"
  drain_from :: "mailbox_name \<Rightarrow> nat \<Rightarrow> mailbox_err + drain_result"

record client_state =
  handshaked :: bool
  cs_name :: "string option"
  cs_pid :: "u32 option"
  joined :: "string btset"
  connected :: bool
  bind_as :: "string option"
  cwd :: "string option"
  listen_mode :: bool
  wake_addr :: "string option"
  cs_origin :: origin
  registered_at :: nat
  last_activity :: nat
  await_offsets :: "(mailbox_name, nat) btree"
  inbox_offsets :: "(mailbox_name, nat) btree"

record parked_await =
  pa_filter :: await_filter
  pa_deadline :: nat

record broker_state =
  clients :: "(client_id, client_state) btree"
  channels :: "(string, string btset) btree"
  pending_awaits :: "(client_id, parked_await) btree"
  channel_roles :: "(string \<times> string, string) btree"
  started_at :: nat

definition broker_new :: "nat \<Rightarrow> broker_state" where
  "broker_new wall =
     \<lparr>clients = bt_empty, channels = bt_empty, pending_awaits = bt_empty,
      channel_roles = bt_empty, started_at = wall\<rparr>"

datatype broker_input = Wire client_id bus_message | Disconnect client_id | Tick

datatype out =
    Reply client_id bus_reply
  | AppendMailbox mailbox_name bytes origin
  | AdvanceCursor mailbox_name nat
  | ParkAwait client_id await_filter nat
  | UnparkAwait client_id
  | ReleaseClient client_id
  | InspectRequest client_id inspect_kind
  | SessionEnded string u32 "string list"

text \<open>\<open>clients.get_mut(&id)\<close> followed by an update of the entry, if there is one.\<close>

definition upd_client :: "client_id \<Rightarrow> (client_state \<Rightarrow> client_state) \<Rightarrow> broker_state \<Rightarrow> broker_state" where
  "upd_client c f st = st\<lparr>clients := bt_update c f (clients st)\<rparr>"

definition unpark :: "client_id \<Rightarrow> broker_state \<Rightarrow> broker_state" where
  "unpark c st = st\<lparr>pending_awaits := bt_remove c (pending_awaits st)\<rparr>"

subsection \<open>Identity resolution\<close>

definition registered_name :: "broker_state \<Rightarrow> client_id \<Rightarrow> string option" where
  "registered_name st c =
     Option.bind (option_filter connected (bt_get (clients st) c)) cs_name"

definition effective_identity :: "client_state \<Rightarrow> bus_error_kind + string" where
  "effective_identity cs =
     (case cs_name cs of
        Some n \<Rightarrow> Inr n
      | None \<Rightarrow> (case bind_as cs of Some b \<Rightarrow> Inr b | None \<Rightarrow> Inl NotRegistered))"

definition proxy_holder_alive :: "broker_env \<Rightarrow> broker_state \<Rightarrow> string \<Rightarrow> bool" where
  "proxy_holder_alive env st bound =
     list_ex (\<lambda>h. connected h \<and> cs_name h = Some bound \<and>
        (case cs_pid h of Some pid \<Rightarrow> is_alive env pid | None \<Rightarrow> False))
       (bt_values (clients st))"

definition canonical_holder_id :: "broker_state \<Rightarrow> string \<Rightarrow> client_id option" where
  "canonical_holder_id st bound =
     bt_find_key (\<lambda>_ cs. connected cs \<and> cs_name cs = Some bound) (clients st)"

definition resolve_op_identity ::
  "broker_env \<Rightarrow> broker_state \<Rightarrow> client_id \<Rightarrow> bus_error_kind + string" where
  "resolve_op_identity env st c =
     (case bt_get (clients st) c of
        None \<Rightarrow> Inl NotRegistered
      | Some cs \<Rightarrow>
          if \<not> connected cs then Inl NotRegistered
          else (case effective_identity cs of
              Inl e \<Rightarrow> Inl e
            | Inr identity \<Rightarrow>
                if cs_name cs \<noteq> None then Inr identity
                else if proxy_holder_alive env st identity then Inr identity
                else Inl NotRegistered))"

subsection \<open>The inspector's view\<close>

record client_state_view =
  cv_name :: string
  cv_pid :: "u32 option"
  cv_bind_as :: "string option"
  cv_cwd :: "string option"
  cv_listen_mode :: bool
  cv_wake_addr :: "string option"
  cv_registered_at :: nat
  cv_last_activity :: nat
  cv_joined :: "string list"

record waiter_state_view =
  wv_name :: string
  wv_mailbox :: string
  wv_cursor :: nat
  wv_deadline_ms :: nat

record broker_state_view =
  bv_started_at :: nat
  bv_clients :: "client_state_view list"
  bv_waiters :: "waiter_state_view list"

definition view_client :: "client_state \<Rightarrow> client_state_view" where
  "view_client c =
     \<lparr>cv_name = unwrap_or [] (cs_name c), cv_pid = cs_pid c, cv_bind_as = bind_as c, cv_cwd = cwd c,
      cv_listen_mode = listen_mode c, cv_wake_addr = wake_addr c,
      cv_registered_at = registered_at c, cv_last_activity = last_activity c,
      cv_joined = bts_list (joined c)\<rparr>"

definition view_waiter :: "broker_state \<Rightarrow> nat \<Rightarrow> client_id \<Rightarrow> parked_await \<Rightarrow> waiter_state_view list" where
  "view_waiter st now c parked =
     (case bt_get (clients st) c of
        None \<Rightarrow> []
      | Some cs \<Rightarrow>
          (case option_or (cs_name cs) (bind_as cs) of
             None \<Rightarrow> []
           | Some name \<Rightarrow>
               (let owner = (if cs_name cs \<noteq> None then c
                   else unwrap_or c (canonical_holder_id st (unwrap_or [] (bind_as cs))));
                    os = bt_get (clients st) owner;
                    ms = pa_deadline parked - now;
                    cursor = unwrap_or 0 (Option.bind os (\<lambda>s. bt_get (await_offsets s) (Agent name)))
                in \<lparr>wv_name = name, wv_mailbox = name, wv_cursor = cursor, wv_deadline_ms = ms\<rparr> #
                   (case os of
                      None \<Rightarrow> []
                    | Some s \<Rightarrow>
                        map (\<lambda>ch. \<lparr>wv_name = name, wv_mailbox = ch,
                            wv_cursor = unwrap_or 0 (bt_get (await_offsets s) (Channel ch)),
                            wv_deadline_ms = ms\<rparr>)
                          (bts_list (joined s))))))"

definition broker_view :: "broker_state \<Rightarrow> nat \<Rightarrow> broker_state_view" where
  "broker_view st now =
     \<lparr>bv_started_at = started_at st,
      bv_clients = map view_client
        (filter (\<lambda>c. connected c \<and> cs_name c \<noteq> None) (bt_values (clients st))),
      bv_waiters = concat (map (\<lambda>(c, p). view_waiter st now c p) (bt_entries (pending_awaits st)))\<rparr>"

end
