(* ===== verification/Awaiting.thy ===== *)
theory Awaiting
  imports BrokerState
begin

text \<open>
  Waiting for messages (\<open>famp-bus/src/broker/awaiting.rs\<close>): draining a batch, parking a client,
  and answering a parked client when a send wakes it. The wake's trigger is the message being
  sent, which the mailbox does not hold yet.
\<close>

definition AWAIT_BATCH_CAP :: nat where "AWAIT_BATCH_CAP = 50"
definition MAX_AWAIT_MS :: nat where "MAX_AWAIT_MS = 23 * 60 * 60 * 1000"

record await_batch =
  ab_mailbox :: mailbox_name
  ab_envelopes :: "stamped_envelope list"
  ab_next_offset :: nat
  ab_fully_drained :: bool

text \<open>The message a send carries: its origin, the envelope, and the stamped line's length.\<close>

record trigger =
  tr_origin :: origin
  tr_envelope :: json
  tr_line_len :: nat

definition mk_err :: "client_id \<Rightarrow> bus_error_kind \<Rightarrow> string \<Rightarrow> out" where
  "mk_err c kind message = Reply c (ErrReply kind message)"

definition stamp_all :: "(origin \<times> json) list \<Rightarrow> stamped_envelope list" where
  "stamp_all = map (\<lambda>(o', e). \<lparr>st_origin = o', st_envelope = e\<rparr>)"

definition resolve_await_owner ::
  "broker_env \<Rightarrow> broker_state \<Rightarrow> client_id \<Rightarrow> bus_error_kind + string \<times> client_id" where
  "resolve_await_owner env st c =
     res_bind (resolve_op_identity env st c) (\<lambda>identity.
     Inr (identity, unwrap_or c (canonical_holder_id st identity)))"

definition await_mailboxes :: "broker_state \<Rightarrow> client_id \<Rightarrow> string \<Rightarrow> mailbox_name list" where
  "await_mailboxes st owner identity =
     Agent identity #
     (case bt_get (clients st) owner of
        None \<Rightarrow> []
      | Some cs \<Rightarrow> map Channel (bts_list (joined cs)))"

definition await_offset :: "broker_state \<Rightarrow> client_id \<Rightarrow> mailbox_name \<Rightarrow> nat" where
  "await_offset st owner m =
     unwrap_or 0 (Option.bind (bt_get (clients st) owner) (\<lambda>cs. bt_get (await_offsets cs) m))"

definition set_await_offset ::
  "client_id \<Rightarrow> mailbox_name \<Rightarrow> nat \<Rightarrow> broker_state \<Rightarrow> broker_state" where
  "set_await_offset owner m k =
     upd_client owner (\<lambda>cs. cs\<lparr>await_offsets := bt_insert m k (await_offsets cs)\<rparr>)"

text \<open>The identity whose own posts a drain leaves out: only channels have one.\<close>

definition awaiter_identity :: "broker_state \<Rightarrow> client_id \<Rightarrow> mailbox_name \<Rightarrow> string option" where
  "awaiter_identity st owner m =
     (case m of
        Agent _ \<Rightarrow> None
      | Channel _ \<Rightarrow>
          Option.bind (bt_get (clients st) owner) (\<lambda>cs. ok_opt (effective_identity cs)))"

definition await_policy :: "await_filter \<Rightarrow> string option \<Rightarrow> drain_policy" where
  "await_policy f who =
     \<lparr>p_filter = f, p_skip_self = who, p_require_local = True,
      p_cap = Some (CapDelivered AWAIT_BATCH_CAP)\<rparr>"

text \<open>Adding the trigger to a fully drained batch.\<close>

definition fold_trigger ::
  "ext_lib \<Rightarrow> await_filter \<Rightarrow> string option \<Rightarrow> trigger option \<Rightarrow>
   stamped_envelope list \<times> nat \<Rightarrow> stamped_envelope list \<times> nat" where
  "fold_trigger lib f who trig b =
     (let (es, k) = b in
      case trig of
        None \<Rightarrow> (es, k)
      | Some t \<Rightarrow>
          (let k' = k + tr_line_len t + JSONL_RECORD_TERMINATOR_LEN in
           if tr_origin t \<noteq> Local \<or> is_self_authored (tr_envelope t) who then (es, k')
           else if filter_matches lib f (tr_envelope t)
           then (es @ [\<lparr>st_origin = tr_origin t, st_envelope = tr_envelope t\<rparr>], k')
           else (es, k)))"

definition drain_await_batch ::
  "ext_lib \<Rightarrow> broker_env \<Rightarrow> broker_state \<Rightarrow> client_id \<Rightarrow> mailbox_name \<Rightarrow> await_filter \<Rightarrow>
   trigger option \<Rightarrow> (bus_error_kind \<times> string) + await_batch" where
  "drain_await_batch lib env st owner m f trig =
     (let since = await_offset st owner m in
      case drain_from env m since of
        Inl e \<Rightarrow> Inl (InternalKind, mailbox_err_display e)
      | Inr d \<Rightarrow>
          (let who = awaiter_identity st owner m;
               w = walk lib since d (await_policy f who);
               es = stamp_all (wo_delivered w);
               (es', k) =
                 (if wo_fully_drained w then fold_trigger lib f who trig (es, wo_next_offset w)
                  else (es, wo_next_offset w))
           in Inr \<lparr>ab_mailbox = m, ab_envelopes = es', ab_next_offset = k,
                   ab_fully_drained = wo_fully_drained w\<rparr>))"

definition await_reply_for_mailbox ::
  "ext_lib \<Rightarrow> broker_env \<Rightarrow> broker_state \<Rightarrow> client_id \<Rightarrow> mailbox_name \<Rightarrow> await_filter \<Rightarrow>
   trigger option \<Rightarrow> bus_reply \<times> broker_state" where
  "await_reply_for_mailbox lib env st c m f trig =
     (case resolve_await_owner env st c of
        Inl _ \<Rightarrow> (ErrReply NotRegistered ''client is not registered'', st)
      | Inr (_, owner) \<Rightarrow>
          (case drain_await_batch lib env st owner m f trig of
             Inl (kind, message) \<Rightarrow> (ErrReply kind message, st)
           | Inr b \<Rightarrow>
               (let st' = set_await_offset owner m (ab_next_offset b) st in
                if ab_envelopes b \<noteq> []
                then (AwaitOk (ab_envelopes b) (ab_mailbox b) (ab_next_offset b), st')
                else if \<not> ab_fully_drained b then (AwaitTimeout, st')
                else (ErrReply InternalKind ''await wake produced no matching envelopes'', st'))))"

text \<open>The loop of \<open>await_envelope\<close> over the mailboxes: a reply, or \<open>None\<close> when all were empty.\<close>

fun await_loop ::
  "ext_lib \<Rightarrow> broker_env \<Rightarrow> client_id \<Rightarrow> client_id \<Rightarrow> await_filter \<Rightarrow> mailbox_name list \<Rightarrow>
   broker_state \<Rightarrow> out list option \<times> broker_state" where
  "await_loop lib env c owner f [] st = (None, st)"
| "await_loop lib env c owner f (m # ms) st =
     (case drain_await_batch lib env st owner m f None of
        Inl (kind, message) \<Rightarrow> (Some [mk_err c kind message], st)
      | Inr b \<Rightarrow>
          (let st' = (if ab_next_offset b \<noteq> await_offset st owner m
               then set_await_offset owner m (ab_next_offset b) st else st) in
           if ab_envelopes b \<noteq> []
           then (Some [Reply c (AwaitOk (ab_envelopes b) (ab_mailbox b) (ab_next_offset b))], st')
           else await_loop lib env c owner f ms st'))"

definition await_envelope ::
  "ext_lib \<Rightarrow> broker_env \<Rightarrow> broker_state \<Rightarrow> client_id \<Rightarrow> nat \<Rightarrow> uuid option \<Rightarrow> nat \<Rightarrow>
   out list \<times> broker_state" where
  "await_envelope lib env st c timeout_ms task now =
     (case resolve_await_owner env st c of
        Inl _ \<Rightarrow> ([mk_err c NotRegistered ''client is not registered''], st)
      | Inr (identity, owner) \<Rightarrow>
          (let f = (case task of None \<Rightarrow> AnyEnvelope | Some t \<Rightarrow> TaskFilter t) in
           case await_loop lib env c owner f (await_mailboxes st owner identity) st of
             (Some outs, st') \<Rightarrow> (outs, st')
           | (None, st') \<Rightarrow>
               (let deadline = now + min timeout_ms MAX_AWAIT_MS in
                ([ParkAwait c f deadline],
                 st'\<lparr>pending_awaits :=
                   bt_insert c \<lparr>pa_filter = f, pa_deadline = deadline\<rparr> (pending_awaits st')\<rparr>))))"

definition woken_waiter_is_canonical_holder ::
  "broker_env \<Rightarrow> broker_state \<Rightarrow> string \<Rightarrow> client_id list \<Rightarrow> bool" where
  "woken_waiter_is_canonical_holder env st name waiters =
     list_ex (\<lambda>w. resolve_await_owner env st w = Inr (name, w)) waiters"

definition waits_for_name :: "broker_env \<Rightarrow> broker_state \<Rightarrow> string \<Rightarrow> client_id \<Rightarrow> bool" where
  "waits_for_name env st name c =
     (case bt_get (clients st) c of
        None \<Rightarrow> False
      | Some cs \<Rightarrow>
          connected cs \<and>
          (case (cs_name cs, bind_as cs) of
             (Some n, _) \<Rightarrow> n = name
           | (None, Some b) \<Rightarrow> b = name \<and> proxy_holder_alive env st name
           | (None, None) \<Rightarrow> False))"

definition waiting_clients_for_name ::
  "ext_lib \<Rightarrow> broker_env \<Rightarrow> broker_state \<Rightarrow> string \<Rightarrow> json \<Rightarrow> origin \<Rightarrow> client_id list" where
  "waiting_clients_for_name lib env st name envelope o' =
     (if o' \<noteq> Local then []
      else map fst (filter
        (\<lambda>(c, parked). waits_for_name env st name c \<and> filter_matches lib (pa_filter parked) envelope)
        (bt_entries (pending_awaits st))))"

end
