(* ===== verification/Handle.thy ===== *)
theory Handle
  imports Awaiting
begin

text \<open>
  The broker actor's dispatch and handlers (\<open>famp-bus/src/broker/handle.rs\<close>). A handler maps the
  state to the staged effects and the new state; \<open>wall\<close> is the wall clock, read once per input.
  The one \<open>expect\<close> of the code, in \<open>inbox\<close>, is \<open>None\<close>.
\<close>

subsection \<open>Helpers\<close>

definition client_origin :: "broker_state \<Rightarrow> client_id \<Rightarrow> origin" where
  "client_origin st c =
     (case bt_get (clients st) c of
        None \<Rightarrow> Unknown
      | Some cs \<Rightarrow>
          if cs_name cs \<noteq> None then cs_origin cs
          else (case bind_as cs of
              None \<Rightarrow> Unknown
            | Some bound \<Rightarrow>
                (case Option.bind (canonical_holder_id st bound) (bt_get (clients st)) of
                   None \<Rightarrow> Unknown
                 | Some holder \<Rightarrow> cs_origin holder)))"

definition connected_names :: "(client_id, client_state) btree \<Rightarrow> string list" where
  "connected_names cl = List.map_filter cs_name (filter connected (bt_values cl))"

definition encode_envelope :: "ext_lib \<Rightarrow> json \<Rightarrow> client_id \<Rightarrow> out + bytes" where
  "encode_envelope lib envelope c =
     (case canonicalize lib envelope of
        Inl e \<Rightarrow> Inl (mk_err c EnvelopeInvalid (canonical_error_display e))
      | Inr line \<Rightarrow>
          if MAX_FRAME_BYTES < length line then Inl (mk_err c EnvelopeTooLarge ''envelope too large'')
          else Inr line)"

definition task_id_from :: "ext_lib \<Rightarrow> json \<Rightarrow> uuid" where
  "task_id_from lib envelope =
     unwrap_or 0 (Option.bind (jget_str envelope ''id'') (uuid_parse lib))"

definition send_ok ::
  "client_id \<Rightarrow> uuid \<Rightarrow> target \<Rightarrow> bool \<Rightarrow> bool \<Rightarrow> string option \<Rightarrow> out" where
  "send_ok c task to ok woken addr =
     Reply c (SendOk task [\<lparr>dl_to = to, dl_ok = ok, dl_woken = woken, dl_wake_addr = addr\<rparr>])"

abbreviation not_registered :: "client_id \<Rightarrow> out list" where
  "not_registered c \<equiv> [mk_err c NotRegistered ''client is not registered'']"

subsection \<open>Hello, listen mode, wake address\<close>

definition touch_activity :: "nat \<Rightarrow> broker_state \<Rightarrow> client_id \<Rightarrow> broker_state" where
  "touch_activity wall st c =
     (let target =
        (case bt_get (clients st) c of
           None \<Rightarrow> None
         | Some cs \<Rightarrow>
             if \<not> connected cs then None
             else if cs_name cs \<noteq> None then Some c
             else Option.bind (bind_as cs) (canonical_holder_id st))
      in case target of
           None \<Rightarrow> st
         | Some t \<Rightarrow> upd_client t (\<lambda>cs. cs\<lparr>last_activity := wall\<rparr>) st)"

definition hello_client :: "nat \<Rightarrow> string option \<Rightarrow> client_state" where
  "hello_client wall b =
     \<lparr>handshaked = True, cs_name = None, cs_pid = None, joined = bt_empty, connected = True,
      bind_as = b, cwd = None, listen_mode = False, wake_addr = None, cs_origin = Unknown,
      registered_at = wall, last_activity = wall, await_offsets = bt_empty,
      inbox_offsets = bt_empty\<rparr>"

definition hello ::
  "broker_env \<Rightarrow> nat \<Rightarrow> broker_state \<Rightarrow> client_id \<Rightarrow> u32 \<Rightarrow> string option \<Rightarrow>
   out list \<times> broker_state" where
  "hello env wall st c bus_proto b =
     (if bus_proto \<noteq> BUS_PROTO_VERSION
      then ([Reply c (HelloErr BrokerProtoMismatch
               (''client bus_proto='' @ show_nat (unat bus_proto) @
                '' is not supported by this broker; expected bus_proto='' @
                show_nat (unat BUS_PROTO_VERSION)))], st)
      else (case b of
          Some name \<Rightarrow>
            if \<not> proxy_holder_alive env st name
            then ([Reply c (HelloErr NotRegistered
                     (''bind_as identity '' @ quoted name @ '' is not registered''))], st)
            else ([Reply c (HelloOk BUS_PROTO_VERSION)],
                  st\<lparr>clients := bt_insert c (hello_client wall (Some name)) (clients st)\<rparr>)
        | None \<Rightarrow>
            ([Reply c (HelloOk BUS_PROTO_VERSION)],
             st\<lparr>clients := bt_insert c (hello_client wall None) (clients st)\<rparr>)))"

text \<open>The guard \<open>set_listen\<close> and \<open>set_wake_addr\<close> share: the error text, if the client holds no slot.\<close>

definition holder_guard :: "broker_state \<Rightarrow> client_id \<Rightarrow> string \<Rightarrow> string option" where
  "holder_guard st c op =
     (case bt_get (clients st) c of
        None \<Rightarrow> Some ''client is not registered''
      | Some cs \<Rightarrow>
          if \<not> connected cs then Some ''client is not registered''
          else if bind_as cs \<noteq> None \<and> cs_name cs = None
          then Some (''proxy (bind_as) connection cannot '' @ op)
          else if cs_name cs = None then Some ''client is not registered''
          else None)"

definition set_listen ::
  "nat \<Rightarrow> broker_state \<Rightarrow> client_id \<Rightarrow> bool \<Rightarrow> out list \<times> broker_state" where
  "set_listen wall st c listen =
     (case holder_guard st c ''set_listen'' of
        Some msg \<Rightarrow> ([mk_err c NotRegistered msg], st)
      | None \<Rightarrow>
          ([Reply c (SetListenOk listen)],
           upd_client c (\<lambda>cs. cs\<lparr>listen_mode := listen, last_activity := wall\<rparr>) st))"

definition set_wake_addr ::
  "nat \<Rightarrow> broker_state \<Rightarrow> client_id \<Rightarrow> string option \<Rightarrow> out list \<times> broker_state" where
  "set_wake_addr wall st c addr =
     (case holder_guard st c ''set_wake_addr'' of
        Some msg \<Rightarrow> ([mk_err c NotRegistered msg], st)
      | None \<Rightarrow>
          (let stored = option_filter wake_addr_valid addr in
           ([Reply c (SetWakeAddrOk stored)],
            upd_client c (\<lambda>cs. cs\<lparr>wake_addr := stored, last_activity := wall\<rparr>) st)))"

subsection \<open>Register\<close>

definition name_taken :: "broker_state \<Rightarrow> client_id \<Rightarrow> string \<Rightarrow> bool" where
  "name_taken st c name =
     list_ex (\<lambda>(i, cs). i \<noteq> c \<and> connected cs \<and> cs_name cs = Some name) (bt_entries (clients st))"

definition frame_too_large :: "string \<Rightarrow> frame_error \<Rightarrow> string" where
  "frame_too_large what e = what @ '' exceeds 16 MiB reply-frame limit: '' @ frame_error_display e"

definition register_client ::
  "nat \<Rightarrow> string \<Rightarrow> u32 \<Rightarrow> string option \<Rightarrow> bool \<Rightarrow> origin option \<Rightarrow> nat \<Rightarrow> client_state \<Rightarrow> client_state" where
  "register_client wall name pid dir listen o' k cs =
     cs\<lparr>cs_name := Some name, cs_pid := Some pid, connected := True, cwd := dir,
        listen_mode := listen, cs_origin := unwrap_or origin_default o',
        registered_at := wall, last_activity := wall,
        await_offsets := bt_insert (Agent name) k (await_offsets cs)\<rparr>"

definition register ::
  "ext_lib \<Rightarrow> broker_env \<Rightarrow> nat \<Rightarrow> broker_state \<Rightarrow> client_id \<Rightarrow> string \<Rightarrow> u32 \<Rightarrow> string option \<Rightarrow>
   bool \<Rightarrow> origin option \<Rightarrow> out list \<times> broker_state" where
  "register lib env wall st c name pid dir listen o' =
     (if pid = 0
      then ([mk_err c EnvelopeInvalid ''pid 0 is not a valid process identifier''], st)
      else if Option.bind (bt_get (clients st) c) bind_as \<noteq> None
      then ([mk_err c NotRegistered ''proxy (bind_as) connection cannot register''], st)
      else if name_taken st c name
      then ([mk_err c NameTaken ''name already registered''], st)
      else (case drain_from env (Agent name) 0 of
          Inl e \<Rightarrow> ([mk_err c InternalKind (mailbox_err_display e)], st)
        | Inr d \<Rightarrow>
            (let reply = RegisterOk name (stamp_all (decode_lines lib 0 d))
                   (connected_names (clients st)) in
             case encode_frame lib (reply_to_json lib reply) of
               Inl e \<Rightarrow> ([mk_err c EnvelopeTooLarge (frame_too_large ''RegisterOk'' e)], st)
             | Inr _ \<Rightarrow>
                 (case bt_get (clients st) c of
                    None \<Rightarrow>
                      ([mk_err c BrokerProtoMismatch ''Hello required as first frame''], st)
                  | Some _ \<Rightarrow>
                      ([Reply c reply, AdvanceCursor (Agent name) (next_offset d)],
                       upd_client c
                         (register_client wall name pid dir listen o' (next_offset d)) st)))))"

subsection \<open>Send\<close>

definition recipient_wake_addr :: "broker_state \<Rightarrow> string \<Rightarrow> origin \<Rightarrow> string option" where
  "recipient_wake_addr st name o' =
     (if o' \<noteq> Local then None
      else (case Option.bind (canonical_holder_id st name) (bt_get (clients st)) of
          None \<Rightarrow> None
        | Some cs \<Rightarrow> if \<not> listen_mode cs then None else wake_addr cs))"

text \<open>Answering the selected waiters, one after the other.\<close>

fun wake_waiters ::
  "ext_lib \<Rightarrow> broker_env \<Rightarrow> mailbox_name \<Rightarrow> trigger \<Rightarrow> client_id list \<Rightarrow> broker_state \<Rightarrow>
   out list \<times> broker_state" where
  "wake_waiters lib env m t [] st = ([], st)"
| "wake_waiters lib env m t (w # ws) st =
     (case bt_get (pending_awaits st) w of
        None \<Rightarrow> wake_waiters lib env m t ws st
      | Some parked \<Rightarrow>
          (let (reply, st') = await_reply_for_mailbox lib env (unpark w st) w m (pa_filter parked) (Some t);
               (outs, st'') = wake_waiters lib env m t ws st'
           in (Reply w reply # UnparkAwait w # outs, st'')))"

definition send_agent ::
  "ext_lib \<Rightarrow> broker_env \<Rightarrow> broker_state \<Rightarrow> client_id \<Rightarrow> string \<Rightarrow> json \<Rightarrow> bytes \<Rightarrow>
   out list \<times> broker_state" where
  "send_agent lib env st sender name envelope line =
     (let task = task_id_from lib envelope;
          o' = client_origin st sender;
          waiters = waiting_clients_for_name lib env st name envelope o';
          addr = (if woken_waiter_is_canonical_holder env st name waiters then None
                  else recipient_wake_addr st name o')
      in case stamp_line lib line o' of
           Inl _ \<Rightarrow> ([mk_err sender InternalKind ''failed to stamp mailbox record''], st)
         | Inr stamped \<Rightarrow>
             (let t = \<lparr>tr_origin = o', tr_envelope = envelope, tr_line_len = length stamped\<rparr>;
                  (outs, st') = wake_waiters lib env (Agent name) t waiters st
              in (AppendMailbox (Agent name) line o' # outs @
                    [send_ok sender task (ToAgent name) True (waiters \<noteq> []) addr], st')))"

fun wake_members ::
  "ext_lib \<Rightarrow> broker_env \<Rightarrow> string \<Rightarrow> trigger \<Rightarrow> string list \<Rightarrow> broker_state \<Rightarrow>
   out list \<times> broker_state" where
  "wake_members lib env channel t [] st = ([], st)"
| "wake_members lib env channel t (member # ms) st =
     (if is_self_authored (tr_envelope t) (Some member) then wake_members lib env channel t ms st
      else
        (let waiters = waiting_clients_for_name lib env st member (tr_envelope t) (tr_origin t);
             (outs, st') = wake_waiters lib env (Channel channel) t waiters st;
             (outs', st'') = wake_members lib env channel t ms st'
         in (outs @ outs', st'')))"

definition channel_members :: "broker_state \<Rightarrow> string \<Rightarrow> string btset" where
  "channel_members st channel = unwrap_or bt_empty (bt_get (channels st) channel)"

definition send_channel ::
  "ext_lib \<Rightarrow> broker_env \<Rightarrow> broker_state \<Rightarrow> client_id \<Rightarrow> string \<Rightarrow> json \<Rightarrow> bytes \<Rightarrow>
   out list \<times> broker_state" where
  "send_channel lib env st sender name envelope line =
     (let members = bts_list (channel_members st name);
          task = task_id_from lib envelope;
          o' = client_origin st sender
      in case stamp_line lib line o' of
           Inl _ \<Rightarrow> ([mk_err sender InternalKind ''failed to stamp mailbox record''], st)
         | Inr stamped \<Rightarrow>
             (let t = \<lparr>tr_origin = o', tr_envelope = envelope, tr_line_len = length stamped\<rparr>;
                  (outs, st') = wake_members lib env name t members st;
                  rows = map (\<lambda>m. \<lparr>dl_to = ToAgent m, dl_ok = True, dl_woken = False,
                    dl_wake_addr = None\<rparr>) members
              in (AppendMailbox (Channel name) line o' # outs @ [Reply sender (SendOk task rows)], st')))"

definition send ::
  "ext_lib \<Rightarrow> broker_env \<Rightarrow> broker_state \<Rightarrow> client_id \<Rightarrow> target \<Rightarrow> json \<Rightarrow>
   out list \<times> broker_state" where
  "send lib env st c to envelope =
     (case resolve_op_identity env st c of
        Inl _ \<Rightarrow> (not_registered c, st)
      | Inr identity \<Rightarrow>
          if \<not> is_self_authored envelope (Some identity)
          then ([mk_err c EnvelopeInvalid
                   (''envelope '' @ quoted ''from'' @ '' does not match the authenticated identity'')], st)
          else (case encode_envelope lib envelope c of
              Inl reply \<Rightarrow> ([reply], st)
            | Inr line \<Rightarrow>
                (case to of
                   ToAgent name \<Rightarrow> send_agent lib env st c name envelope line
                 | ToChannel name \<Rightarrow> send_channel lib env st c name envelope line)))"

subsection \<open>Inbox\<close>

definition CHANNEL_DRAIN_CAP :: nat where "CHANNEL_DRAIN_CAP = 256"

definition inbox_policy :: "string \<Rightarrow> drain_policy" where
  "inbox_policy name =
     \<lparr>p_filter = AnyEnvelope, p_skip_self = Some name, p_require_local = False,
      p_cap = Some (CapScanned CHANNEL_DRAIN_CAP)\<rparr>"

definition inbox_offset :: "broker_state \<Rightarrow> client_id \<Rightarrow> mailbox_name \<Rightarrow> nat" where
  "inbox_offset st holder m =
     unwrap_or 0 (Option.bind (bt_get (clients st) holder) (\<lambda>cs. bt_get (inbox_offsets cs) m))"

text \<open>One channel of a poll: what it adds to the reply, and the cursor to store if any.\<close>

definition inbox_channel ::
  "ext_lib \<Rightarrow> string \<Rightarrow> nat \<Rightarrow> drain_result \<Rightarrow> stamped_envelope list \<times> nat option" where
  "inbox_channel lib name cursor d =
     (if records d = []
      then ([], if next_offset d < cursor then Some (next_offset d) else None)
      else (let w = walk lib cursor d (inbox_policy name) in
        (stamp_all (wo_delivered w),
         Some (if CHANNEL_DRAIN_CAP < length (records d) then wo_next_offset w
               else next_offset d))))"

fun inbox_channels ::
  "ext_lib \<Rightarrow> broker_env \<Rightarrow> broker_state \<Rightarrow> client_id \<Rightarrow> string \<Rightarrow> string list \<Rightarrow>
   mailbox_err + stamped_envelope list \<times> (mailbox_name \<times> nat) list" where
  "inbox_channels lib env st holder name [] = Inr ([], [])"
| "inbox_channels lib env st holder name (ch # chs) =
     (case drain_from env (Channel ch) (inbox_offset st holder (Channel ch)) of
        Inl e \<Rightarrow> Inl e
      | Inr d \<Rightarrow>
          (let (es, k) = inbox_channel lib name (inbox_offset st holder (Channel ch)) d in
           res_bind (inbox_channels lib env st holder name chs) (\<lambda>(es', ks).
           Inr (es @ es', (case k of None \<Rightarrow> ks | Some k \<Rightarrow> (Channel ch, k) # ks)))))"

fun set_inbox_offsets ::
  "client_id \<Rightarrow> (mailbox_name \<times> nat) list \<Rightarrow> broker_state \<Rightarrow> broker_state" where
  "set_inbox_offsets holder [] st = st"
| "set_inbox_offsets holder ((m, k) # ks) st =
     set_inbox_offsets holder ks
       (upd_client holder (\<lambda>cs. cs\<lparr>inbox_offsets := bt_insert m k (inbox_offsets cs)\<rparr>) st)"

definition inbox ::
  "ext_lib \<Rightarrow> broker_env \<Rightarrow> broker_state \<Rightarrow> client_id \<Rightarrow> nat option \<Rightarrow> bool option \<Rightarrow>
   (out list \<times> broker_state) option" where
  "inbox lib env st c since include_terminal =
     (case resolve_op_identity env st c of
        Inl _ \<Rightarrow> Some (not_registered c, st)
      | Inr name \<Rightarrow>
          (case drain_from env (Agent name) (unwrap_or 0 since) of
             Inl e \<Rightarrow> Some ([mk_err c InternalKind (mailbox_err_display e)], st)
           | Inr d \<Rightarrow>
               (let own = stamp_all (decode_lines lib (unwrap_or 0 since) d) in
                case canonical_holder_id st name of
                  None \<Rightarrow> None
                | Some holder \<Rightarrow>
                    (let chs = (case bt_get (clients st) holder of
                         None \<Rightarrow> [] | Some cs \<Rightarrow> bts_list (joined cs)) in
                     case inbox_channels lib env st holder name chs of
                       Inl e \<Rightarrow> Some ([mk_err c InternalKind (mailbox_err_display e)], st)
                     | Inr (es, ks) \<Rightarrow>
                         (let reply = InboxOk (own @ es) (next_offset d) in
                          case encode_frame lib (reply_to_json lib reply) of
                            Inl e \<Rightarrow>
                              Some ([mk_err c EnvelopeTooLarge (frame_too_large ''InboxOk'' e)], st)
                          | Inr _ \<Rightarrow> Some ([Reply c reply], set_inbox_offsets holder ks st))))))"

subsection \<open>Join and leave\<close>

definition join_members ::
  "broker_state \<Rightarrow> string \<Rightarrow> string \<Rightarrow> string option \<Rightarrow> member_info list" where
  "join_members st channel name role =
     map (\<lambda>m. \<lparr>mi_name = m,
          mi_role = (if m = name then option_or role (bt_get (channel_roles st) (channel, m))
                     else bt_get (channel_roles st) (channel, m))\<rparr>)
       (bts_list (bts_insert name (channel_members st channel)))"

definition join_client :: "string \<Rightarrow> nat \<Rightarrow> client_state \<Rightarrow> client_state" where
  "join_client channel k cs =
     cs\<lparr>joined := bts_insert channel (joined cs),
        await_offsets := bt_insert (Channel channel) k (await_offsets cs),
        inbox_offsets := bt_insert (Channel channel) k (inbox_offsets cs)\<rparr>"

definition commit_join ::
  "string \<Rightarrow> string \<Rightarrow> string option \<Rightarrow> client_id \<Rightarrow> nat \<Rightarrow> broker_state \<Rightarrow> broker_state" where
  "commit_join channel name role holder k st =
     (let st1 = st\<lparr>channels := bt_insert channel (bts_insert name (channel_members st channel))
                     (channels st)\<rparr>;
          st2 = upd_client holder (join_client channel k) st1
      in case role of
           None \<Rightarrow> st2
         | Some r \<Rightarrow> st2\<lparr>channel_roles := bt_insert (channel, name) r (channel_roles st2)\<rparr>)"

definition join ::
  "ext_lib \<Rightarrow> broker_env \<Rightarrow> broker_state \<Rightarrow> client_id \<Rightarrow> string \<Rightarrow> string option \<Rightarrow>
   out list \<times> broker_state" where
  "join lib env st c channel role =
     (case resolve_op_identity env st c of
        Inl _ \<Rightarrow> (not_registered c, st)
      | Inr name \<Rightarrow>
          (let holder = unwrap_or c (canonical_holder_id st name) in
           case drain_from env (Channel channel) 0 of
             Inl e \<Rightarrow> ([mk_err c InternalKind (mailbox_err_display e)], st)
           | Inr d \<Rightarrow>
               (let reply = JoinOk channel (join_members st channel name role)
                      (stamp_all (decode_lines lib 0 d)) in
                case encode_frame lib (reply_to_json lib reply) of
                  Inl e \<Rightarrow> ([mk_err c EnvelopeTooLarge (frame_too_large ''JoinOk'' e)], st)
                | Inr _ \<Rightarrow>
                    ([Reply c reply, AdvanceCursor (Channel channel) (next_offset d)],
                     commit_join channel name role holder (next_offset d) st))))"

definition leave_client :: "string \<Rightarrow> client_state \<Rightarrow> client_state" where
  "leave_client channel cs =
     cs\<lparr>joined := bt_remove channel (joined cs),
        await_offsets := bt_remove (Channel channel) (await_offsets cs),
        inbox_offsets := bt_remove (Channel channel) (inbox_offsets cs)\<rparr>"

definition leave ::
  "broker_env \<Rightarrow> broker_state \<Rightarrow> client_id \<Rightarrow> string \<Rightarrow> out list \<times> broker_state" where
  "leave env st c channel =
     (case resolve_op_identity env st c of
        Inl _ \<Rightarrow> (not_registered c, st)
      | Inr name \<Rightarrow>
          (let st1 = st\<lparr>channels := bt_update channel (bt_remove name) (channels st)\<rparr>;
               holder = unwrap_or c (canonical_holder_id st1 name);
               st2 = upd_client holder (leave_client channel) st1;
               st3 = st2\<lparr>channel_roles := bt_remove (channel, name) (channel_roles st2)\<rparr>
           in ([Reply c (LeaveOk channel)], st3)))"

subsection \<open>Sessions and whoami\<close>

definition session_row_of :: "client_state \<Rightarrow> session_row option" where
  "session_row_of cs =
     Option.bind (cs_name cs) (\<lambda>n. Option.bind (cs_pid cs) (\<lambda>p.
     Some \<lparr>sr_name = n, sr_pid = p, sr_joined = bts_list (joined cs)\<rparr>))"

definition sessions :: "broker_state \<Rightarrow> client_id \<Rightarrow> out list" where
  "sessions st c =
     [Reply c (SessionsOk
        (List.map_filter session_row_of (filter connected (bt_values (clients st)))))]"

definition whoami :: "broker_env \<Rightarrow> broker_state \<Rightarrow> client_id \<Rightarrow> out list" where
  "whoami env st c =
     (let (active, js) =
        (case bt_get (clients st) c of
           None \<Rightarrow> (None, [])
         | Some cs \<Rightarrow>
             if cs_name cs \<noteq> None then (cs_name cs, bts_list (joined cs))
             else (case bind_as cs of
                 Some bound \<Rightarrow>
                   if proxy_holder_alive env st bound
                   then (Some bound,
                         (case Option.bind (canonical_holder_id st bound) (bt_get (clients st)) of
                            None \<Rightarrow> [] | Some h \<Rightarrow> bts_list (joined h)))
                   else (None, [])
               | None \<Rightarrow> (None, [])))
      in [Reply c (WhoamiOk active js)])"

subsection \<open>Disconnect and tick\<close>

definition drop_client :: "client_id \<Rightarrow> broker_state \<Rightarrow> broker_state" where
  "drop_client c st =
     st\<lparr>clients := bt_remove c (clients st), pending_awaits := bt_remove c (pending_awaits st)\<rparr>"

definition disconnect :: "broker_state \<Rightarrow> client_id \<Rightarrow> out list \<times> broker_state" where
  "disconnect st c =
     (let cs = bt_get (clients st) c;
          is_proxy = (case cs of None \<Rightarrow> False | Some cs \<Rightarrow> bind_as cs \<noteq> None \<and> cs_name cs = None);
          snapshot = (case cs of None \<Rightarrow> None | Some cs \<Rightarrow> if is_proxy then None else session_row_of cs)
      in if is_proxy then ([ReleaseClient c], drop_client c st)
         else (case snapshot of
             None \<Rightarrow> ([ReleaseClient c], drop_client c st)
           | Some row \<Rightarrow>
               ([SessionEnded (sr_name row) (sr_pid row) (sr_joined row), ReleaseClient c],
                drop_client c
                  (st\<lparr>channels := bt_map (\<lambda>_. bt_remove (sr_name row)) (channels st)\<rparr>))))"

fun disconnect_all :: "client_id list \<Rightarrow> broker_state \<Rightarrow> out list \<times> broker_state" where
  "disconnect_all [] st = ([], st)"
| "disconnect_all (c # cs) st =
     (let (outs, st') = disconnect st c; (outs', st'') = disconnect_all cs st'
      in (outs @ outs', st''))"

fun expire_all :: "client_id list \<Rightarrow> broker_state \<Rightarrow> out list \<times> broker_state" where
  "expire_all [] st = ([], st)"
| "expire_all (c # cs) st =
     (let (outs, st') = expire_all cs (unpark c st)
      in (Reply c AwaitTimeout # UnparkAwait c # outs, st'))"

definition dead_clients :: "broker_env \<Rightarrow> broker_state \<Rightarrow> client_id list" where
  "dead_clients env st =
     map fst (filter (\<lambda>(c, cs). case cs_pid cs of None \<Rightarrow> False | Some pid \<Rightarrow> \<not> is_alive env pid)
       (bt_entries (clients st)))"

definition expired_awaits :: "nat \<Rightarrow> broker_state \<Rightarrow> client_id list" where
  "expired_awaits now st =
     map fst (filter (\<lambda>(c, p). pa_deadline p \<le> now) (bt_entries (pending_awaits st)))"

definition tick :: "broker_env \<Rightarrow> broker_state \<Rightarrow> nat \<Rightarrow> out list \<times> broker_state" where
  "tick env st now =
     (let (outs, st1) = disconnect_all (dead_clients env st) st;
          (outs', st2) = expire_all (expired_awaits now st1) st1
      in (outs @ outs', st2))"

subsection \<open>Dispatch\<close>

fun is_hello :: "bus_message \<Rightarrow> bool" where
  "is_hello (Hello _ _ _) = True"
| "is_hello _ = False"

fun touches :: "bus_message \<Rightarrow> bool" where
  "touches (Hello _ _ _) = False"
| "touches (Register _ _ _ _ _) = False"
| "touches (SetListen _) = False"
| "touches (SetWakeAddr _) = False"
| "touches _ = True"

fun dispatch ::
  "ext_lib \<Rightarrow> broker_env \<Rightarrow> nat \<Rightarrow> broker_state \<Rightarrow> client_id \<Rightarrow> bus_message \<Rightarrow> nat \<Rightarrow>
   (out list \<times> broker_state) option" where
  "dispatch lib env wall st c (Hello p _ b) now = Some (hello env wall st c p b)"
| "dispatch lib env wall st c (Register n pid dir l o') now =
     Some (register lib env wall st c n pid dir l o')"
| "dispatch lib env wall st c (Send to e) now = Some (send lib env st c to e)"
| "dispatch lib env wall st c (Inbox since it) now = inbox lib env st c since it"
| "dispatch lib env wall st c (Await ms task) now = Some (await_envelope lib env st c ms task now)"
| "dispatch lib env wall st c (Join ch role) now = Some (join lib env st c ch role)"
| "dispatch lib env wall st c (Leave ch) now = Some (leave env st c ch)"
| "dispatch lib env wall st c Sessions now = Some (sessions st c, st)"
| "dispatch lib env wall st c Whoami now = Some (whoami env st c, st)"
| "dispatch lib env wall st c (Inspect k) now = Some ([InspectRequest c k], st)"
| "dispatch lib env wall st c (SetListen l) now = Some (set_listen wall st c l)"
| "dispatch lib env wall st c (SetWakeAddr a) now = Some (set_wake_addr wall st c a)"

definition handle_wire ::
  "ext_lib \<Rightarrow> broker_env \<Rightarrow> nat \<Rightarrow> broker_state \<Rightarrow> client_id \<Rightarrow> bus_message \<Rightarrow> nat \<Rightarrow>
   (out list \<times> broker_state) option" where
  "handle_wire lib env wall st c msg now =
     (let already = map_option handshaked (bt_get (clients st) c) = Some True in
      if \<not> is_hello msg \<and> \<not> already
      then Some ([mk_err c BrokerProtoMismatch ''Hello required as first frame''], st)
      else if is_hello msg \<and> already
      then Some ([mk_err c BrokerProtoMismatch ''Hello already received on this connection''], st)
      else dispatch lib env wall (if touches msg then touch_activity wall st c else st) c msg now)"

fun handle ::
  "ext_lib \<Rightarrow> broker_env \<Rightarrow> nat \<Rightarrow> broker_state \<Rightarrow> broker_input \<Rightarrow> nat \<Rightarrow>
   (out list \<times> broker_state) option" where
  "handle lib env wall st (Wire c msg) now = handle_wire lib env wall st c msg now"
| "handle lib env wall st (Disconnect c) now = Some (disconnect st c)"
| "handle lib env wall st Tick now = Some (tick env st now)"

end
