(* ===== verification/BrokerInv.thy ===== *)
theory BrokerInv
  imports Handle
begin

text \<open>
  The broker's invariant and that every input keeps it, whatever the mailboxes and the process
  table say at that moment. The step relation leaves the environment free at each step: files
  are appended to and truncated, and processes die, between inputs.
\<close>

inductive broker_step :: "ext_lib \<Rightarrow> broker_state \<Rightarrow> broker_state \<Rightarrow> bool" for lib where
  "handle lib env wall st input now = Some (outs, st') \<Longrightarrow> broker_step lib st st'"

inductive broker_reach :: "ext_lib \<Rightarrow> broker_state \<Rightarrow> bool" for lib where
  start: "broker_reach lib (broker_new wall)"
| step: "broker_reach lib st \<Longrightarrow> broker_step lib st st' \<Longrightarrow> broker_reach lib st'"

subsection \<open>The invariant\<close>

definition client_ok :: "client_state \<Rightarrow> bool" where
  "client_ok cs \<longleftrightarrow>
     handshaked cs \<and> connected cs \<and>
     (cs_name cs = None \<longleftrightarrow> cs_pid cs = None) \<and> cs_pid cs \<noteq> Some 0 \<and>
     (bind_as cs \<noteq> None \<longrightarrow> cs_name cs = None) \<and>
     (cs_name cs = None \<longrightarrow>
        joined cs = bt_empty \<and> wake_addr cs = None \<and> \<not> listen_mode cs \<and> cs_origin cs = Unknown \<and>
        await_offsets cs = bt_empty) \<and>
     (\<forall>a. wake_addr cs = Some a \<longrightarrow> wake_addr_valid a) \<and>
     (\<forall>m. bt_get (inbox_offsets cs) m \<noteq> None \<longleftrightarrow> (\<exists>ch. m = Channel ch \<and> bts_mem ch (joined cs)))"

definition holder :: "broker_state \<Rightarrow> string \<Rightarrow> client_id \<Rightarrow> bool" where
  "holder st n c \<longleftrightarrow> (\<exists>cs. bt_get (clients st) c = Some cs \<and> cs_name cs = Some n)"

definition broker_inv :: "broker_state \<Rightarrow> bool" where
  "broker_inv st \<longleftrightarrow>
     (\<forall>c cs. bt_get (clients st) c = Some cs \<longrightarrow> client_ok cs) \<and>
     (\<forall>n c d. holder st n c \<longrightarrow> holder st n d \<longrightarrow> c = d) \<and>
     (\<forall>c. bt_get (pending_awaits st) c \<noteq> None \<longrightarrow>
        (\<exists>cs. bt_get (clients st) c = Some cs \<and> (cs_name cs \<noteq> None \<or> bind_as cs \<noteq> None)))"

lemma broker_invD:
  assumes "broker_inv st"
  shows "bt_get (clients st) c = Some cs \<Longrightarrow> client_ok cs"
    and "holder st n c \<Longrightarrow> holder st n d \<Longrightarrow> c = d"
    and "bt_get (pending_awaits st) c = Some p \<Longrightarrow>
      \<exists>cs. bt_get (clients st) c = Some cs \<and> (cs_name cs \<noteq> None \<or> bind_as cs \<noteq> None)"
  using assms unfolding broker_inv_def by auto

lemma broker_new_inv: "broker_inv (broker_new wall)"
  by (simp add: broker_inv_def broker_new_def holder_def)

subsection \<open>Identity under the invariant\<close>

lemma upd_client_simps [simp]:
  "clients (upd_client c f st) = bt_update c f (clients st)"
  "channels (upd_client c f st) = channels st"
  "pending_awaits (upd_client c f st) = pending_awaits st"
  "channel_roles (upd_client c f st) = channel_roles st"
  by (simp_all add: upd_client_def)

lemma unpark_simps [simp]:
  "clients (unpark c st) = clients st"
  "channels (unpark c st) = channels st"
  "pending_awaits (unpark c st) = bt_remove c (pending_awaits st)"
  "channel_roles (unpark c st) = channel_roles st"
  by (simp_all add: unpark_def)

lemma canonical_holder_id_Some:
  assumes "broker_inv st"
  shows "canonical_holder_id st n = Some c \<longleftrightarrow> holder st n c"
proof
  assume "canonical_holder_id st n = Some c"
  then show "holder st n c"
    unfolding canonical_holder_id_def holder_def by (rule bt_find_key_Some) auto
next
  assume h: "holder st n c"
  then obtain cs where cs: "bt_get (clients st) c = Some cs" "cs_name cs = Some n"
    by (auto simp: holder_def)
  have "client_ok cs" using broker_invD(1) [OF assms cs(1)] .
  then show "canonical_holder_id st n = Some c"
    unfolding canonical_holder_id_def
    by (intro bt_find_key_unique [of _ _ cs])
      (use cs broker_invD(2) [OF assms h] in \<open>auto simp: client_ok_def holder_def\<close>)
qed

lemma canonical_holder_id_None:
  "broker_inv st \<Longrightarrow> canonical_holder_id st n = None \<longleftrightarrow> (\<forall>c. \<not> holder st n c)"
  using canonical_holder_id_Some [of st n] by (metis not_None_eq)

lemma proxy_holder_alive_holder:
  "proxy_holder_alive env st n \<Longrightarrow> \<exists>c. holder st n c"
  by (fastforce simp: proxy_holder_alive_def list_ex_iff bt_values_iff holder_def)

lemma resolve_holder:
  assumes inv: "broker_inv st" and r: "resolve_op_identity env st c = Inr n"
  obtains h where "canonical_holder_id st n = Some h" "holder st n h"
proof -
  obtain cs where cs: "bt_get (clients st) c = Some cs"
    using r by (auto simp: resolve_op_identity_def split: option.splits)
  have "\<exists>h. holder st n h"
  proof (cases "cs_name cs")
    case None
    then show ?thesis
      using r cs proxy_holder_alive_holder
      by (auto simp: resolve_op_identity_def split: sum.splits if_splits)
  next
    case (Some m)
    then have "m = n"
      using r cs by (auto simp: resolve_op_identity_def effective_identity_def split: if_splits)
    then show ?thesis using Some cs by (auto simp: holder_def)
  qed
  then obtain h where "holder st n h" by blast
  then show thesis using that canonical_holder_id_Some [OF inv] by blast
qed

lemma resolve_await_owner_holder:
  assumes "broker_inv st" "resolve_await_owner env st c = Inr (n, h)"
  shows "holder st n h" "resolve_op_identity env st c = Inr n"
proof -
  have r: "resolve_op_identity env st c = Inr n" "h = unwrap_or c (canonical_holder_id st n)"
    using assms(2) by (auto simp: resolve_await_owner_def res_bind_Inr_iff)
  then show "holder st n h" using resolve_holder [OF assms(1) r(1)] by (metis unwrap_or.simps(2))
  show "resolve_op_identity env st c = Inr n" by (rule r(1))
qed

subsection \<open>Updates that keep the invariant\<close>

text \<open>Updates of one entry that keep who it is.\<close>

lemma upd_client_inv:
  assumes inv: "broker_inv st"
    and f: "\<And>cs. bt_get (clients st) c = Some cs \<Longrightarrow> client_ok cs \<Longrightarrow>
      client_ok (f cs) \<and> cs_name (f cs) = cs_name cs \<and> bind_as (f cs) = bind_as cs"
  shows "broker_inv (upd_client c f st)"
proof -
  have h: "holder (upd_client c f st) n d \<longleftrightarrow> holder st n d" for n d
    using f broker_invD(1) [OF inv] by (auto simp: holder_def)
  show ?thesis
    unfolding broker_inv_def h
    using inv f by (auto simp: broker_inv_def)
qed

lemma holder_upd_client:
  assumes "broker_inv st" and
    "\<And>cs. bt_get (clients st) c = Some cs \<Longrightarrow> cs_name (f cs) = cs_name cs"
  shows "holder (upd_client c f st) n d \<longleftrightarrow> holder st n d"
  using assms(2) by (auto simp: holder_def)

lemma unpark_inv: "broker_inv st \<Longrightarrow> broker_inv (unpark c st)"
  by (auto simp: broker_inv_def holder_def)

lemma channels_inv:
  "broker_inv st \<Longrightarrow> broker_inv (st\<lparr>channels := ch\<rparr>)"
  "broker_inv st \<Longrightarrow> broker_inv (st\<lparr>channel_roles := ro\<rparr>)"
  by (auto simp: broker_inv_def holder_def)

lemma holder_named: "holder st n c \<Longrightarrow> bt_get (clients st) c = Some cs \<Longrightarrow> cs_name cs = Some n"
  by (auto simp: holder_def)

lemma set_await_offset_inv:
  assumes "broker_inv st" "holder st n c"
  shows "broker_inv (set_await_offset c m k st)"
  unfolding set_await_offset_def
  by (rule upd_client_inv [OF assms(1)])
    (use holder_named [OF assms(2)] in \<open>auto simp: client_ok_def\<close>)

lemma touch_activity_inv: "broker_inv st \<Longrightarrow> broker_inv (touch_activity wall st c)"
  by (auto simp: touch_activity_def Let_def client_ok_def split: option.splits
      intro!: upd_client_inv)

lemma set_listen_inv:
  "broker_inv st \<Longrightarrow> set_listen wall st c l = (outs, st') \<Longrightarrow> broker_inv st'"
  by (auto simp: set_listen_def holder_guard_def client_ok_def split: option.splits if_splits
      intro!: upd_client_inv)

lemma set_wake_addr_inv:
  "broker_inv st \<Longrightarrow> set_wake_addr wall st c a = (outs, st') \<Longrightarrow> broker_inv st'"
  by (auto simp: set_wake_addr_def holder_guard_def client_ok_def Let_def
      split: option.splits if_splits intro!: upd_client_inv)

lemma hello_client_ok: "client_ok (hello_client wall b)"
  by (simp add: client_ok_def hello_client_def)

text \<open>A fresh connection: its id is not in use, so nothing of another client changes.\<close>

lemma insert_hello_inv:
  assumes inv: "broker_inv st" and new: "bt_get (clients st) c = None"
  shows "broker_inv (st\<lparr>clients := bt_insert c (hello_client wall b) (clients st)\<rparr>)"
proof -
  have h: "holder (st\<lparr>clients := bt_insert c (hello_client wall b) (clients st)\<rparr>) n d \<longleftrightarrow> holder st n d"
    for n d using new by (auto simp: holder_def hello_client_def)
  show ?thesis
    unfolding broker_inv_def h
    using inv new hello_client_ok by (auto simp: broker_inv_def)
qed

lemma hello_inv:
  assumes "broker_inv st" "bt_get (clients st) c = None" "hello env wall st c p b = (outs, st')"
  shows "broker_inv st'"
  using assms(3) assms(1) insert_hello_inv [OF assms(1,2)]
  by (auto simp: hello_def split: if_splits option.splits)

lemma name_taken_iff:
  assumes "broker_inv st"
  shows "name_taken st c n \<longleftrightarrow> (\<exists>d. d \<noteq> c \<and> holder st n d)"
  using broker_invD(1) [OF assms]
  by (fastforce simp: name_taken_def list_ex_iff holder_def client_ok_def simp flip: bt_entries_iff)

lemma register_client_inv:
  assumes inv: "broker_inv st" and free: "\<not> name_taken st c n" and pid: "pid \<noteq> 0"
    and cs: "bt_get (clients st) c = Some cs" "bind_as cs = None"
  shows "broker_inv (upd_client c (register_client wall n pid dir l o' k) st)" (is "broker_inv ?st")
proof -
  let ?f = "register_client wall n pid dir l o' k"
  have ok: "client_ok (?f cs)"
    using broker_invD(1) [OF inv cs(1)] cs(2) pid by (auto simp: client_ok_def register_client_def)
  have h: "holder ?st m d \<longleftrightarrow> (if d = c then m = n else holder st m d)" for m d
    using cs(1) by (auto simp: holder_def register_client_def)
  have other: "d = c" if "holder st n d" for d
    using free that name_taken_iff [OF inv, of c n] by blast
  show ?thesis
    unfolding broker_inv_def h
  proof (intro conjI allI impI)
    show "client_ok cs'" if "bt_get (clients ?st) d = Some cs'" for d cs'
      using that ok cs(1) broker_invD(1) [OF inv] by (auto split: if_splits)
    show "d = e" if "if d = c then m = n else holder st m d" "if e = c then m = n else holder st m e"
      for m d e
      using that other broker_invD(2) [OF inv] by (metis (full_types))
    show "\<exists>cs'. bt_get (clients ?st) d = Some cs' \<and> (cs_name cs' \<noteq> None \<or> bind_as cs' \<noteq> None)"
      if "bt_get (pending_awaits ?st) d \<noteq> None" for d
      using that broker_invD(3) [OF inv] cs(1) by (auto simp: register_client_def)
  qed
qed

lemma register_inv:
  assumes "broker_inv st" "register lib env wall st c n pid dir l o' = (outs, st')"
  shows "broker_inv st'"
  using assms(2,1)
  by (auto simp: register_def Let_def split: if_splits sum.splits option.splits
      intro: register_client_inv)

lemma inbox_offset_client_ok:
  "client_ok cs \<Longrightarrow> bts_mem ch (joined cs) \<Longrightarrow>
   client_ok (cs\<lparr>inbox_offsets := bt_insert (Channel ch) k (inbox_offsets cs)\<rparr>)"
  by (auto simp: client_ok_def)

lemma set_inbox_offsets_inv:
  assumes "broker_inv st"
    and "\<And>cs. bt_get (clients st) h = Some cs \<Longrightarrow> \<forall>(m, k) \<in> set ks. \<exists>ch. m = Channel ch \<and> bts_mem ch (joined cs)"
  shows "broker_inv (set_inbox_offsets h ks st)"
  using assms
proof (induction ks arbitrary: st)
  case (Cons mk ks)
  obtain m k where mk: "mk = (m, k)" by (cases mk)
  let ?st = "upd_client h (\<lambda>cs. cs\<lparr>inbox_offsets := bt_insert m k (inbox_offsets cs)\<rparr>) st"
  have "broker_inv ?st"
    using Cons.prems mk by (intro upd_client_inv) (auto intro!: inbox_offset_client_ok)
  then have "broker_inv (set_inbox_offsets h ks ?st)"
    by (rule Cons.IH) (use Cons.prems(2) in fastforce)
  then show ?case by (simp add: mk)
qed simp

lemma inbox_channels_keys:
  "inbox_channels lib env st h n chs = Inr (es, ks) \<Longrightarrow> (m, k) \<in> set ks \<Longrightarrow>
   \<exists>ch \<in> set chs. m = Channel ch"
proof (induction chs arbitrary: es ks)
  case (Cons ch chs)
  obtain es' ks' where rest: "inbox_channels lib env st h n chs = Inr (es', ks')"
      and ks: "set ks \<subseteq> set ks' \<union> {x. fst x = Channel ch}"
    using Cons.prems(1)
    by (auto simp: res_bind_Inr_iff split: sum.splits prod.splits option.splits)
  then show ?case using Cons.IH [OF rest] Cons.prems(2) by auto
qed simp

lemma inbox_inv:
  assumes inv: "broker_inv st" and i: "inbox lib env st c since it = Some (outs, st')"
  shows "broker_inv st'"
proof -
  have "broker_inv (set_inbox_offsets h ks st)"
    if "inbox_channels lib env st h n (case bt_get (clients st) h of None \<Rightarrow> [] | Some cs \<Rightarrow> bts_list (joined cs)) = Inr (es, ks)"
    for h n es ks
    using inbox_channels_keys [OF that]
    by (intro set_inbox_offsets_inv [OF inv]) (auto simp: set_bts_list)
  then show ?thesis
    using i inv
    by (auto simp: inbox_def Let_def split: sum.splits option.splits prod.splits)
qed

lemma join_client_ok:
  "client_ok cs \<Longrightarrow> cs_name cs \<noteq> None \<Longrightarrow> client_ok (join_client ch k cs)"
  by (auto simp: client_ok_def join_client_def)

lemma leave_client_ok: "client_ok cs \<Longrightarrow> client_ok (leave_client ch cs)"
  by (auto simp: client_ok_def leave_client_def bts_mem_def bt_eq_iff)

lemma commit_join_inv:
  assumes "broker_inv st" "holder st n h"
  shows "broker_inv (commit_join ch n role h k st)"
proof -
  let ?st = "st\<lparr>channels := bt_insert ch (bts_insert n (channel_members st ch)) (channels st)\<rparr>"
  have "broker_inv (upd_client h (join_client ch k) ?st)"
    using assms join_client_ok holder_named [OF assms(2)]
    by (intro upd_client_inv channels_inv) (auto simp: join_client_def)
  then show ?thesis
    unfolding commit_join_def Let_def by (auto intro: channels_inv split: option.splits)
qed

lemma join_inv:
  assumes "broker_inv st" "join lib env st c ch role = (outs, st')"
  shows "broker_inv st'"
  using assms(2,1)
  by (auto simp: join_def Let_def split: sum.splits option.splits
      elim!: resolve_holder intro!: commit_join_inv)

lemma leave_inv:
  assumes "broker_inv st" "leave env st c ch = (outs, st')"
  shows "broker_inv st'"
  using assms(2,1) leave_client_ok
  by (auto simp: leave_def Let_def leave_client_def split: sum.splits
      intro!: upd_client_inv channels_inv)

lemma holder_set_await_offset [simp]: "holder (set_await_offset h m k st) n c \<longleftrightarrow> holder st n c"
  by (auto simp: set_await_offset_def holder_def)

lemma set_await_offset_simps [simp]:
  "pending_awaits (set_await_offset h m k st) = pending_awaits st"
  "channels (set_await_offset h m k st) = channels st"
  "channel_roles (set_await_offset h m k st) = channel_roles st"
  by (simp_all add: set_await_offset_def)

text \<open>Who a connection is: its registered name and its proxy binding.\<close>

definition ident :: "broker_state \<Rightarrow> client_id \<Rightarrow> (string option \<times> string option) option" where
  "ident st c = map_option (\<lambda>cs. (cs_name cs, bind_as cs)) (bt_get (clients st) c)"

lemma ident_set_await_offset [simp]: "ident (set_await_offset h m k st) c = ident st c"
  by (auto simp: ident_def set_await_offset_def option.map_comp comp_def)

lemma ident_known:
  "ident st c = ident st' c \<Longrightarrow>
   \<exists>cs. bt_get (clients st') c = Some cs \<and> (cs_name cs \<noteq> None \<or> bind_as cs \<noteq> None) \<Longrightarrow>
   \<exists>cs. bt_get (clients st) c = Some cs \<and> (cs_name cs \<noteq> None \<or> bind_as cs \<noteq> None)"
  by (cases "bt_get (clients st) c") (auto simp: ident_def)

lemma ident_unpark [simp]: "ident (unpark h st) c = ident st c"
  by (simp add: ident_def)

lemma holder_unpark [simp]: "holder (unpark h st) n c \<longleftrightarrow> holder st n c"
  by (simp add: holder_def)

lemma await_loop_inv:
  assumes "broker_inv st" "holder st n h" "await_loop lib env c h f ms st = (r, st')"
  shows "broker_inv st' \<and> pending_awaits st' = pending_awaits st \<and>
    (\<forall>d. ident st' d = ident st d)"
  using assms
proof (induction ms arbitrary: st)
  case (Cons m ms)
  show ?case
  proof (cases "drain_await_batch lib env st h m f None")
    case (Inl e)
    then show ?thesis using Cons.prems by (cases e) auto
  next
    case (Inr b)
    let ?st = "if ab_next_offset b \<noteq> await_offset st h m
      then set_await_offset h m (ab_next_offset b) st else st"
    have st: "broker_inv ?st" "holder ?st n h" "pending_awaits ?st = pending_awaits st"
        "\<forall>d. ident ?st d = ident st d"
      using Cons.prems(1,2) set_await_offset_inv [OF Cons.prems(1,2)] by auto
    show ?thesis
    proof (cases "ab_envelopes b = []")
      case True
      then have "await_loop lib env c h f ms ?st = (r, st')"
        using Cons.prems(3) Inr by (simp add: Let_def)
      then show ?thesis using Cons.IH [OF st(1,2)] st(3,4) by simp
    next
      case False
      then show ?thesis using Cons.prems(3) Inr st by (auto simp: Let_def)
    qed
  qed
qed simp

lemma resolve_known:
  "resolve_op_identity env st c = Inr n \<Longrightarrow>
   \<exists>cs. bt_get (clients st) c = Some cs \<and> (cs_name cs \<noteq> None \<or> bind_as cs \<noteq> None)"
  by (auto simp: resolve_op_identity_def effective_identity_def split: option.splits if_splits)

lemma await_envelope_inv:
  assumes inv: "broker_inv st" and a: "await_envelope lib env st c ms task now = (outs, st')"
  shows "broker_inv st'"
proof (cases "resolve_await_owner env st c")
  case (Inl e)
  then show ?thesis using a inv by (simp add: await_envelope_def)
next
  case (Inr nh)
  obtain n h where nh: "nh = (n, h)" by (cases nh)
  note ho = resolve_await_owner_holder [OF inv Inr [unfolded nh]]
  obtain f where f: "f = (case task of None \<Rightarrow> AnyEnvelope | Some t \<Rightarrow> TaskFilter t)" by blast
  obtain r st1 where l: "await_loop lib env c h f (await_mailboxes st h n) st = (r, st1)"
    by (cases "await_loop lib env c h f (await_mailboxes st h n) st")
  note st1 = await_loop_inv [OF inv ho(1) l]
  have "\<exists>cs. bt_get (clients st1) c = Some cs \<and> (cs_name cs \<noteq> None \<or> bind_as cs \<noteq> None)"
    using ident_known [of st1 c st] st1 resolve_known [OF ho(2)] by blast
  then have "broker_inv (st1\<lparr>pending_awaits := bt_insert c p (pending_awaits st1)\<rparr>)" for p
    using st1 by (auto simp: broker_inv_def holder_def)
  then show ?thesis
    using a Inr nh l f st1 by (auto simp: await_envelope_def Let_def split: option.splits)
qed

lemma await_reply_inv:
  assumes inv: "broker_inv st" and r: "await_reply_for_mailbox lib env st c m f t = (reply, st')"
  shows "broker_inv st'"
proof -
  have "broker_inv (set_await_offset h m k st)" if "resolve_await_owner env st c = Inr (n, h)" for n h k
    by (rule set_await_offset_inv [OF inv resolve_await_owner_holder(1) [OF inv that]])
  then show ?thesis
    using r inv by (auto simp: await_reply_for_mailbox_def Let_def split: sum.splits if_splits)
qed

lemma wake_waiters_inv:
  "broker_inv st \<Longrightarrow> wake_waiters lib env m t ws st = (outs, st') \<Longrightarrow> broker_inv st'"
proof (induction ws arbitrary: st outs)
  case (Cons w ws)
  show ?case
  proof (cases "bt_get (pending_awaits st) w")
    case None
    then show ?thesis using Cons by simp
  next
    case (Some parked)
    obtain reply st1 where r:
        "await_reply_for_mailbox lib env (unpark w st) w m (pa_filter parked) (Some t) = (reply, st1)"
      by (cases "await_reply_for_mailbox lib env (unpark w st) w m (pa_filter parked) (Some t)")
    have "broker_inv st1" by (rule await_reply_inv [OF unpark_inv [OF Cons.prems(1)] r])
    then show ?thesis
      using Cons.IH [of st1] Cons.prems(2) Some r by (auto split: prod.splits)
  qed
qed simp

lemma wake_members_inv:
  "broker_inv st \<Longrightarrow> wake_members lib env ch t ms st = (outs, st') \<Longrightarrow> broker_inv st'"
  by (induction ms arbitrary: st outs)
    (auto simp: Let_def split: if_splits prod.splits dest: wake_waiters_inv)

lemma send_inv:
  assumes "broker_inv st" "send lib env st c to e = (outs, st')"
  shows "broker_inv st'"
  using assms(2,1)
  by (auto simp: send_def send_agent_def send_channel_def Let_def
      split: sum.splits if_splits target.splits prod.splits
      dest: wake_waiters_inv wake_members_inv)

lemma drop_client_inv:
  assumes "broker_inv st" shows "broker_inv (drop_client c st)"
proof -
  have "holder (drop_client c st) n d \<longleftrightarrow> d \<noteq> c \<and> holder st n d" for n d
    by (auto simp: holder_def drop_client_def)
  then show ?thesis using assms by (auto simp: broker_inv_def drop_client_def)
qed

lemma disconnect_inv:
  assumes "broker_inv st" "disconnect st c = (outs, st')"
  shows "broker_inv st'"
  using assms(2,1)
  by (auto simp: disconnect_def Let_def split: option.splits if_splits
      intro!: drop_client_inv channels_inv)

lemma disconnect_all_inv:
  "broker_inv st \<Longrightarrow> disconnect_all cs st = (outs, st') \<Longrightarrow> broker_inv st'"
  by (induction cs arbitrary: st outs) (auto split: prod.splits dest: disconnect_inv)

lemma expire_all_inv: "broker_inv st \<Longrightarrow> expire_all cs st = (outs, st') \<Longrightarrow> broker_inv st'"
  by (induction cs arbitrary: st outs) (auto split: prod.splits dest: unpark_inv)

lemma tick_inv:
  assumes "broker_inv st" "tick env st now = (outs, st')"
  shows "broker_inv st'"
  using assms(2,1)
  by (auto simp: tick_def Let_def split: prod.splits dest: disconnect_all_inv expire_all_inv)

lemmas handler_inv =
  hello_inv register_inv send_inv inbox_inv await_envelope_inv join_inv leave_inv set_listen_inv
  set_wake_addr_inv

lemma dispatch_inv:
  assumes "broker_inv st" "is_hello msg \<Longrightarrow> bt_get (clients st) c = None"
    "dispatch lib env wall st c msg now = Some (outs, st')"
  shows "broker_inv st'"
  using assms by (cases msg) (auto dest: handler_inv)

lemma handle_inv:
  assumes inv: "broker_inv st" and h: "handle lib env wall st input now = Some (outs, st')"
  shows "broker_inv st'"
proof (cases input)
  case (Wire c msg)
  have new: "bt_get (clients st) c = None"
    if "map_option handshaked (bt_get (clients st) c) \<noteq> Some True"
    using that broker_invD(1) [OF inv] by (cases "bt_get (clients st) c") (auto simp: client_ok_def)
  show ?thesis
    using h inv new dispatch_inv [of "if touches msg then touch_activity wall st c else st" msg c]
      touch_activity_inv [OF inv]
    unfolding Wire by (cases msg) (auto simp: handle_wire_def Let_def split: if_splits)
qed (use h inv in \<open>auto dest: disconnect_inv tick_inv\<close>)

lemma broker_reach_inv: "broker_reach lib st \<Longrightarrow> broker_inv st"
  by (induction rule: broker_reach.induct)
    (auto simp: broker_new_inv dest: handle_inv elim!: broker_step.cases)

end
