(* ===== verification/BrokerFrame.thy ===== *)
theory BrokerFrame
  imports BrokerInv
begin

text \<open>
  What the handlers leave alone. \<open>core\<close> is a client entry without its activity time and its
  delivery cursors; sends, polls and awaits change nothing else, and nothing of the channels.
\<close>

definition core :: "client_state \<Rightarrow> client_state" where
  "core cs = cs\<lparr>last_activity := 0, await_offsets := bt_empty, inbox_offsets := bt_empty\<rparr>"

definition same_core :: "broker_state \<Rightarrow> broker_state \<Rightarrow> bool" where
  "same_core st st' \<longleftrightarrow>
     (\<forall>c. map_option core (bt_get (clients st') c) = map_option core (bt_get (clients st) c)) \<and>
     channels st' = channels st \<and> channel_roles st' = channel_roles st"

lemma core_fields:
  assumes "core cs = core cs'"
  shows "cs_name cs = cs_name cs'" "cs_pid cs = cs_pid cs'" "bind_as cs = bind_as cs'"
    "cs_origin cs = cs_origin cs'" "joined cs = joined cs'" "listen_mode cs = listen_mode cs'"
    "wake_addr cs = wake_addr cs'" "connected cs = connected cs'" "handshaked cs = handshaked cs'"
  using assms by (cases cs; cases cs'; simp add: core_def)+

lemma same_core_refl [simp]: "same_core st st"
  by (simp add: same_core_def)

lemma same_core_trans: "same_core st st' \<Longrightarrow> same_core st' st'' \<Longrightarrow> same_core st st''"
  by (simp add: same_core_def)

lemma same_core_get:
  assumes "same_core st st'" "bt_get (clients st') c = Some cs'"
  obtains cs where "bt_get (clients st) c = Some cs" "core cs' = core cs"
  using assms by (cases "bt_get (clients st) c") (auto simp: same_core_def dest!: spec [of _ c])

lemma same_core_sym: "same_core st st' \<Longrightarrow> same_core st' st"
  by (simp add: same_core_def)

lemma same_core_upd:
  "(\<And>cs. core (f cs) = core cs) \<Longrightarrow> same_core st (upd_client c f st)"
  by (auto simp: same_core_def option.map_comp comp_def)

lemma same_core_pending [simp]:
  "same_core st (st'\<lparr>pending_awaits := p\<rparr>) \<longleftrightarrow> same_core st st'"
  "same_core st (unpark c st') \<longleftrightarrow> same_core st st'"
  by (simp_all add: same_core_def)

lemma touch_activity_core: "same_core st (touch_activity wall st c)"
  by (auto simp: touch_activity_def Let_def core_def split: option.splits intro: same_core_upd)

lemma set_await_offset_core: "same_core st (set_await_offset h m k st)"
  unfolding set_await_offset_def by (rule same_core_upd) (simp add: core_def)

lemma set_inbox_offsets_core: "same_core st (set_inbox_offsets h ks st)"
proof (induction h ks st rule: set_inbox_offsets.induct)
  case (2 h m k ks st)
  let ?f = "\<lambda>cs. cs\<lparr>inbox_offsets := bt_insert m k (inbox_offsets cs)\<rparr>"
  have "same_core st (upd_client h ?f st)" by (rule same_core_upd) (simp add: core_def)
  then show ?case using 2 same_core_trans by auto
qed simp

lemma await_loop_core: "await_loop lib env c h f ms st = (r, st') \<Longrightarrow> same_core st st'"
  by (induction ms arbitrary: st)
    (auto simp: Let_def split: sum.splits if_splits
      intro: set_await_offset_core same_core_trans [OF set_await_offset_core])

lemma await_envelope_core:
  "await_envelope lib env st c ms task now = (outs, st') \<Longrightarrow> same_core st st'"
  by (auto simp: await_envelope_def Let_def split: sum.splits prod.splits option.splits
      dest!: await_loop_core)

lemma await_reply_core:
  "await_reply_for_mailbox lib env st c m f t = (reply, st') \<Longrightarrow> same_core st st'"
  by (auto simp: await_reply_for_mailbox_def Let_def split: sum.splits if_splits
      intro: set_await_offset_core)

lemma wake_waiters_core: "wake_waiters lib env m t ws st = (outs, st') \<Longrightarrow> same_core st st'"
proof (induction ws arbitrary: st outs)
  case (Cons w ws)
  show ?case
  proof (cases "bt_get (pending_awaits st) w")
    case None
    then show ?thesis using Cons by simp
  next
    case (Some parked)
    obtain reply st1 where r:
        "await_reply_for_mailbox lib env (unpark w st) w m (pa_filter parked) (Some t) = (reply, st1)"
      by (cases "await_reply_for_mailbox lib env (unpark w st) w m (pa_filter parked) (Some t)")
    have "same_core st st1"
      using await_reply_core [OF r] by (simp add: same_core_def)
    moreover have "same_core st1 st'"
      using Cons.IH [of st1] Cons.prems Some r by (auto split: prod.splits)
    ultimately show ?thesis by (rule same_core_trans)
  qed
qed simp

lemma wake_members_core: "wake_members lib env ch t ms st = (outs, st') \<Longrightarrow> same_core st st'"
  by (induction ms arbitrary: st outs)
    (auto simp: Let_def split: if_splits prod.splits
      dest: same_core_trans [OF wake_waiters_core])

lemma send_core: "send lib env st c to e = (outs, st') \<Longrightarrow> same_core st st'"
  by (auto simp: send_def send_agent_def send_channel_def Let_def
      split: sum.splits if_splits target.splits prod.splits
      dest: wake_waiters_core wake_members_core)

lemma inbox_core: "inbox lib env st c since it = Some (outs, st') \<Longrightarrow> same_core st st'"
  by (auto simp: inbox_def Let_def set_inbox_offsets_core
      split: sum.splits option.splits prod.splits)

subsection \<open>Identity does not depend on what the core leaves out\<close>

lemma proxy_holder_alive_iff:
  "proxy_holder_alive env st n \<longleftrightarrow>
     (\<exists>c cs pid. bt_get (clients st) c = Some cs \<and> connected cs \<and> cs_name cs = Some n \<and>
        cs_pid cs = Some pid \<and> is_alive env pid)"
  by (fastforce simp: proxy_holder_alive_def list_ex_iff bt_values_iff split: option.splits)

lemma proxy_holder_alive_core:
  assumes "same_core st st'" shows "proxy_holder_alive env st' n = proxy_holder_alive env st n"
proof -
  have "proxy_holder_alive env b n" if ab: "same_core a b" and al: "proxy_holder_alive env a n" for a b
  proof -
    obtain c cs pid where cs: "bt_get (clients a) c = Some cs" "connected cs" "cs_name cs = Some n"
        "cs_pid cs = Some pid" "is_alive env pid"
      using al by (auto simp: proxy_holder_alive_iff)
    obtain cs' where cs': "bt_get (clients b) c = Some cs'" "core cs = core cs'"
      using same_core_get [OF same_core_sym [OF ab] cs(1)] by blast
    show ?thesis
      unfolding proxy_holder_alive_iff using cs cs'(1) core_fields [OF cs'(2)] by auto
  qed
  then show ?thesis using assms same_core_sym by blast
qed

lemma canonical_holder_id_core:
  assumes "same_core st st'" "broker_inv st" "broker_inv st'"
  shows "canonical_holder_id st' n = canonical_holder_id st n"
proof -
  have "holder b n c" if ab: "same_core a b" and ho: "holder a n c" for a b c
  proof -
    obtain cs where cs: "bt_get (clients a) c = Some cs" "cs_name cs = Some n"
      using ho by (auto simp: holder_def)
    obtain cs' where cs': "bt_get (clients b) c = Some cs'" "core cs = core cs'"
      using same_core_get [OF same_core_sym [OF ab] cs(1)] by blast
    show ?thesis unfolding holder_def using cs cs'(1) core_fields(1) [OF cs'(2)] by auto
  qed
  then have "holder st' n c \<longleftrightarrow> holder st n c" for c
    using assms(1) same_core_sym by blast
  then show ?thesis
    using canonical_holder_id_Some [OF assms(2)] canonical_holder_id_Some [OF assms(3)]
    by (metis option.exhaust)
qed

lemma resolve_core:
  assumes "same_core st st'"
  shows "resolve_op_identity env st' c = resolve_op_identity env st c"
proof (cases "bt_get (clients st') c")
  case None
  then have "bt_get (clients st) c = None"
    using assms by (cases "bt_get (clients st) c") (auto simp: same_core_def dest!: spec [of _ c])
  then show ?thesis using None by (simp add: resolve_op_identity_def)
next
  case (Some cs')
  then obtain cs where cs: "bt_get (clients st) c = Some cs" "core cs' = core cs"
    by (rule same_core_get [OF assms])
  show ?thesis
    using core_fields [OF cs(2)] Some cs(1)
    by (auto simp: resolve_op_identity_def effective_identity_def proxy_holder_alive_core [OF assms]
        split: option.splits)
qed

lemma join_client_simps [simp]:
  "cs_name (join_client ch k cs) = cs_name cs" "cs_origin (join_client ch k cs) = cs_origin cs"
  "joined (join_client ch k cs) = bts_insert ch (joined cs)"
  by (simp_all add: join_client_def)

lemma leave_client_simps [simp]:
  "cs_name (leave_client ch cs) = cs_name cs" "cs_origin (leave_client ch cs) = cs_origin cs"
  "joined (leave_client ch cs) = bt_remove ch (joined cs)"
  by (simp_all add: leave_client_def)

lemma register_client_simps [simp]:
  "cs_name (register_client wall n pid dir l o' k cs) = Some n"
  "cs_origin (register_client wall n pid dir l o' k cs) = unwrap_or origin_default o'"
  "joined (register_client wall n pid dir l o' k cs) = joined cs"
  by (simp_all add: register_client_def)

end
