(* ===== verification/Scenario.thy ===== *)
theory Scenario
  imports BrokerFrame
begin

text \<open>
  A small concrete run, used to show that the hypotheses of the broker's theorems can hold: two
  agents on one bus, with a library that knows the texts the run exchanges and empty mailboxes.
\<close>

definition demo_id :: string where "demo_id = ''01890000-0000-7000-8000-000000000001''"

definition demo_envelope :: json where
  "demo_envelope = JObj
     [(''authority'', JStr ''advisory''),
      (''body'', JObj [(''disposition'', JStr ''accepted'')]),
      (''class'', JStr ''ack''),
      (''famp'', JStr ''0.5.2''),
      (''from'', JStr ''agent:local.bus/alice''),
      (''id'', JStr demo_id),
      (''scope'', JStr ''standalone''),
      (''to'', JStr ''agent:local.bus/bob''),
      (''ts'', JStr ''2026-04-27T12:00:00Z'')]"

definition demo_stamped :: json where
  "demo_stamped = JObj [(''envelope'', demo_envelope), (''origin'', JStr ''local'')]"

definition demo_jcs :: "json \<Rightarrow> string + bytes" where
  "demo_jcs v = Inr (if v = demo_envelope then [1] else if v = demo_stamped then [2] else [3])"

definition demo_lex :: "bytes \<Rightarrow> jev list" where
  "demo_lex b =
     (if b = [1] then json_events demo_envelope
      else if b = [2] then json_events demo_stamped
      else [EvErr ''expected value''])"

definition demo_lib :: ext_lib where
  "demo_lib =
     \<lparr>lex = demo_lex, jcs = demo_jcs,
      uuid_parse = (\<lambda>s. if s = demo_id then Some 7 else None), uuid_show = (\<lambda>_. demo_id)\<rparr>"

text \<open>Everyone is alive; the mailboxes are those of an in-memory store.\<close>

definition demo_env :: "in_memory_mailbox \<Rightarrow> broker_env" where
  "demo_env s = \<lparr>is_alive = (\<lambda>_. True), drain_from = inmem_drain_from s\<rparr>"

fun run :: "ext_lib \<Rightarrow> broker_env \<Rightarrow> broker_input list \<Rightarrow> broker_state \<Rightarrow> (out list list \<times> broker_state) option" where
  "run lib env [] st = Some ([], st)"
| "run lib env (i # is) st =
     (case handle lib env 0 st i 0 of
        None \<Rightarrow> None
      | Some (outs, st') \<Rightarrow> map_option (\<lambda>(os, s). (outs # os, s)) (run lib env is st'))"

lemma run_reach:
  "run lib env is st = Some (os, st') \<Longrightarrow> broker_reach lib st \<Longrightarrow> broker_reach lib st'"
proof (induction "is" arbitrary: st os)
  case (Cons i "is")
  then show ?case
    by (auto split: option.splits) (meson broker_reach.step broker_step.intros)
qed simp

definition demo_inputs :: "broker_input list" where
  "demo_inputs =
     [Wire 1 (Hello 3 ''cli'' None), Wire 1 (Register ''alice'' 11 None False (Some Local)),
      Wire 2 (Hello 3 ''cli'' None), Wire 2 (Register ''bob'' 12 None True None),
      Wire 2 (Await 1000 None)]"

definition demo_state :: broker_state where
  "demo_state = snd (the (run demo_lib (demo_env bt_empty) demo_inputs (broker_new 0)))"

lemma demo_run: "run demo_lib (demo_env bt_empty) demo_inputs (broker_new 0) \<noteq> None"
  by code_simp

lemma demo_reach: "broker_reach demo_lib demo_state"
  using demo_run run_reach [OF _ broker_reach.start] unfolding demo_state_def
  by (metis option.collapse prod.collapse)

lemma demo_names:
  "map_option cs_name (bt_get (clients demo_state) 1) = Some (Some ''alice'')"
  "map_option cs_name (bt_get (clients demo_state) 2) = Some (Some ''bob'')"
  by code_simp+

lemma demo_holders: "holder demo_state ''alice'' 1" "holder demo_state ''bob'' 2"
  using demo_names by (auto simp: holder_def)

text \<open>Alice's message to Bob, who waits for it.\<close>

abbreviation demo_send :: broker_input where
  "demo_send \<equiv> Wire 1 (Send (ToAgent ''bob'') demo_envelope)"

definition demo_sent :: "out list \<times> broker_state" where
  "demo_sent = the (handle demo_lib (demo_env bt_empty) 0 demo_state demo_send 0)"

lemma demo_handle:
  "handle demo_lib (demo_env bt_empty) 0 demo_state demo_send 0 = Some (fst demo_sent, snd demo_sent)"
proof -
  have "handle demo_lib (demo_env bt_empty) 0 demo_state demo_send 0 \<noteq> None" by code_simp
  then show ?thesis by (simp add: demo_sent_def del: handle.simps)
qed

lemma demo_outs:
  "fst demo_sent =
     [AppendMailbox (Agent ''bob'') [1] Local,
      Reply 2 (AwaitOk [\<lparr>st_origin = Local, st_envelope = demo_envelope\<rparr>] (Agent ''bob'') 2),
      UnparkAwait 2,
      Reply 1 (SendOk 7 [\<lparr>dl_to = ToAgent ''bob'', dl_ok = True, dl_woken = True,
        dl_wake_addr = None\<rparr>])]"
  by code_simp

end
