(* ===== verification/BrokerProps.thy ===== *)
theory BrokerProps
  imports Scenario
begin

text \<open>
  What the broker promises in every reachable state: names and proxies, no panic, authenticated
  sends, provenance, wakes, and what an error leaves unchanged.
\<close>

subsection \<open>Names\<close>

text \<open>
  C1: In every reachable state of the broker a name is held by at most one connection, whatever
  the mailboxes and the process table answered along the way.
\<close>

theorem reachable_single_holder:
  assumes "broker_reach lib st"
    and "bt_get (clients st) c = Some cs" "cs_name cs = Some n"
    and "bt_get (clients st) d = Some ds" "cs_name ds = Some n"
  shows "c = d"
  using broker_invD(2) [OF broker_reach_inv [OF assms(1)], of n c d] assms(2-5)
  by (auto simp: holder_def)

theorem reachable_single_holder_witness:
  "{d. \<exists>ds. bt_get (clients demo_state) d = Some ds \<and> cs_name ds = Some ''alice''} = {1}"
  using demo_holders(1) reachable_single_holder [OF demo_reach]
  by (auto simp: holder_def)

text \<open>
  C2: In every reachable state each connection has shaken hands; it has a name exactly when it
  has a process id, which is never 0; a proxy holds no name, channel, cursor or address of its
  own; a stored wake address has the one accepted shape; and the channels with an inbox cursor
  are exactly the channels joined.
\<close>

theorem reachable_client_shape:
  assumes "broker_reach lib st" "bt_get (clients st) c = Some cs"
  shows "handshaked cs \<and> connected cs \<and>
    (cs_name cs = None \<longleftrightarrow> cs_pid cs = None) \<and> cs_pid cs \<noteq> Some 0 \<and>
    (bind_as cs = None \<or> cs_name cs = None) \<and>
    (cs_name cs = None \<longrightarrow>
       joined cs = bt_empty \<and> wake_addr cs = None \<and> cs_origin cs = Unknown \<and> await_offsets cs = bt_empty) \<and>
    (\<forall>a. wake_addr cs = Some a \<longrightarrow>
       (\<exists>d. a = ''uds:/tmp/cc-socks/'' @ d @ ''.sock'' \<and> list_all is_ascii_digit d \<and>
          1 \<le> length d \<and> length d \<le> 10)) \<and>
    (\<forall>m. bt_get (inbox_offsets cs) m \<noteq> None \<longleftrightarrow> (\<exists>ch. m = Channel ch \<and> bts_mem ch (joined cs)))"
  using broker_invD(1) [OF broker_reach_inv [OF assms(1)] assms(2)]
  by (auto simp: client_ok_def wake_addr_valid_iff)

theorem reachable_client_shape_witness:
  "\<exists>cs. bt_get (clients demo_state) 2 = Some cs \<and> handshaked cs \<and> cs_pid cs \<noteq> Some 0"
proof -
  obtain cs where cs: "bt_get (clients demo_state) 2 = Some cs"
    using demo_holders(2) by (auto simp: holder_def)
  then show ?thesis using reachable_client_shape [OF demo_reach cs] by blast
qed

subsection \<open>No panic\<close>

text \<open>
  C3: From every reachable state every input is handled: the \<open>expect\<close> in the inbox handler,
  the actor's one panic, is never reached.
\<close>

theorem handle_total:
  assumes "broker_reach lib st"
  shows "\<exists>outs st'. handle lib env wall st input now = Some (outs, st')"
proof -
  have inv: "broker_inv st" using broker_reach_inv [OF assms] .
  have i: "inbox lib env s c since it \<noteq> None" if "broker_inv s" for s c since it
  proof -
    have "canonical_holder_id s n \<noteq> None" if r: "resolve_op_identity env s c = Inr n" for n
      using resolve_holder [OF \<open>broker_inv s\<close> r] by (metis option.discI)
    then show ?thesis
      by (auto simp: inbox_def Let_def split: sum.splits option.splits prod.splits)
  qed
  have "dispatch lib env wall s c msg now \<noteq> None" if "broker_inv s" for s c msg
    using i [OF that] by (cases msg) auto
  then show ?thesis
    using inv touch_activity_inv [OF inv]
    by (cases input) (auto simp: handle_wire_def Let_def)
qed

theorem handle_total_witness:
  "\<exists>outs st'. handle demo_lib (demo_env bt_empty) 0 demo_state (Wire 2 (Inbox None None)) 5 = Some (outs, st')"
  by (rule handle_total [OF demo_reach])

subsection \<open>Sends\<close>

lemma wake_waiters_no_append: "wake_waiters lib env m t ws st = (outs, st') \<Longrightarrow> AppendMailbox n l o' \<notin> set outs"
  by (induction ws arbitrary: st outs) (auto split: option.splits prod.splits)

lemma wake_members_no_append:
  "wake_members lib env ch t ms st = (outs, st') \<Longrightarrow> AppendMailbox n l o' \<notin> set outs"
  by (induction ms arbitrary: st outs)
    (auto simp: Let_def split: if_splits prod.splits dest: wake_waiters_no_append)

definition target_mailbox :: "target \<Rightarrow> mailbox_name" where
  "target_mailbox to = (case to of ToAgent n \<Rightarrow> Agent n | ToChannel n \<Rightarrow> Channel n)"

definition wake_target ::
  "ext_lib \<Rightarrow> broker_env \<Rightarrow> target \<Rightarrow> trigger \<Rightarrow> broker_state \<Rightarrow> out list \<times> broker_state" where
  "wake_target lib env to t st =
     (case to of
        ToAgent n \<Rightarrow>
          wake_waiters lib env (Agent n) t
            (waiting_clients_for_name lib env st n (tr_envelope t) (tr_origin t)) st
      | ToChannel ch \<Rightarrow> wake_members lib env ch t (bts_list (channel_members st ch)) st)"

lemma wake_target_no_append: "wake_target lib env to t st = (outs, st') \<Longrightarrow> AppendMailbox n l o' \<notin> set outs"
  by (auto simp: wake_target_def split: target.splits
      dest: wake_waiters_no_append wake_members_no_append)

text \<open>A send is refused with one error and no change, or appends first and answers last.\<close>

lemma sendE:
  assumes "send lib env st c to e = (outs, st')"
  obtains (refused) kind msg where "outs = [mk_err c kind msg]" "st' = st"
  | (sent) n line stamped woken task rows where
      "resolve_op_identity env st c = Inr n" "is_self_authored e (Some n)"
      "canonicalize lib e = Inr line" "length line \<le> MAX_FRAME_BYTES"
      "stamp_line lib line (client_origin st c) = Inr stamped"
      "wake_target lib env to
         \<lparr>tr_origin = client_origin st c, tr_envelope = e, tr_line_len = length stamped\<rparr> st = (woken, st')"
      "outs = AppendMailbox (target_mailbox to) line (client_origin st c) # woken @
         [Reply c (SendOk task rows)]"
proof (cases "resolve_op_identity env st c")
  case (Inl x)
  then show thesis using assms refused by (auto simp: send_def)
next
  case r: (Inr n)
  show thesis
  proof (cases "is_self_authored e (Some n)")
    case False
    then show thesis using assms r refused by (auto simp: send_def)
  next
    case a: True
    show thesis
    proof (cases "encode_envelope lib e c")
      case (Inl x)
      then show thesis
        using assms r a refused
        by (auto simp: send_def encode_envelope_def split: sum.splits if_splits)
    next
      case (Inr line)
      then have line: "canonicalize lib e = Inr line" "length line \<le> MAX_FRAME_BYTES"
        by (auto simp: encode_envelope_def split: sum.splits if_splits)
      show thesis
      proof (cases "stamp_line lib line (client_origin st c)")
        case (Inl x)
        then show thesis
          using assms r a Inr refused
          by (auto simp: send_def send_agent_def send_channel_def Let_def split: target.splits)
      next
        case stamped: (Inr stamped)
        show thesis
          using assms r a Inr stamped sent [OF r a line stamped]
          by (cases to) (auto simp: send_def send_agent_def send_channel_def send_ok_def
              target_mailbox_def wake_target_def Let_def split: prod.splits)
      qed
    qed
  qed
qed

definition origin_at :: "broker_state \<Rightarrow> client_id option \<Rightarrow> origin" where
  "origin_at st h =
     (case Option.bind h (bt_get (clients st)) of None \<Rightarrow> Unknown | Some cs \<Rightarrow> cs_origin cs)"

lemma origin_at_core: "same_core st st' \<Longrightarrow> origin_at st' h = origin_at st h"
proof (cases "Option.bind h (bt_get (clients st'))")
  case None
  assume "same_core st st'"
  then show ?thesis using None
    by (cases h) (auto simp: origin_at_def same_core_def dest!: spec [of _ "the h"] split: option.splits)
next
  case (Some cs')
  assume c: "same_core st st'"
  obtain x where x: "h = Some x" "bt_get (clients st') x = Some cs'" using Some by (cases h) auto
  obtain cs where "bt_get (clients st) x = Some cs" "core cs' = core cs"
    using same_core_get [OF c x(2)] by blast
  then show ?thesis using x core_fields(4) [of cs' cs] by (simp add: origin_at_def)
qed

lemma client_origin_eq:
  "client_origin st c =
     (case bt_get (clients st) c of
        None \<Rightarrow> Unknown
      | Some cs \<Rightarrow>
          if cs_name cs \<noteq> None then cs_origin cs
          else (case bind_as cs of None \<Rightarrow> Unknown | Some b \<Rightarrow> origin_at st (canonical_holder_id st b)))"
  unfolding client_origin_def origin_at_def by (rule refl)

lemma client_origin_core:
  assumes c: "same_core st st'" and inv: "broker_inv st" "broker_inv st'"
  shows "client_origin st' c = client_origin st c"
proof (cases "bt_get (clients st') c")
  case None
  then have "bt_get (clients st) c = None"
    using c by (cases "bt_get (clients st) c") (auto simp: same_core_def dest!: spec [of _ c])
  then show ?thesis using None by (simp add: client_origin_eq)
next
  case (Some cs')
  then obtain cs where cs: "bt_get (clients st) c = Some cs" "core cs' = core cs"
    by (rule same_core_get [OF c])
  show ?thesis
    unfolding client_origin_eq Some cs(1) option.case core_fields(1,3,4) [OF cs(2)]
      canonical_holder_id_core [OF c inv] origin_at_core [OF c]
    by (rule refl)
qed

lemma await_loop_no_append:
  "await_loop lib env c h f ms st = (Some outs, st') \<Longrightarrow> AppendMailbox m l o' \<notin> set outs"
  by (induction ms arbitrary: st)
    (auto simp: Let_def mk_err_def split: sum.splits if_splits)

lemma disconnect_all_no_append:
  "disconnect_all cs st = (outs, st') \<Longrightarrow> AppendMailbox m l o' \<notin> set outs"
  by (induction cs arbitrary: st outs)
    (auto simp: disconnect_def Let_def split: prod.splits option.splits if_splits)

lemma expire_all_no_append: "expire_all cs st = (outs, st') \<Longrightarrow> AppendMailbox m l o' \<notin> set outs"
  by (induction cs arbitrary: st outs) (auto split: prod.splits)

definition no_append :: "out list \<Rightarrow> bool" where
  "no_append outs \<longleftrightarrow> (\<forall>m l o'. AppendMailbox m l o' \<notin> set outs)"

lemma no_append_simps [simp]:
  "no_append []" "no_append (Reply c r # outs) \<longleftrightarrow> no_append outs"
  "no_append (mk_err c k s # outs) \<longleftrightarrow> no_append outs"
  "no_append (AdvanceCursor mb off # outs) \<longleftrightarrow> no_append outs"
  "no_append (ParkAwait c f d # outs) \<longleftrightarrow> no_append outs"
  "no_append (InspectRequest c ik # outs) \<longleftrightarrow> no_append outs"
  by (auto simp: no_append_def mk_err_def)

lemma hello_no_append: "no_append (fst (hello env wall st c p b))"
  by (simp add: hello_def split: option.split)

lemma register_no_append: "no_append (fst (register lib env wall st c n pid dir l o'))"
  by (simp add: register_def Let_def split: option.split sum.split)

lemma inbox_no_append: "inbox lib env st c since it = Some r \<Longrightarrow> no_append (fst r)"
  by (auto simp: inbox_def Let_def split: sum.splits option.splits prod.splits)

lemma await_no_append: "no_append (fst (await_envelope lib env st c ms task now))"
  by (auto simp: await_envelope_def Let_def no_append_def mk_err_def
      split: sum.split prod.split option.split dest: await_loop_no_append)

lemma join_no_append: "no_append (fst (join lib env st c ch role))"
  by (simp add: join_def Let_def split: sum.split)

lemma leave_no_append: "no_append (fst (leave env st c ch))"
  by (simp add: leave_def Let_def split: sum.split)

lemma small_no_append:
  "no_append (sessions st c)" "no_append (whoami env st c)"
  "no_append (fst (set_listen wall st c l))" "no_append (fst (set_wake_addr wall st c a))"
  by (simp_all add: sessions_def whoami_def set_listen_def set_wake_addr_def Let_def
      split: option.split prod.split)

lemmas handler_no_append =
  hello_no_append register_no_append inbox_no_append await_no_append join_no_append
  leave_no_append small_no_append

lemma dispatch_no_append:
  assumes "dispatch lib env wall st c msg now = Some r" "\<nexists>to e. msg = Send to e"
  shows "no_append (fst r)"
  using assms by (cases msg) (auto simp: handler_no_append)

lemma handle_append_is_send:
  assumes h: "handle lib env wall st input now = Some (outs, st')"
    and m: "AppendMailbox m line o' \<in> set outs"
  obtains c to e where "input = Wire c (Send to e)"
    "send lib env (touch_activity wall st c) c to e = (outs, st')"
proof (cases input)
  case (Wire c msg)
  have na: "\<not> no_append outs" using m by (auto simp: no_append_def)
  let ?st = "if touches msg then touch_activity wall st c else st"
  have d: "dispatch lib env wall ?st c msg now = Some (outs, st')"
    using h na unfolding Wire by (auto simp: handle_wire_def Let_def split: if_splits)
  then have "\<exists>to e. msg = Send to e" using dispatch_no_append [OF d] na by auto
  then show thesis using d that Wire by auto
next
  case (Disconnect c)
  then show thesis
    using h m disconnect_all_no_append [of "[c]" st] by (cases "disconnect st c") auto
next
  case Tick
  then show thesis
    using h m
    by (auto simp: tick_def Let_def split: prod.splits
        dest: disconnect_all_no_append expire_all_no_append)
qed

text \<open>
  C4: A mailbox is appended to only by a send whose sender is an authenticated identity, a
  registered connection or a proxy of a live one, and whose envelope names that identity in the
  last segment of \<open>from\<close>. The line is the envelope's canonical form, at most 16 MiB; it goes to
  the addressed mailbox, stamped with the sender's declared origin. The append is the first
  effect of the send, before any reply, and its only append.
\<close>

theorem append_authenticated:
  assumes "broker_reach lib st" "handle lib env wall st input now = Some (outs, st')"
    and "AppendMailbox m line o' \<in> set outs"
  shows "\<exists>c to e n from rest. input = Wire c (Send to e) \<and> resolve_op_identity env st c = Inr n \<and>
    jget_str e ''from'' = Some from \<and> last_segment from = n \<and> canonicalize lib e = Inr line \<and>
    length line \<le> MAX_FRAME_BYTES \<and> m = target_mailbox to \<and> o' = client_origin st c \<and>
    outs = AppendMailbox m line o' # rest \<and> (\<forall>x l p. AppendMailbox x l p \<notin> set rest)"
proof -
  obtain c to e where i: "input = Wire c (Send to e)"
      and s: "send lib env (touch_activity wall st c) c to e = (outs, st')"
    using assms(2,3) by (rule handle_append_is_send)
  have inv: "broker_inv st" using broker_reach_inv [OF assms(1)] .
  note core = touch_activity_core [of st wall c]
  have o: "client_origin (touch_activity wall st c) c = client_origin st c"
    by (rule client_origin_core [OF core inv touch_activity_inv [OF inv]])
  from s show ?thesis
  proof (cases rule: sendE)
    case (refused kind msg)
    then show ?thesis using assms(3) by (simp add: mk_err_def)
  next
    case (sent n line' stamped woken task rows)
    have "\<forall>x l p. AppendMailbox x l p \<notin> set (woken @ [Reply c (SendOk task rows)])"
      using wake_target_no_append [OF sent(6)] by auto
    moreover have "m = target_mailbox to" "line = line'" "o' = client_origin st c"
      using assms(3) sent(7) wake_target_no_append [OF sent(6)] o by auto
    moreover have "\<exists>from. jget_str e ''from'' = Some from \<and> last_segment from = n"
      using sent(2) by (auto simp: is_self_authored_def split: option.splits)
    ultimately show ?thesis
      using i sent(1,3,4,7) o resolve_core [OF core] by auto
  qed
qed

theorem append_authenticated_witness:
  "\<exists>n from. resolve_op_identity (demo_env bt_empty) demo_state 1 = Inr n \<and>
     jget_str demo_envelope ''from'' = Some from \<and> last_segment from = n \<and>
     client_origin demo_state 1 = Local"
  using append_authenticated [OF demo_reach demo_handle, of "Agent ''bob''" "[1]" Local] demo_outs
  by auto

end
