(* ===== verification/BrokerWake.thy ===== *)
theory BrokerWake
  imports BrokerProps
begin

text \<open>
  Provenance and waking: only a declaration at registration makes a connection local, only local
  senders wake anyone, and what a woken or polling waiter is handed.
\<close>

subsection \<open>Where a local origin comes from\<close>

definition gains_local :: "broker_state \<Rightarrow> broker_state \<Rightarrow> client_id \<Rightarrow> bool" where
  "gains_local st st' d \<longleftrightarrow>
     (\<exists>cs'. bt_get (clients st') d = Some cs' \<and> cs_origin cs' = Local) \<and>
     \<not> (\<exists>cs. bt_get (clients st) d = Some cs \<and> cs_origin cs = Local)"

lemma gains_local_core: "same_core st st' \<Longrightarrow> \<not> gains_local st st' d"
  by (auto simp: gains_local_def elim!: same_core_get dest: core_fields(4))

lemma gains_local_trans: "same_core st st1 \<Longrightarrow> gains_local st st' d \<Longrightarrow> gains_local st1 st' d"
  by (auto simp: gains_local_def elim!: same_core_get dest: core_fields(4))

lemma gains_local_hello: "hello env wall st c p b = (outs, st') \<Longrightarrow> \<not> gains_local st st' d"
  by (auto simp: hello_def hello_client_def gains_local_def split: if_splits option.splits)

lemma gains_local_register:
  "register lib env wall st c n pid dir l o' = (outs, st') \<Longrightarrow> gains_local st st' d \<Longrightarrow>
   d = c \<and> o' = Some Local"
  by (cases o') (auto simp: register_def Let_def register_client_def gains_local_def origin_default_def
      split: if_splits sum.splits option.splits)

lemma gains_local_join: "join lib env st c ch role = (outs, st') \<Longrightarrow> \<not> gains_local st st' d"
  by (auto simp: join_def Let_def commit_join_def gains_local_def
      split: sum.splits option.splits if_splits)

lemma gains_local_leave: "leave env st c ch = (outs, st') \<Longrightarrow> \<not> gains_local st st' d"
  by (auto simp: leave_def Let_def gains_local_def split: sum.splits if_splits)

lemma gains_local_flags:
  "set_listen wall st c l = (outs, st') \<Longrightarrow> \<not> gains_local st st' d"
  "set_wake_addr wall st c a = (outs, st') \<Longrightarrow> \<not> gains_local st st' d"
  by (auto simp: set_listen_def set_wake_addr_def Let_def gains_local_def
      split: option.splits if_splits)

lemma disconnect_clients:
  "disconnect st c = (outs, st') \<Longrightarrow> bt_get (clients st') d = (if d = c then None else bt_get (clients st) d)"
  by (auto simp: disconnect_def drop_client_def Let_def split: option.splits if_splits)

lemma disconnect_all_clients:
  "disconnect_all cs st = (outs, st') \<Longrightarrow>
   bt_get (clients st') d = (if d \<in> set cs then None else bt_get (clients st) d)"
  by (induction cs arbitrary: st outs) (auto split: prod.splits dest!: disconnect_clients [where d = d])

lemma expire_all_clients: "expire_all cs st = (outs, st') \<Longrightarrow> clients st' = clients st"
  by (induction cs arbitrary: st outs) (auto split: prod.splits)

lemma tick_clients:
  "tick env st now = (outs, st') \<Longrightarrow>
   bt_get (clients st') d = (if d \<in> set (dead_clients env st) then None else bt_get (clients st) d)"
  by (auto simp: tick_def Let_def split: prod.splits
      dest!: disconnect_all_clients [where d = d] expire_all_clients)

lemma dispatch_gains_local:
  assumes "dispatch lib env wall st c msg now = Some (outs, st')" "gains_local st st' d"
  shows "d = c \<and> (\<exists>n pid dir l. msg = Register n pid dir l (Some Local))"
  using assms
  by (cases msg)
    (auto dest: gains_local_hello gains_local_register gains_local_join gains_local_leave
      gains_local_flags gains_local_core [OF send_core] gains_local_core [OF inbox_core]
      gains_local_core [OF await_envelope_core] simp: gains_local_core [OF same_core_refl])

lemma handle_declares_local:
  assumes "handle lib env wall st input now = Some (outs, st')"
    and "bt_get (clients st') d = Some cs'" "cs_origin cs' = Local"
  shows "(\<exists>cs. bt_get (clients st) d = Some cs \<and> cs_origin cs = Local) \<or>
    (\<exists>n pid dir l. input = Wire d (Register n pid dir l (Some Local)))"
proof (rule ccontr)
  assume no: "\<not> ?thesis"
  then have g: "gains_local st st' d" using assms(2,3) by (auto simp: gains_local_def)
  show False
  proof (cases input)
    case (Wire c msg)
    let ?st = "if touches msg then touch_activity wall st c else st"
    have "same_core st ?st" by (auto intro: touch_activity_core)
    then have g': "gains_local ?st st' d" using g gains_local_trans by blast
    have "dispatch lib env wall ?st c msg now = Some (outs, st')"
      using assms(1) g unfolding Wire
      by (auto simp: handle_wire_def Let_def gains_local_def split: if_splits)
    then show False using dispatch_gains_local [OF _ g'] no Wire by auto
  next
    case (Disconnect c)
    then show False
      using assms(1) g disconnect_clients [of st c outs st' d]
      by (auto simp: gains_local_def split: if_splits)
  next
    case Tick
    then show False
      using assms(1) g tick_clients [of env st now outs st' d]
      by (auto simp: gains_local_def split: if_splits)
  qed
qed

lemma client_origin_Local:
  assumes "client_origin st d = Local"
  obtains h hs where "bt_get (clients st) h = Some hs" "cs_origin hs = Local"
    "h = d \<or> (\<exists>cs b. bt_get (clients st) d = Some cs \<and> cs_name cs = None \<and> bind_as cs = Some b \<and> cs_name hs = Some b)"
proof -
  obtain cs where cs: "bt_get (clients st) d = Some cs"
    using assms by (auto simp: client_origin_def split: option.splits)
  show thesis
  proof (cases "cs_name cs")
    case (Some n)
    then show thesis using assms cs that [of d cs] by (simp add: client_origin_def)
  next
    case None
    then obtain b h hs where b: "bind_as cs = Some b" "canonical_holder_id st b = Some h"
        "bt_get (clients st) h = Some hs" "cs_origin hs = Local"
      using assms cs by (auto simp: client_origin_def split: option.splits bind_splits)
    have "cs_name hs = Some b"
      using b(2,3) by (auto simp: canonical_holder_id_def elim!: bt_find_key_Some)
    then show thesis using b None cs that [of h hs] by blast
  qed
qed

text \<open>
  C5: The declared origin of a connection becomes local only through its own \<open>Register\<close> frame that declares
  it: a frame that omits the origin, a greeting, a message or a poll never makes one local. The origin a
  connection acts with, which stamps what it sends, is local only through such a declaration: its own, or,
  for a proxy, that of the connection that holds the name it is bound to.
\<close>

theorem local_origin_declared:
  assumes "handle lib env wall st input now = Some (outs, st')"
  shows "(\<forall>cs'. bt_get (clients st') d = Some cs' \<and> cs_origin cs' = Local \<longrightarrow>
      (\<exists>cs. bt_get (clients st) d = Some cs \<and> cs_origin cs = Local) \<or>
      (\<exists>n pid dir l. input = Wire d (Register n pid dir l (Some Local)))) \<and>
    (client_origin st' d = Local \<longrightarrow>
      (\<exists>h hs. bt_get (clients st') h = Some hs \<and> cs_origin hs = Local \<and>
        (h = d \<or> (\<exists>cs b. bt_get (clients st') d = Some cs \<and> cs_name cs = None \<and> bind_as cs = Some b \<and>
           cs_name hs = Some b)) \<and>
        ((\<exists>cs. bt_get (clients st) h = Some cs \<and> cs_origin cs = Local) \<or>
         (\<exists>n pid dir l. input = Wire h (Register n pid dir l (Some Local))))))"
proof (intro conjI allI impI)
  fix cs' assume "bt_get (clients st') d = Some cs' \<and> cs_origin cs' = Local"
  then show "(\<exists>cs. bt_get (clients st) d = Some cs \<and> cs_origin cs = Local) \<or>
      (\<exists>n pid dir l. input = Wire d (Register n pid dir l (Some Local)))"
    using handle_declares_local [OF assms] by blast
next
  assume "client_origin st' d = Local"
  then obtain h hs where h: "bt_get (clients st') h = Some hs" "cs_origin hs = Local"
      "h = d \<or> (\<exists>cs b. bt_get (clients st') d = Some cs \<and> cs_name cs = None \<and> bind_as cs = Some b \<and> cs_name hs = Some b)"
    by (rule client_origin_Local)
  show "\<exists>h hs. bt_get (clients st') h = Some hs \<and> cs_origin hs = Local \<and>
      (h = d \<or> (\<exists>cs b. bt_get (clients st') d = Some cs \<and> cs_name cs = None \<and> bind_as cs = Some b \<and>
         cs_name hs = Some b)) \<and>
      ((\<exists>cs. bt_get (clients st) h = Some cs \<and> cs_origin cs = Local) \<or>
       (\<exists>n pid dir l. input = Wire h (Register n pid dir l (Some Local))))"
    by (intro exI conjI, rule h(1), rule h(2), rule h(3), rule handle_declares_local [OF assms h(1,2)])
qed

theorem local_origin_declared_witness:
  "client_origin (snd demo_sent) 1 = Local \<and>
   (\<exists>cs. bt_get (clients demo_state) 1 = Some cs \<and> cs_origin cs = Local)"
proof -
  have "map_option cs_origin (bt_get (clients (snd demo_sent)) 1) = Some Local" by code_simp
  moreover have "client_origin (snd demo_sent) 1 = Local" by code_simp
  ultimately show ?thesis using local_origin_declared [OF demo_handle, of 1] by auto
qed

subsection \<open>What an await is handed\<close>

definition await_entry_ok :: "ext_lib \<Rightarrow> await_filter \<Rightarrow> string option \<Rightarrow> stamped_envelope \<Rightarrow> bool" where
  "await_entry_ok lib f who x \<longleftrightarrow>
     st_origin x = Local \<and> filter_matches lib f (st_envelope x) \<and>
     \<not> is_self_authored (st_envelope x) who"

lemma stamp_all_iff: "x \<in> set (stamp_all ds) \<longleftrightarrow> (st_origin x, st_envelope x) \<in> set ds"
  by (force simp: stamp_all_def)

lemma length_stamp_all [simp]: "length (stamp_all ds) = length ds"
  by (simp add: stamp_all_def)

lemma drain_await_batch_sound:
  assumes "drain_await_batch lib env st owner m f trig = Inr b"
  shows "ab_mailbox b = m \<and> length (ab_envelopes b) \<le> AWAIT_BATCH_CAP \<and>
    (\<forall>x \<in> set (ab_envelopes b). await_entry_ok lib f (awaiter_identity st owner m) x)"
proof -
  obtain d where d: "drain_from env m (await_offset st owner m) = Inr d"
    using assms by (auto simp: drain_await_batch_def Let_def split: sum.splits)
  let ?who = "awaiter_identity st owner m"
  let ?w = "walk lib (await_offset st owner m) d (await_policy f ?who)"
  have cap: "p_cap (await_policy f ?who) = Some (CapDelivered AWAIT_BATCH_CAP)" "0 < AWAIT_BATCH_CAP"
    by (simp_all add: await_policy_def AWAIT_BATCH_CAP_def)
  have le: "length (wo_delivered ?w) \<le> AWAIT_BATCH_CAP" by (rule walk_cap [OF cap])
  have lt: "wo_fully_drained ?w \<Longrightarrow> length (wo_delivered ?w) < AWAIT_BATCH_CAP"
    by (rule walk_cap_full [OF cap])
  have del: "\<forall>x \<in> set (stamp_all (wo_delivered ?w)). await_entry_ok lib f ?who x"
    using walk_delivered [of _ _ lib _ d "await_policy f ?who"]
    by (auto simp: stamp_all_iff await_entry_ok_def await_policy_def)
  have b: "ab_mailbox b = m" "ab_envelopes b = fst (if wo_fully_drained ?w
      then fold_trigger lib f ?who trig (stamp_all (wo_delivered ?w), wo_next_offset ?w)
      else (stamp_all (wo_delivered ?w), wo_next_offset ?w))"
    using assms d by (auto simp: drain_await_batch_def Let_def split: prod.splits)
  show ?thesis
    using b le lt del
    by (cases trig) (auto simp: fold_trigger_def Let_def await_entry_ok_def)
qed

text \<open>Every \<open>AwaitOk\<close> an effect list holds is sound for the client it answers.\<close>

definition await_reply_ok :: "ext_lib \<Rightarrow> bus_reply \<Rightarrow> bool" where
  "await_reply_ok lib r \<longleftrightarrow>
     (\<forall>es m k. r = AwaitOk es m k \<longrightarrow>
        es \<noteq> [] \<and> length es \<le> AWAIT_BATCH_CAP \<and> (\<forall>x \<in> set es. st_origin x = Local))"

definition outs_await_ok :: "ext_lib \<Rightarrow> out list \<Rightarrow> bool" where
  "outs_await_ok lib outs \<longleftrightarrow> (\<forall>w r. Reply w r \<in> set outs \<longrightarrow> await_reply_ok lib r)"

lemma await_reply_for_mailbox_ok:
  "await_reply_for_mailbox lib env st c m f t = (r, st') \<Longrightarrow> await_reply_ok lib r"
  by (auto simp: await_reply_for_mailbox_def Let_def await_reply_ok_def await_entry_ok_def
      split: sum.splits if_splits dest!: drain_await_batch_sound)

lemma wake_waiters_await_ok: "wake_waiters lib env m t ws st = (outs, st') \<Longrightarrow> outs_await_ok lib outs"
  by (induction ws arbitrary: st outs)
    (auto simp: outs_await_ok_def split: option.splits prod.splits
      dest: await_reply_for_mailbox_ok)

lemma wake_members_await_ok:
  "wake_members lib env ch t ms st = (outs, st') \<Longrightarrow> outs_await_ok lib outs"
proof (induction ms arbitrary: st outs)
  case (Cons m ms)
  then show ?case
    using wake_waiters_await_ok
    by (auto simp: outs_await_ok_def Let_def split: if_splits prod.splits)
qed (simp add: outs_await_ok_def)

lemma wake_target_await_ok: "wake_target lib env to t st = (outs, st') \<Longrightarrow> outs_await_ok lib outs"
  by (auto simp: wake_target_def split: target.splits
      dest: wake_waiters_await_ok wake_members_await_ok)

lemma await_loop_await_ok:
  "await_loop lib env c h f ms st = (Some outs, st') \<Longrightarrow> outs_await_ok lib outs"
proof (induction ms arbitrary: st)
  case (Cons m ms)
  show ?case
  proof (cases "drain_await_batch lib env st h m f None")
    case (Inl e)
    then show ?thesis
      using Cons.prems by (cases e) (auto simp: outs_await_ok_def await_reply_ok_def mk_err_def)
  next
    case (Inr b)
    then show ?thesis
      using Cons drain_await_batch_sound [OF Inr]
      by (auto simp: outs_await_ok_def await_reply_ok_def await_entry_ok_def Let_def split: if_splits)
  qed
qed simp

lemma outs_await_ok_simps [simp]:
  "outs_await_ok lib []"
  "outs_await_ok lib (x # outs) \<longleftrightarrow>
     (case x of Reply c r \<Rightarrow> await_reply_ok lib r | _ \<Rightarrow> True) \<and> outs_await_ok lib outs"
  "outs_await_ok lib (xs @ ys) \<longleftrightarrow> outs_await_ok lib xs \<and> outs_await_ok lib ys"
  by (auto simp: outs_await_ok_def split: out.splits)

lemma await_reply_ok_simps [simp]:
  "await_reply_ok lib (HelloOk p)" "await_reply_ok lib (HelloErr k s)"
  "await_reply_ok lib (RegisterOk a ds ps)" "await_reply_ok lib (SendOk t rows)"
  "await_reply_ok lib (InboxOk es off)" "await_reply_ok lib AwaitTimeout"
  "await_reply_ok lib (JoinOk c ms ds)" "await_reply_ok lib (LeaveOk c)"
  "await_reply_ok lib (SessionsOk rs)" "await_reply_ok lib (WhoamiOk act js)"
  "await_reply_ok lib (SetListenOk b)" "await_reply_ok lib (SetWakeAddrOk w)"
  "await_reply_ok lib (ErrReply k s)"
  by (simp_all add: await_reply_ok_def)

lemma mk_err_await_ok [simp]: "case mk_err c k s of Reply c r \<Rightarrow> await_reply_ok lib r | _ \<Rightarrow> True"
  by (simp add: mk_err_def)

lemma send_await_ok:
  assumes "send lib env st c to e = (outs, st')" shows "outs_await_ok lib outs"
  using assms by (cases rule: sendE) (auto dest: wake_target_await_ok)

lemma await_envelope_await_ok: "outs_await_ok lib (fst (await_envelope lib env st c ms task now))"
  by (auto simp: await_envelope_def Let_def split: sum.split prod.split option.split
      dest: await_loop_await_ok)

lemma inbox_await_ok: "inbox lib env st c since it = Some r \<Longrightarrow> outs_await_ok lib (fst r)"
  by (auto simp: inbox_def Let_def split: sum.splits option.splits prod.splits)

lemma register_await_ok: "outs_await_ok lib (fst (register lib env wall st c n pid dir l o'))"
  by (simp add: register_def Let_def split: option.split sum.split)

lemma other_await_ok:
  "outs_await_ok lib (fst (hello env wall st c p b))"
  "outs_await_ok lib (fst (join lib env st c ch role))"
  "outs_await_ok lib (fst (leave env st c ch))"
  "outs_await_ok lib (sessions st c)" "outs_await_ok lib (whoami env st c)"
  "outs_await_ok lib (fst (set_listen wall st c l))"
  "outs_await_ok lib (fst (set_wake_addr wall st c a))"
  by (simp_all add: hello_def join_def leave_def sessions_def whoami_def set_listen_def
      set_wake_addr_def Let_def split: option.split sum.split prod.split)

lemma dispatch_await_ok:
  assumes "dispatch lib env wall st c msg now = Some r"
  shows "outs_await_ok lib (fst r)"
proof -
  have "outs_await_ok lib (fst (send lib env st c to e))" for to e
    using send_await_ok by (cases "send lib env st c to e") auto
  then show ?thesis
    using assms
    by (cases msg)
      (auto simp: await_envelope_await_ok inbox_await_ok register_await_ok other_await_ok)
qed

lemma disconnect_await_ok: "disconnect st c = (outs, st') \<Longrightarrow> outs_await_ok lib outs"
  by (auto simp: disconnect_def Let_def split: option.splits if_splits)

lemma tick_await_ok:
  assumes "tick env st now = (outs, st')" shows "outs_await_ok lib outs"
proof -
  have "disconnect_all cs s = (os, s') \<Longrightarrow> outs_await_ok lib os" for cs s os s'
    by (induction cs arbitrary: s os) (auto split: prod.splits dest: disconnect_await_ok)
  moreover have "expire_all cs s = (os, s') \<Longrightarrow> outs_await_ok lib os" for cs s os s'
    by (induction cs arbitrary: s os) (auto split: prod.splits)
  ultimately show ?thesis
    using assms by (auto simp: tick_def Let_def split: prod.splits)
qed

text \<open>
  C6: Whatever the input, an \<open>AwaitOk\<close> reply carries at least one and at most 50 envelopes, and
  every one of them is of local origin: a relayed or unstamped message is never handed to a
  waiting agent automatically.
\<close>

theorem await_ok_only_local:
  assumes "handle lib env wall st input now = Some (outs, st')"
    and "Reply w (AwaitOk es m k) \<in> set outs"
  shows "es \<noteq> [] \<and> length es \<le> 50 \<and> (\<forall>x \<in> set es. st_origin x = Local)"
proof -
  have "outs_await_ok lib outs"
  proof (cases input)
    case (Wire c msg)
    then show ?thesis
      using assms(1) by (auto simp: handle_wire_def Let_def split: if_splits dest!: dispatch_await_ok)
  qed (use assms(1) in \<open>auto dest: disconnect_await_ok tick_await_ok\<close>)
  then show ?thesis
    using assms(2) by (auto simp: outs_await_ok_def await_reply_ok_def AWAIT_BATCH_CAP_def)
qed

theorem await_ok_only_local_witness:
  "Reply 2 (AwaitOk [\<lparr>st_origin = Local, st_envelope = demo_envelope\<rparr>] (Agent ''bob'') 2)
     \<in> set (fst demo_sent) \<and>
   length [\<lparr>st_origin = Local, st_envelope = demo_envelope\<rparr>] \<le> 50"
  using await_ok_only_local [OF demo_handle,
      of 2 "[\<lparr>st_origin = Local, st_envelope = demo_envelope\<rparr>]" "Agent ''bob''" 2]
  by (simp add: demo_outs)

subsection \<open>Who is woken\<close>

lemma wake_target_nonlocal:
  assumes "tr_origin t \<noteq> Local" shows "wake_target lib env to t st = ([], st)"
proof -
  have none: "waiting_clients_for_name lib env s n e (tr_origin t) = []" for s n e
    using assms by (simp add: waiting_clients_for_name_def)
  have "wake_members lib env ch t ms st = ([], st)" for ch ms
    by (induction ms) (simp_all add: none)
  then show ?thesis by (simp add: wake_target_def none split: target.split)
qed

text \<open>
  C7: A message from a sender whose origin is not local (a relayed sender, or one that declared
  nothing) wakes nobody: it is appended or refused, every parked await stays parked, and only the
  sender is answered.
\<close>

theorem nonlocal_send_wakes_nobody:
  assumes "broker_reach lib st" "client_origin st c \<noteq> Local"
    and "handle lib env wall st (Wire c (Send to e)) now = Some (outs, st')"
  shows "pending_awaits st' = pending_awaits st \<and>
    (\<forall>w r. Reply w r \<in> set outs \<longrightarrow> w = c) \<and> (\<forall>w. UnparkAwait w \<notin> set outs)"
proof (cases "map_option handshaked (bt_get (clients st) c) = Some True")
  case False
  then show ?thesis using assms(3) by (auto simp: handle_wire_def mk_err_def)
next
  case True
  let ?st = "touch_activity wall st c"
  have inv: "broker_inv st" using broker_reach_inv [OF assms(1)] .
  have o: "client_origin ?st c = client_origin st c"
    by (rule client_origin_core [OF touch_activity_core inv touch_activity_inv [OF inv]])
  have p: "pending_awaits ?st = pending_awaits st"
    by (auto simp: touch_activity_def Let_def split: option.splits)
  have "send lib env ?st c to e = (outs, st')"
    using assms(3) True by (simp add: handle_wire_def)
  then show ?thesis
  proof (cases rule: sendE)
    case (refused kind msg)
    then show ?thesis using p by (simp add: mk_err_def)
  next
    case (sent n line stamped woken task rows)
    then have "woken = []" "st' = ?st"
      using wake_target_nonlocal [of "\<lparr>tr_origin = client_origin ?st c, tr_envelope = e,
          tr_line_len = length stamped\<rparr>" lib env to ?st] assms(2) o
      by auto
    then show ?thesis using sent(7) p by auto
  qed
qed

text \<open>Alice speaks through a gateway; Bob waits.\<close>

definition relayed_inputs :: "broker_input list" where
  "relayed_inputs =
     [Wire 1 (Hello 3 ''gw'' None), Wire 1 (Register ''alice'' 11 None False (Some Gateway)),
      Wire 2 (Hello 3 ''cli'' None), Wire 2 (Register ''bob'' 12 None True None),
      Wire 2 (Await 1000 None)]"

definition relayed_state :: broker_state where
  "relayed_state = snd (the (run demo_lib (demo_env bt_empty) relayed_inputs (broker_new 0)))"

theorem nonlocal_send_wakes_nobody_witness:
  "client_origin relayed_state 1 \<noteq> Local \<and> bt_keys (pending_awaits relayed_state) = [2] \<and>
   (\<exists>outs st'. handle demo_lib (demo_env bt_empty) 0 relayed_state demo_send 0 = Some (outs, st') \<and>
      AppendMailbox (Agent ''bob'') [1] Gateway \<in> set outs \<and> pending_awaits st' = pending_awaits relayed_state)"
proof -
  let ?h = "handle demo_lib (demo_env bt_empty) 0 relayed_state demo_send 0"
  have "run demo_lib (demo_env bt_empty) relayed_inputs (broker_new 0) \<noteq> None" by code_simp
  then have r: "broker_reach demo_lib relayed_state"
    using run_reach [OF _ broker_reach.start] unfolding relayed_state_def by (metis option.collapse prod.collapse)
  have o: "client_origin relayed_state 1 \<noteq> Local" "bt_keys (pending_awaits relayed_state) = [2]" by code_simp+
  have a: "map_option (\<lambda>x. hd (fst x)) ?h = Some (AppendMailbox (Agent ''bob'') [1] Gateway)"
    "map_option (\<lambda>x. fst x \<noteq> []) ?h = Some True" by code_simp+
  then obtain outs st' where h: "?h = Some (outs, st')" by (metis (lifting) option.map_disc_iff option.exhaust option.distinct(1) prod.exhaust)
  have "AppendMailbox (Agent ''bob'') [1] Gateway \<in> set outs"
    using a h by (cases outs) (auto simp del: handle.simps)
  then show ?thesis using nonlocal_send_wakes_nobody [OF r o(1) h] o h by blast
qed

subsection \<open>A wake is not an error\<close>

definition drains_ok :: "broker_env \<Rightarrow> bool" where
  "drains_ok env \<longleftrightarrow> (\<forall>m k. \<exists>d. drain_from env m k = Inr d)"

lemma waits_resolve: "waits_for_name env st n w \<Longrightarrow> resolve_op_identity env st w = Inr n"
  by (auto simp: waits_for_name_def resolve_op_identity_def effective_identity_def
      split: option.splits)

lemma waits_core:
  assumes "same_core st st'" "waits_for_name env st n w" shows "waits_for_name env st' n w"
proof -
  obtain cs where cs: "bt_get (clients st) w = Some cs"
    using assms(2) by (auto simp: waits_for_name_def split: option.splits)
  obtain cs' where cs': "bt_get (clients st') w = Some cs'" "core cs = core cs'"
    using same_core_get [OF same_core_sym [OF assms(1)] cs] by blast
  show ?thesis
    using assms(2) cs cs'(1) core_fields [OF cs'(2)] proxy_holder_alive_core [OF assms(1)]
    by (auto simp: waits_for_name_def split: option.splits)
qed

lemma awaiter_identity_holder:
  assumes "holder st n h"
  shows "awaiter_identity st h m = (case m of Agent _ \<Rightarrow> None | Channel _ \<Rightarrow> Some n)"
  using assms
  by (auto simp: holder_def awaiter_identity_def effective_identity_def ok_opt_def
      split: mailbox_name.split)

lemma drain_await_batch_eq:
  assumes "drain_from env m (await_offset st h m) = Inr d"
    and "w = walk lib (await_offset st h m) d (await_policy f (awaiter_identity st h m))"
    and "b = (if wo_fully_drained w
      then fold_trigger lib f (awaiter_identity st h m) trig (stamp_all (wo_delivered w), wo_next_offset w)
      else (stamp_all (wo_delivered w), wo_next_offset w))"
  shows "drain_await_batch lib env st h m f trig =
    Inr \<lparr>ab_mailbox = m, ab_envelopes = fst b, ab_next_offset = snd b,
         ab_fully_drained = wo_fully_drained w\<rparr>"
  unfolding assms(2,3) by (simp add: drain_await_batch_def assms(1) Let_def split: prod.split)

lemma fold_trigger_taken:
  "tr_origin t = Local \<Longrightarrow> \<not> is_self_authored (tr_envelope t) who \<Longrightarrow>
   filter_matches lib f (tr_envelope t) \<Longrightarrow>
   fold_trigger lib f who (Some t) (es, k) =
     (es @ [\<lparr>st_origin = Local, st_envelope = tr_envelope t\<rparr>],
      k + tr_line_len t + JSONL_RECORD_TERMINATOR_LEN)"
  by (simp add: fold_trigger_def Let_def)

lemma await_reply_no_error:
  assumes inv: "broker_inv st" and w: "waits_for_name env st n w" and d: "drains_ok env"
    and f: "filter_matches lib f (tr_envelope t)" and l: "tr_origin t = Local"
    and s: "\<And>ch. m = Channel ch \<Longrightarrow> \<not> is_self_authored (tr_envelope t) (Some n)"
    and r: "await_reply_for_mailbox lib env st w m f (Some t) = (r, st')"
  shows "r \<noteq> ErrReply k msg"
proof -
  obtain h where h: "canonical_holder_id st n = Some h" "holder st n h"
    using resolve_holder [OF inv waits_resolve [OF w]] .
  have owner: "resolve_await_owner env st w = Inr (n, h)"
    using waits_resolve [OF w] h(1) by (simp add: resolve_await_owner_def)
  have who: "\<not> is_self_authored (tr_envelope t) (awaiter_identity st h m)"
    using s awaiter_identity_holder [OF h(2), of m]
    by (cases m) (auto simp: is_self_authored_def)
  obtain dr where dr: "drain_from env m (await_offset st h m) = Inr dr"
    using d by (auto simp: drains_ok_def)
  define wk where "wk = walk lib (await_offset st h m) dr (await_policy f (awaiter_identity st h m))"
  obtain b where b: "drain_await_batch lib env st h m f (Some t) = Inr b"
      "ab_fully_drained b \<longrightarrow> ab_envelopes b \<noteq> []"
    using drain_await_batch_eq [OF dr wk_def refl, of "Some t"] fold_trigger_taken [OF l who f] by simp
  show ?thesis
    using r owner b by (auto simp: await_reply_for_mailbox_def Let_def split: if_splits)
qed

lemma await_reply_pending:
  "await_reply_for_mailbox lib env st w m f t = (r, st') \<Longrightarrow> pending_awaits st' = pending_awaits st"
  by (auto simp: await_reply_for_mailbox_def Let_def split: sum.splits if_splits)

lemma wake_waiters_no_error:
  assumes "broker_inv st" "drains_ok env" "tr_origin t = Local"
    and "\<And>ch. m = Channel ch \<Longrightarrow> \<not> is_self_authored (tr_envelope t) (Some n)"
    and "\<forall>w \<in> set ws. waits_for_name env st n w"
    and "\<forall>w \<in> set ws. \<forall>p. bt_get (pending_awaits st) w = Some p \<longrightarrow> filter_matches lib (pa_filter p) (tr_envelope t)"
    and "wake_waiters lib env m t ws st = (outs, st')"
  shows "Reply w (ErrReply k msg) \<notin> set outs"
  using assms(1,5-7)
proof (induction ws arbitrary: st outs)
  case (Cons v ws)
  show ?case
  proof (cases "bt_get (pending_awaits st) v")
    case None
    then show ?thesis using Cons by simp
  next
    case (Some p)
    obtain r st1 where r: "await_reply_for_mailbox lib env (unpark v st) v m (pa_filter p) (Some t) = (r, st1)"
      by (cases "await_reply_for_mailbox lib env (unpark v st) v m (pa_filter p) (Some t)")
    obtain rest where rest: "wake_waiters lib env m t ws st1 = (rest, st')"
        "outs = Reply v r # UnparkAwait v # rest"
      using Cons.prems(4) Some r by (auto split: prod.splits)
    have core: "same_core st (unpark v st)" "same_core st st1"
      using await_reply_core [OF r] by (simp_all add: same_core_def)
    have "r \<noteq> ErrReply k msg"
      using await_reply_no_error [OF unpark_inv [OF Cons.prems(1)] waits_core [OF core(1)] assms(2) _ assms(3,4) r]
        Cons.prems(2,3) Some by auto
    moreover have "Reply w (ErrReply k msg) \<notin> set rest"
    proof (rule Cons.IH [OF _ _ _ rest(1)])
      show "broker_inv st1" by (rule await_reply_inv [OF unpark_inv [OF Cons.prems(1)] r])
      show "\<forall>w \<in> set ws. waits_for_name env st1 n w" using Cons.prems(2) waits_core [OF core(2)] by auto
      show "\<forall>w \<in> set ws. \<forall>p. bt_get (pending_awaits st1) w = Some p \<longrightarrow>
          filter_matches lib (pa_filter p) (tr_envelope t)"
        using Cons.prems(3) await_reply_pending [OF r] by (auto split: if_splits)
    qed
    ultimately show ?thesis using rest(2) by auto
  qed
qed simp

lemma waiting_clients_iff:
  "w \<in> set (waiting_clients_for_name lib env st n e o') \<longleftrightarrow>
     o' = Local \<and> waits_for_name env st n w \<and>
     (\<exists>p. bt_get (pending_awaits st) w = Some p \<and> filter_matches lib (pa_filter p) e)"
  by (auto simp: waiting_clients_for_name_def image_iff bt_entries_iff)

lemma wake_selected_no_error:
  assumes "broker_inv st" "drains_ok env"
    and "\<And>ch. m = Channel ch \<Longrightarrow> \<not> is_self_authored (tr_envelope t) (Some n)"
    and "wake_waiters lib env m t (waiting_clients_for_name lib env st n (tr_envelope t) (tr_origin t)) st = (outs, st')"
  shows "Reply w (ErrReply k msg) \<notin> set outs"
proof (cases "tr_origin t = Local")
  case True
  show ?thesis
    by (rule wake_waiters_no_error [OF assms(1,2) True assms(3) _ _ assms(4)])
      (auto simp: waiting_clients_iff)
next
  case False
  then show ?thesis using assms(4) by (simp add: waiting_clients_for_name_def)
qed

lemma wake_members_no_error:
  "broker_inv st \<Longrightarrow> drains_ok env \<Longrightarrow> wake_members lib env ch t ms st = (outs, st') \<Longrightarrow>
   Reply w (ErrReply k msg) \<notin> set outs"
proof (induction ms arbitrary: st outs)
  case (Cons n ms)
  show ?case
  proof (cases "is_self_authored (tr_envelope t) (Some n)")
    case True
    then show ?thesis using Cons by simp
  next
    case False
    let ?ws = "waiting_clients_for_name lib env st n (tr_envelope t) (tr_origin t)"
    obtain o1 st1 where w: "wake_waiters lib env (Channel ch) t ?ws st = (o1, st1)"
      by (cases "wake_waiters lib env (Channel ch) t ?ws st")
    then show ?thesis
      using Cons.IH [of st1] Cons.prems False wake_selected_no_error [OF Cons.prems(1,2) _ w]
        wake_waiters_inv [OF Cons.prems(1) w]
      by (auto simp: Let_def split: prod.splits)
  qed
qed simp

text \<open>
  C8: While the mailboxes can be read, a send answers no waiter with an error: either the send
  itself is refused, with a single error to the sender, or no reply among its effects is an
  error. In particular a publisher waiting on its own channel is not woken and cut off by its
  own post.
\<close>

theorem wake_is_never_an_error:
  assumes "broker_reach lib st" "drains_ok env"
    and "handle lib env wall st (Wire c (Send to e)) now = Some (outs, st')"
  shows "(\<exists>kind msg. outs = [Reply c (ErrReply kind msg)]) \<or>
    (\<forall>w kind msg. Reply w (ErrReply kind msg) \<notin> set outs)"
proof (cases "map_option handshaked (bt_get (clients st) c) = Some True")
  case False
  then show ?thesis using assms(3) by (auto simp: handle_wire_def mk_err_def)
next
  case True
  let ?st = "touch_activity wall st c"
  have inv: "broker_inv ?st" using touch_activity_inv [OF broker_reach_inv [OF assms(1)]] .
  have "send lib env ?st c to e = (outs, st')"
    using assms(3) True by (simp add: handle_wire_def)
  then show ?thesis
  proof (cases rule: sendE)
    case (refused kind msg)
    then show ?thesis by (simp add: mk_err_def)
  next
    case (sent n line stamped woken task rows)
    have "Reply w (ErrReply kind msg) \<notin> set woken" for w kind msg
    proof (cases to)
      case (ToAgent a)
      show ?thesis
        using wake_selected_no_error [OF inv assms(2) _ sent(6) [unfolded ToAgent wake_target_def target.case]]
        by blast
    next
      case (ToChannel ch)
      then show ?thesis
        using wake_members_no_error [OF inv assms(2)] sent(6) by (simp add: wake_target_def)
    qed
    then show ?thesis using sent(7) by auto
  qed
qed

theorem wake_is_never_an_error_witness:
  "drains_ok (demo_env bt_empty) \<and>
   ((\<exists>kind msg. fst demo_sent = [Reply 1 (ErrReply kind msg)]) \<or>
    (\<forall>w kind msg. Reply w (ErrReply kind msg) \<notin> set (fst demo_sent)))"
proof -
  have "drains_ok (demo_env bt_empty)"
    using inmem.drain_total by (auto simp: drains_ok_def demo_env_def)
  then show ?thesis using wake_is_never_an_error [OF demo_reach _ demo_handle] by blast
qed

end
