(* ===== verification/BrokerNames.thy ===== *)
theory BrokerNames
  imports BrokerWake
begin

text \<open>
  The name service the broker implements: a specification with claim and release, and the proof
  that every input moves the broker's lookup as the specification says.
\<close>

subsection \<open>The name service\<close>

text \<open>
  The specification: a map from names to connections. A claim succeeds unless another connection
  holds the name, and drops the claimant's earlier name; a release forgets a connection.
\<close>

type_synonym names = "string \<Rightarrow> client_id option"

definition release :: "client_id \<Rightarrow> names \<Rightarrow> names" where
  "release c m = (\<lambda>n. if m n = Some c then None else m n)"

definition claim :: "client_id \<Rightarrow> string \<Rightarrow> names \<Rightarrow> names option" where
  "claim c n m = (if m n = None \<or> m n = Some c then Some ((release c m)(n \<mapsto> c)) else None)"

text \<open>The implementation's map: the lookup the handlers use.\<close>

definition names_of :: "broker_state \<Rightarrow> names" where
  "names_of st = canonical_holder_id st"

lemma names_of_Some: "broker_inv st \<Longrightarrow> names_of st n = Some c \<longleftrightarrow> holder st n c"
  by (simp add: names_of_def canonical_holder_id_Some)

lemma option_eqI: "(\<And>d. a = Some d \<longleftrightarrow> b = Some d) \<Longrightarrow> a = b"
  by (cases a; cases b) auto

lemma names_of_eqI:
  assumes "broker_inv st" "broker_inv st'" "\<And>n c. holder st' n c \<longleftrightarrow> holder st n c"
  shows "names_of st' = names_of st"
  by (intro ext option_eqI) (simp add: names_of_Some assms)

lemma names_core:
  "same_core st st' \<Longrightarrow> broker_inv st \<Longrightarrow> broker_inv st' \<Longrightarrow> names_of st' = names_of st"
  by (auto simp: names_of_def canonical_holder_id_core)

lemma release_Some: "release c m n = Some d \<longleftrightarrow> m n = Some d \<and> d \<noteq> c"
  by (auto simp: release_def)

lemma names_release:
  assumes "broker_inv st" "broker_inv st'"
    and "\<And>d. bt_get (clients st') d = (if d = c then None else bt_get (clients st) d)"
  shows "names_of st' = release c (names_of st)"
proof -
  have "holder st' n d \<longleftrightarrow> holder st n d \<and> d \<noteq> c" for n d
    using assms(3) by (auto simp: holder_def)
  then show ?thesis by (intro ext option_eqI) (simp add: names_of_Some release_Some assms)
qed

lemma names_upd:
  assumes "broker_inv st" "broker_inv st'" "\<And>cs. cs_name (f cs) = cs_name cs"
    and "clients st' = bt_update c f (clients st)"
  shows "names_of st' = names_of st"
  by (rule names_of_eqI [OF assms(1,2)]) (use assms(3,4) in \<open>auto simp: holder_def\<close>)

lemma hello_names:
  assumes "broker_inv st" "bt_get (clients st) c = None" "hello env wall st c p b = (outs, st')"
  shows "names_of st' = names_of st"
  by (rule names_of_eqI [OF assms(1) hello_inv [OF assms]])
    (use assms(2,3) in \<open>auto simp: hello_def holder_def hello_client_def split: if_splits option.splits\<close>)

text \<open>A registration is refused with one error and no change, or commits.\<close>

lemma registerE:
  assumes "register lib env wall st c n pid dir l o' = (outs, st')"
  obtains (refused) kind msg where "outs = [mk_err c kind msg]" "st' = st"
  | (committed) d cs where "pid \<noteq> 0" "\<not> name_taken st c n" "bt_get (clients st) c = Some cs"
      "bind_as cs = None" "drain_from env (Agent n) 0 = Inr d"
      "outs = [Reply c (RegisterOk n (stamp_all (decode_lines lib 0 d)) (connected_names (clients st))),
         AdvanceCursor (Agent n) (next_offset d)]"
      "st' = upd_client c (register_client wall n pid dir l o' (next_offset d)) st"
proof (cases "pid = 0 \<or> Option.bind (bt_get (clients st) c) bind_as \<noteq> None \<or> name_taken st c n")
  case True
  then show thesis using assms refused unfolding register_def by (auto split: if_splits)
next
  case guards: False
  show thesis
  proof (cases "drain_from env (Agent n) 0")
    case (Inl e)
    then show thesis using assms guards refused by (auto simp: register_def)
  next
    case d: (Inr d)
    let ?r = "RegisterOk n (stamp_all (decode_lines lib 0 d)) (connected_names (clients st))"
    show thesis
    proof (cases "encode_frame lib (reply_to_json lib ?r)")
      case (Inl e)
      then show thesis using assms guards d refused by (auto simp: register_def Let_def)
    next
      case (Inr bs)
      then show thesis
        using assms guards d refused committed [OF _ _ _ _ d]
        by (cases "bt_get (clients st) c") (auto simp: register_def Let_def)
    qed
  qed
qed

lemma register_names:
  assumes inv: "broker_inv st" and r: "register lib env wall st c n pid dir l o' = (outs, st')"
  shows "(\<exists>kind msg. outs = [mk_err c kind msg] \<and> st' = st) \<or>
    (\<exists>es ps k. outs = [Reply c (RegisterOk n es ps), AdvanceCursor (Agent n) k] \<and>
       claim c n (names_of st) = Some (names_of st'))"
  using r
proof (cases rule: registerE)
  case (refused kind msg)
  then show ?thesis by auto
next
  case (committed d cs)
  have inv': "broker_inv st'" by (rule register_inv [OF inv r])
  have h: "holder st' m d \<longleftrightarrow> (if d = c then m = n else holder st m d)" for m d
    using committed(3) by (auto simp: holder_def committed(7))
  have other: "d = c" if "holder st n d" for d
    using committed(2) name_taken_iff [OF inv, of c n] that by blast
  then have free: "names_of st n = None \<or> names_of st n = Some c"
    using names_of_Some [OF inv, of n] by (cases "names_of st n") auto
  have "names_of st' m = Some d \<longleftrightarrow> ((release c (names_of st))(n \<mapsto> c)) m = Some d" for m d
    unfolding names_of_Some [OF inv'] h
    using names_of_Some [OF inv, of m d] other by (auto simp: release_Some)
  then have "names_of st' = (release c (names_of st))(n \<mapsto> c)" by (intro ext option_eqI) simp
  then have "claim c n (names_of st) = Some (names_of st')" using free by (auto simp: claim_def)
  then show ?thesis using committed(6) by auto
qed

lemma disconnect_names:
  assumes "broker_inv st" "disconnect st c = (outs, st')"
  shows "names_of st' = release c (names_of st)"
  by (rule names_release [OF assms(1) disconnect_inv [OF assms]])
    (use disconnect_clients [OF assms(2)] in simp)

lemma disconnect_all_names:
  "broker_inv st \<Longrightarrow> disconnect_all cs st = (outs, st') \<Longrightarrow> names_of st' = fold release cs (names_of st)"
proof (induction cs arbitrary: st outs)
  case (Cons c cs)
  obtain o1 st1 where d: "disconnect st c = (o1, st1)" by (cases "disconnect st c")
  then show ?case
    using Cons.IH [of st1] Cons.prems disconnect_inv [OF Cons.prems(1) d]
      disconnect_names [OF Cons.prems(1) d]
    by (auto split: prod.splits)
qed simp

lemma tick_names:
  assumes "broker_inv st" "tick env st now = (outs, st')"
  shows "names_of st' = fold release (dead_clients env st) (names_of st)"
proof -
  obtain o1 st1 o2 where t: "disconnect_all (dead_clients env st) st = (o1, st1)"
      "expire_all (expired_awaits now st1) st1 = (o2, st')"
    using assms(2) by (auto simp: tick_def Let_def split: prod.splits)
  have "names_of st' = names_of st1"
    using expire_all_clients [OF t(2)] by (simp add: names_of_def canonical_holder_id_def fun_eq_iff)
  then show ?thesis using disconnect_all_names [OF assms(1) t(1)] by simp
qed

lemma holder_upd_name:
  "(\<And>cs. cs_name (f cs) = cs_name cs) \<Longrightarrow> clients st' = bt_update h f (clients st) \<Longrightarrow>
   holder st' n d \<longleftrightarrow> holder st n d"
  by (auto simp: holder_def)

lemma join_names:
  assumes "broker_inv st" "join lib env st c ch role = (outs, st')"
  shows "names_of st' = names_of st"
proof -
  have "holder (commit_join ch n role h k st) m d \<longleftrightarrow> holder st m d" for n h k m d
    by (rule holder_upd_name [where f = "join_client ch k" and h = h])
      (simp_all add: commit_join_def Let_def split: option.split)
  then have "holder st' m d \<longleftrightarrow> holder st m d" for m d
    using assms(2) by (auto simp: join_def Let_def split: sum.splits)
  then show ?thesis by (rule names_of_eqI [OF assms(1) join_inv [OF assms]])
qed

lemma leave_names:
  assumes "broker_inv st" "leave env st c ch = (outs, st')"
  shows "names_of st' = names_of st"
proof (cases "resolve_op_identity env st c")
  case (Inr n)
  have "holder st' m d \<longleftrightarrow> holder st m d" for m d
    by (rule holder_upd_name [where f = "leave_client ch"]) (use assms(2) Inr in \<open>auto simp: leave_def Let_def\<close>)
  then show ?thesis by (rule names_of_eqI [OF assms(1) leave_inv [OF assms]])
qed (use assms(2) in \<open>simp add: leave_def\<close>)

lemma set_listen_names:
  assumes "broker_inv st" "set_listen wall st c l = (outs, st')"
  shows "names_of st' = names_of st"
proof (cases "holder_guard st c ''set_listen''")
  case None
  then show ?thesis
    using assms set_listen_inv [OF assms]
      names_upd [where f = "\<lambda>cs. cs\<lparr>listen_mode := l, last_activity := wall\<rparr>" and c = c]
    by (auto simp: set_listen_def)
qed (use assms(2) in \<open>simp add: set_listen_def\<close>)

lemma set_wake_addr_names:
  assumes "broker_inv st" "set_wake_addr wall st c a = (outs, st')"
  shows "names_of st' = names_of st"
proof (cases "holder_guard st c ''set_wake_addr''")
  case None
  then show ?thesis
    using assms set_wake_addr_inv [OF assms]
      names_upd [where f = "\<lambda>cs. cs\<lparr>wake_addr := option_filter wake_addr_valid a,
        last_activity := wall\<rparr>" and c = c]
    by (auto simp: set_wake_addr_def Let_def)
qed (use assms(2) in \<open>simp add: set_wake_addr_def\<close>)

text \<open>
  The specification's step for an input: a registration the broker accepted claims, a departure
  releases, a tick releases every connection whose process is dead, anything else keeps the map.
\<close>

definition names_step ::
  "broker_env \<Rightarrow> broker_state \<Rightarrow> broker_input \<Rightarrow> out list \<Rightarrow> names \<Rightarrow> names option" where
  "names_step env st input outs m =
     (case input of
        Wire c (Register n _ _ _ _) \<Rightarrow>
          if \<exists>es ps k. outs = [Reply c (RegisterOk n es ps), AdvanceCursor (Agent n) k]
          then claim c n m else Some m
      | Wire c _ \<Rightarrow> Some m
      | Disconnect c \<Rightarrow> Some (release c m)
      | Tick \<Rightarrow> Some (fold release (dead_clients env st) m))"

lemma dispatch_names:
  assumes "broker_inv st" "is_hello msg \<Longrightarrow> bt_get (clients st) c = None"
    and "dispatch lib env wall st c msg now = Some (outs, st')"
  shows "names_step env st' (Wire c msg) outs (names_of st) = Some (names_of st')"
proof (cases msg)
  case (Register n pid dir l o')
  then show ?thesis
    using register_names [OF assms(1), of lib env wall c n pid dir l o' outs st'] assms(3)
    by (auto simp: names_step_def mk_err_def)
qed (use assms dispatch_inv [OF assms] in \<open>auto simp: names_step_def
    dest: hello_names join_names leave_names set_listen_names set_wake_addr_names
      names_core [OF send_core] names_core [OF inbox_core] names_core [OF await_envelope_core]\<close>)

text \<open>A frame is refused before dispatch, or dispatched from the state with the activity touched.\<close>

lemma handle_wireE:
  assumes "handle lib env wall st (Wire c msg) now = Some (outs, st')" "broker_inv st"
  obtains (early) k s where "outs = [mk_err c k s]" "st' = st"
  | (dispatched) st1 where "same_core st st1" "broker_inv st1" "\<not> touches msg \<longrightarrow> st1 = st"
      "is_hello msg \<longrightarrow> bt_get (clients st1) c = None"
      "dispatch lib env wall st1 c msg now = Some (outs, st')"
proof (cases "is_hello msg = (map_option handshaked (bt_get (clients st) c) = Some True)")
  case True
  then show thesis
    using assms(1) early by (auto simp: handle_wire_def Let_def split: if_splits)
next
  case False
  let ?st = "if touches msg then touch_activity wall st c else st"
  have "same_core st ?st" by (auto intro: touch_activity_core)
  moreover have "broker_inv ?st" using assms(2) touch_activity_inv by simp
  moreover have "is_hello msg \<longrightarrow> bt_get (clients ?st) c = None"
    using False broker_invD(1) [OF assms(2)]
    by (cases msg; cases "bt_get (clients st) c") (auto simp: client_ok_def)
  moreover have "dispatch lib env wall ?st c msg now = Some (outs, st')"
    using assms(1) False by (auto simp: handle_wire_def Let_def split: if_splits)
  ultimately show thesis using dispatched [of ?st] by simp
qed

text \<open>
  C10: The broker refines the name service: through every input, the map from names to holders
  moves as the specification says. A registration is accepted only when the specification's claim
  succeeds, and a name is freed exactly by the departure or death of its holder, or by its
  holder's registering another name.
\<close>

theorem broker_refines_name_service:
  assumes "broker_reach lib st" "handle lib env wall st input now = Some (outs, st')"
  shows "names_step env st input outs (names_of st) = Some (names_of st')"
proof (cases input)
  case (Wire c msg)
  have inv: "broker_inv st" using broker_reach_inv [OF assms(1)] .
  from assms(2) [unfolded Wire] inv show ?thesis
  proof (cases rule: handle_wireE)
    case (early k s)
    then show ?thesis by (cases msg) (auto simp: Wire names_step_def mk_err_def)
  next
    case (dispatched st1)
    then have "names_step env st' (Wire c msg) outs (names_of st1) = Some (names_of st')"
      using dispatch_names by blast
    then show ?thesis
      using names_core [OF dispatched(1) inv dispatched(2)]
      by (simp add: Wire names_step_def split: bus_message.splits)
  qed
next
  case (Disconnect c)
  then show ?thesis
    using assms(2) disconnect_names [OF broker_reach_inv [OF assms(1)]] by (simp add: names_step_def)
next
  case Tick
  then show ?thesis
    using assms(2) tick_names [OF broker_reach_inv [OF assms(1)]] by (simp add: names_step_def)
qed

theorem broker_refines_name_service_witness:
  "names_step (demo_env bt_empty) demo_state demo_send (fst demo_sent) (names_of demo_state) =
     Some (names_of (snd demo_sent)) \<and> names_of demo_state ''bob'' = Some 2"
  using broker_refines_name_service [OF demo_reach demo_handle] demo_holders
    names_of_Some [OF broker_reach_inv [OF demo_reach]]
  by simp

end
