(* ===== verification/BrokerMembers.thy ===== *)
theory BrokerMembers
  imports BrokerNames
begin

text \<open>
  The life of a session: what a refused frame leaves unchanged, what a departure and a tick
  forget, how an await parks and ends, and who is a member of a channel.
\<close>

subsection \<open>Refusals\<close>

definition is_refusal :: "bus_reply \<Rightarrow> bool" where
  "is_refusal r \<longleftrightarrow> (\<exists>k s. r = ErrReply k s \<or> r = HelloErr k s)"

lemma hello_refused: "hello env wall st c p b = ([Reply c r], st') \<Longrightarrow> is_refusal r \<Longrightarrow> st' = st"
  by (auto simp: hello_def is_refusal_def split: if_splits option.splits)

lemma register_refused:
  assumes "register lib env wall st c n pid dir l o' = ([out], st')"
  shows "st' = st"
  using assms by (cases rule: registerE) auto

lemma send_refused:
  assumes "send lib env st c to e = ([out], st')"
  shows "st' = st"
  using assms
  by (auto simp: send_def send_agent_def send_channel_def Let_def
      split: sum.splits if_splits target.splits prod.splits)

lemma inbox_refused:
  assumes "inbox lib env st c since it = Some ([Reply c r], st')" "is_refusal r"
  shows "st' = st"
  using assms by (auto simp: inbox_def Let_def is_refusal_def
      split: sum.splits option.splits prod.splits)

lemma join_refused: "join lib env st c ch role = ([out], st') \<Longrightarrow> st' = st"
  by (auto simp: join_def Let_def split: sum.splits)

lemma leave_refused: "leave env st c ch = ([Reply c r], st') \<Longrightarrow> is_refusal r \<Longrightarrow> st' = st"
  by (auto simp: leave_def Let_def is_refusal_def split: sum.splits)

lemma flags_refused:
  "set_listen wall st c l = ([Reply c r], st') \<Longrightarrow> is_refusal r \<Longrightarrow> st' = st"
  "set_wake_addr wall st c a = ([Reply c r], st') \<Longrightarrow> is_refusal r \<Longrightarrow> st' = st"
  by (auto simp: set_listen_def set_wake_addr_def Let_def is_refusal_def split: option.splits)

fun is_await :: "bus_message \<Rightarrow> bool" where
  "is_await (Await _ _) = True"
| "is_await _ = False"

lemma dispatch_refused:
  assumes "dispatch lib env wall st c msg now = Some ([Reply c r], st')" "is_refusal r" "\<not> is_await msg"
  shows "st' = st"
  using assms
  by (cases msg) (auto dest: hello_refused register_refused send_refused inbox_refused join_refused
      leave_refused flags_refused)

lemma await_loop_pending:
  "await_loop lib env c h f ms st = (r, st') \<Longrightarrow> pending_awaits st' = pending_awaits st"
  by (induction ms arbitrary: st) (auto simp: Let_def split: sum.splits if_splits)

text \<open>The delivery cursors of a connection, some of them moved.\<close>

definition moved_cursors :: "client_id \<Rightarrow> (mailbox_name \<times> nat) list \<Rightarrow> broker_state \<Rightarrow> broker_state" where
  "moved_cursors h moves =
     upd_client h (\<lambda>cs. cs\<lparr>await_offsets := fold (\<lambda>(m, k). bt_insert m k) moves (await_offsets cs)\<rparr>)"

lemma moved_cursors_Nil: "moved_cursors h [] st = st"
  by (auto simp: moved_cursors_def upd_client_def option.map_ident intro!: broker_state.equality bt_ext)

lemma moved_cursors_Cons: "moved_cursors h moves (set_await_offset h m k st) = moved_cursors h ((m, k) # moves) st"
  by (auto simp: moved_cursors_def set_await_offset_def upd_client_def option.map_comp comp_def intro!: broker_state.equality bt_ext)

lemma await_loop_moves:
  assumes "await_loop lib env c h f ms st = (r, st')"
  obtains moves where "fst ` set moves \<subseteq> set ms" "st' = moved_cursors h moves st"
proof -
  have "\<exists>moves. fst ` set moves \<subseteq> set ms \<and> st' = moved_cursors h moves st"
    using assms
  proof (induction ms arbitrary: st)
    case Nil
    then show ?case by (intro exI [of _ "[]"]) (simp add: moved_cursors_Nil)
  next
    case (Cons m ms)
    show ?case
    proof (cases "drain_await_batch lib env st h m f None")
      case (Inl e)
      then show ?thesis using Cons.prems by (intro exI [of _ "[]"]) (auto simp: moved_cursors_Nil split: prod.splits)
    next
      case (Inr b)
      define st1 where "st1 = (if ab_next_offset b \<noteq> await_offset st h m
        then set_await_offset h m (ab_next_offset b) st else st)"
      obtain pre where pre: "set pre \<subseteq> {(m, ab_next_offset b)}" "st1 = moved_cursors h pre st"
        "\<And>moves. moved_cursors h moves st1 = moved_cursors h (pre @ moves) st"
        by (rule that [of "if ab_next_offset b \<noteq> await_offset st h m then [(m, ab_next_offset b)] else []"])
          (auto simp: st1_def moved_cursors_Cons moved_cursors_Nil
            intro: moved_cursors_Cons [of h "[]", unfolded moved_cursors_Nil])
      have "st' = st1 \<or> await_loop lib env c h f ms st1 = (r, st')"
        using Cons.prems Inr by (auto simp: st1_def Let_def split: if_splits)
      then show ?thesis
      proof
        assume "st' = st1"
        then show ?thesis using pre(1,2) by (intro exI [of _ pre]) auto
      next
        assume "await_loop lib env c h f ms st1 = (r, st')"
        from Cons.IH [OF this] obtain moves where "fst ` set moves \<subseteq> set ms" "st' = moved_cursors h moves st1"
          by blast
        then show ?thesis using pre(1,3) by (intro exI [of _ "pre @ moves"]) auto
      qed
    qed
  qed
  then show ?thesis using that by blast
qed

lemma await_refused:
  assumes "await_envelope lib env st c ms task now = ([Reply c r], st')" "st' \<noteq> st"
  obtains n h moves where "resolve_await_owner env st c = Inr (n, h)"
    "fst ` set moves \<subseteq> set (await_mailboxes st h n)" "st' = moved_cursors h moves st"
proof -
  obtain n h where r: "resolve_await_owner env st c = Inr (n, h)"
    using assms by (auto simp: await_envelope_def split: sum.splits)
  define f where "f = (case task of None \<Rightarrow> AnyEnvelope | Some t \<Rightarrow> TaskFilter t)"
  have "\<exists>x. await_loop lib env c h f (await_mailboxes st h n) st = (x, st')"
    using assms(1) r by (auto simp: await_envelope_def f_def Let_def split: prod.splits option.splits)
  then show ?thesis using await_loop_moves r that by metis
qed

text \<open>
  C11: A frame answered with an error changes nothing: every handler validates, drains and
  encodes its reply before it commits, so that the state is the one before, up to the time of last
  activity. The one exception is an await that fails on a later mailbox: it may have moved the delivery
  cursors of the session it reads for, in the mailboxes it reads, past lines it skipped. It changes nothing
  else, and no other session.
\<close>

theorem refused_changes_nothing:
  assumes "handle lib env wall st (Wire c msg) now = Some ([Reply c r], st')" "is_refusal r"
  shows "st' = st \<or> st' = touch_activity wall st c \<or>
    is_await msg \<and>
    (\<exists>n h moves. resolve_await_owner env (touch_activity wall st c) c = Inr (n, h) \<and>
       fst ` set moves \<subseteq> set (await_mailboxes (touch_activity wall st c) h n) \<and>
       st' = moved_cursors h moves (touch_activity wall st c))"
proof -
  let ?st = "if touches msg then touch_activity wall st c else st"
  have "st' = st \<or> dispatch lib env wall ?st c msg now = Some ([Reply c r], st')"
    using assms(1) by (auto simp: handle_wire_def Let_def split: if_splits)
  then show ?thesis
  proof
    assume d: "dispatch lib env wall ?st c msg now = Some ([Reply c r], st')"
    show ?thesis
    proof (cases "is_await msg")
      case True
      then obtain ms task where m: "msg = Await ms task" by (cases msg) auto
      have "await_envelope lib env (touch_activity wall st c) c ms task now = ([Reply c r], st')"
        using d by (simp add: m)
      then show ?thesis using True by (cases "st' = touch_activity wall st c") (blast elim: await_refused)+
    next
      case False
      then show ?thesis using dispatch_refused [OF d assms(2)] by auto
    qed
  qed auto
qed

theorem refused_changes_nothing_witness:
  "\<exists>r st'. handle demo_lib (demo_env bt_empty) 0 demo_state
       (Wire 2 (Register ''alice'' 12 None True (Some Local))) 0 = Some ([Reply 2 r], st') \<and>
     is_refusal r \<and> (st' = demo_state \<or> st' = touch_activity 0 demo_state 2)"
proof -
  let ?h = "handle demo_lib (demo_env bt_empty) 0 demo_state
       (Wire 2 (Register ''alice'' 12 None True (Some Local))) 0"
  have "map_option fst ?h = Some [Reply 2 (ErrReply NameTaken ''name already registered'')]"
    by code_simp
  then obtain st' where h: "?h = Some ([Reply 2 (ErrReply NameTaken ''name already registered'')], st')"
    by (cases ?h) auto
  moreover have "is_refusal (ErrReply NameTaken ''name already registered'')"
    by (simp add: is_refusal_def)
  ultimately show ?thesis using refused_changes_nothing [OF h] by (auto simp del: handle.simps)
qed

subsection \<open>Departures and ticks\<close>

lemma channel_members_map [simp]:
  "channel_members (st\<lparr>channels := bt_map (\<lambda>_. bt_remove n) (channels st)\<rparr>) ch =
     bt_remove n (channel_members st ch)"
  by (cases "bt_get (channels st) ch") (auto simp: channel_members_def intro!: bts_ext)

lemma drop_client_simps [simp]:
  "clients (drop_client c st) = bt_remove c (clients st)"
  "pending_awaits (drop_client c st) = bt_remove c (pending_awaits st)"
  "channels (drop_client c st) = channels st"
  "channel_roles (drop_client c st) = channel_roles st"
  "started_at (drop_client c st) = started_at st"
  by (simp_all add: drop_client_def)

lemma disconnect_pending:
  "disconnect st c = (outs, st') \<Longrightarrow> pending_awaits st' = bt_remove c (pending_awaits st)"
  by (auto simp: disconnect_def Let_def split: option.splits if_splits)

lemma disconnect_outs:
  "disconnect st c = (outs, st') \<Longrightarrow>
   ReleaseClient d \<in> set outs \<longleftrightarrow> d = c"
  "disconnect st c = (outs, st') \<Longrightarrow> Reply d r \<notin> set outs"
  by (auto simp: disconnect_def Let_def split: option.splits if_splits)

text \<open>
  C12: When the connection that holds a name departs, the broker announces the end of the session
  with the channels it had joined, forgets the connection and its parked await, and takes the name
  out of every channel. Every other connection, every other member and every other parked await
  stays, and so does every channel; the roles of the channels, that of the departed member included, are kept.
\<close>

theorem departure_forgets:
  assumes "broker_reach lib st" "bt_get (clients st) c = Some cs" "cs_name cs = Some n"
    and "handle lib env wall st (Disconnect c) now = Some (outs, st')"
  shows "\<exists>pid. cs_pid cs = Some pid \<and>
    outs = [SessionEnded n pid (bts_list (joined cs)), ReleaseClient c] \<and>
    (\<forall>d. bt_get (clients st') d = (if d = c then None else bt_get (clients st) d)) \<and>
    (\<forall>d. bt_get (pending_awaits st') d = (if d = c then None else bt_get (pending_awaits st) d)) \<and>
    (\<forall>ch m. bts_mem m (channel_members st' ch) \<longleftrightarrow> m \<noteq> n \<and> bts_mem m (channel_members st ch)) \<and>
    (\<forall>ch. bt_get (channels st') ch = map_option (bt_remove n) (bt_get (channels st) ch)) \<and>
    channel_roles st' = channel_roles st \<and> started_at st' = started_at st"
proof -
  obtain pid where pid: "cs_pid cs = Some pid" "bind_as cs = None"
    using broker_invD(1) [OF broker_reach_inv [OF assms(1)] assms(2)] assms(3)
    by (auto simp: client_ok_def)
  let ?st = "st\<lparr>channels := bt_map (\<lambda>_. bt_remove n) (channels st)\<rparr>"
  have d: "outs = [SessionEnded n pid (bts_list (joined cs)), ReleaseClient c]" "st' = drop_client c ?st"
    using assms(2-4) pid by (auto simp: disconnect_def session_row_of_def Let_def)
  have "channel_members st' ch = channel_members ?st ch" for ch
    by (simp add: d(2) channel_members_def)
  then show ?thesis using pid(1) d by auto
qed

theorem departure_forgets_witness:
  "\<exists>outs st'. handle demo_lib (demo_env bt_empty) 0 demo_state (Disconnect 2) 0 = Some (outs, st') \<and>
     outs = [SessionEnded ''bob'' 12 [], ReleaseClient 2] \<and> bt_get (pending_awaits st') 2 = None"
proof -
  let ?h = "handle demo_lib (demo_env bt_empty) 0 demo_state (Disconnect 2) 0"
  obtain cs where cs: "bt_get (clients demo_state) 2 = Some cs" "cs_name cs = Some ''bob''"
    using demo_holders(2) by (auto simp: holder_def)
  obtain outs st' where h: "?h = Some (outs, st')" by (metis handle.simps(2) prod.collapse)
  have "map_option fst ?h = Some [SessionEnded ''bob'' 12 [], ReleaseClient 2]" by code_simp
  then have "outs = [SessionEnded ''bob'' 12 [], ReleaseClient 2]" using h by (auto simp del: handle.simps)
  then show ?thesis
    using departure_forgets [OF demo_reach cs h] h by (auto simp del: handle.simps)
qed

lemma disconnect_all_pending:
  "disconnect_all cs st = (outs, st') \<Longrightarrow>
   bt_get (pending_awaits st') d = (if d \<in> set cs then None else bt_get (pending_awaits st) d)"
  by (induction cs arbitrary: st outs) (auto split: prod.splits dest!: disconnect_pending)

lemma disconnect_all_outs:
  "disconnect_all cs st = (outs, st') \<Longrightarrow>
   (ReleaseClient d \<in> set outs \<longleftrightarrow> d \<in> set cs) \<and> Reply d r \<notin> set outs"
proof (induction cs arbitrary: st outs)
  case (Cons c cs)
  then show ?case
    using disconnect_outs(1) [of st c _ _ d] disconnect_outs(2) [of st c _ _ d r]
    by (auto split: prod.splits)
qed simp

lemma expire_all_pending:
  "expire_all cs st = (outs, st') \<Longrightarrow>
   bt_get (pending_awaits st') d = (if d \<in> set cs then None else bt_get (pending_awaits st) d)"
  by (induction cs arbitrary: st outs) (auto split: prod.splits if_splits)

lemma expire_all_outs:
  "expire_all cs st = (outs, st') \<Longrightarrow>
   (Reply d r \<in> set outs \<longleftrightarrow> d \<in> set cs \<and> r = AwaitTimeout) \<and> ReleaseClient d \<notin> set outs"
  by (induction cs arbitrary: st outs) (auto split: prod.splits)

definition dead :: "broker_env \<Rightarrow> broker_state \<Rightarrow> client_id \<Rightarrow> bool" where
  "dead env st c \<longleftrightarrow>
     (\<exists>cs pid. bt_get (clients st) c = Some cs \<and> cs_pid cs = Some pid \<and> \<not> is_alive env pid)"

lemma dead_clients_iff: "c \<in> set (dead_clients env st) \<longleftrightarrow> dead env st c"
  by (force simp: dead_clients_def dead_def split: option.splits simp flip: bt_entries_iff)

lemma expired_awaits_iff:
  "c \<in> set (expired_awaits now st) \<longleftrightarrow> (\<exists>p. bt_get (pending_awaits st) c = Some p \<and> pa_deadline p \<le> now)"
  by (force simp: expired_awaits_def simp flip: bt_entries_iff)

text \<open>
  C13: A tick drops exactly the connections whose process is dead and releases them; it ends
  exactly the parked awaits whose deadline has come, each with a timeout to the connection that
  waits; every other connection and every other await stays as it was.
\<close>

theorem tick_reaps:
  assumes "handle lib env wall st Tick now = Some (outs, st')"
  shows "bt_get (clients st') c = (if dead env st c then None else bt_get (clients st) c) \<and>
    bt_get (pending_awaits st') c =
      option_filter (\<lambda>p. \<not> dead env st c \<and> now < pa_deadline p) (bt_get (pending_awaits st) c) \<and>
    (ReleaseClient c \<in> set outs \<longleftrightarrow> dead env st c) \<and>
    (Reply c r \<in> set outs \<longleftrightarrow> r = AwaitTimeout \<and> \<not> dead env st c \<and>
       (\<exists>p. bt_get (pending_awaits st) c = Some p \<and> pa_deadline p \<le> now))"
proof -
  obtain o1 st1 o2 where t: "disconnect_all (dead_clients env st) st = (o1, st1)"
      "expire_all (expired_awaits now st1) st1 = (o2, st')" "outs = o1 @ o2"
    using assms by (auto simp: tick_def Let_def split: prod.splits)
  have p: "bt_get (pending_awaits st1) d = (if dead env st d then None else bt_get (pending_awaits st) d)" for d
    using disconnect_all_pending [OF t(1)] by (simp add: dead_clients_iff)
  have c: "bt_get (clients st') c = (if dead env st c then None else bt_get (clients st) c)"
    using disconnect_all_clients [OF t(1)] expire_all_clients [OF t(2)] by (simp add: dead_clients_iff)
  have a: "bt_get (pending_awaits st') c =
      option_filter (\<lambda>p. \<not> dead env st c \<and> now < pa_deadline p) (bt_get (pending_awaits st) c)"
    using expire_all_pending [OF t(2), of c] p [of c]
    by (cases "bt_get (pending_awaits st) c") (auto simp: expired_awaits_iff)
  show ?thesis
    using c a disconnect_all_outs [OF t(1), of c r] expire_all_outs [OF t(2), of c r] p [of c]
    by (auto simp: t(3) dead_clients_iff expired_awaits_iff)
qed

theorem tick_reaps_witness:
  "\<exists>outs st'. handle demo_lib (demo_env bt_empty) 0 demo_state Tick 1000 = Some (outs, st') \<and>
     Reply 2 AwaitTimeout \<in> set outs \<and> bt_get (pending_awaits st') 2 = None \<and>
     bt_get (clients st') 2 \<noteq> None"
proof -
  obtain outs st' where h: "handle demo_lib (demo_env bt_empty) 0 demo_state Tick 1000 = Some (outs, st')"
    by (metis handle.simps(3) prod.collapse)
  have p: "map_option pa_deadline (bt_get (pending_awaits demo_state) 2) = Some 1000" by code_simp
  have "\<not> dead (demo_env bt_empty) demo_state 2" by (simp add: dead_def demo_env_def)
  then show ?thesis
    using tick_reaps [OF h, of 2 AwaitTimeout] h p demo_holders(2)
    by (auto simp: holder_def simp del: handle.simps)
qed

subsection \<open>Awaiting\<close>

text \<open>
  C14: An await by a registered connection or a live proxy is answered at once, or parked: then
  nothing is replied, the deadline is at most 23 hours away and otherwise the one asked for, and
  the await is recorded with the filter asked for. Everyone else's awaits stay.
\<close>

theorem await_replies_or_parks:
  assumes "handle lib env wall st (Wire c (Await ms task)) now = Some (outs, st')"
    and "bt_get (clients st) c = Some cs" "handshaked cs"
  shows "(\<exists>r. outs = [Reply c r] \<and> pending_awaits st' = pending_awaits st) \<or>
    (\<exists>f. outs = [ParkAwait c f (now + min ms 82800000)] \<and>
       f = (case task of None \<Rightarrow> AnyEnvelope | Some t \<Rightarrow> TaskFilter t) \<and>
       pending_awaits st' =
         bt_insert c \<lparr>pa_filter = f, pa_deadline = now + min ms 82800000\<rparr> (pending_awaits st))"
proof -
  let ?st = "touch_activity wall st c"
  have t: "pending_awaits ?st = pending_awaits st"
    by (auto simp: touch_activity_def Let_def split: option.split)
  have d: "await_envelope lib env ?st c ms task now = (outs, st')"
    using assms by (simp add: handle_wire_def Let_def)
  have l: "\<exists>r. outs' = [Reply c r]" if "await_loop lib env c h f mbs s = (Some outs', s')" for h f mbs s s' outs'
    using that by (induction mbs arbitrary: s) (auto simp: Let_def mk_err_def split: sum.splits if_splits)
  show ?thesis
  proof (cases "resolve_await_owner env ?st c")
    case (Inl e)
    then show ?thesis using d t by (auto simp: await_envelope_def mk_err_def)
  next
    case (Inr io)
    obtain i h where io: "io = (i, h)" by (cases io)
    let ?f = "case task of None \<Rightarrow> AnyEnvelope | Some t \<Rightarrow> TaskFilter t"
    obtain r s where "await_loop lib env c h ?f (await_mailboxes ?st h i) ?st = (r, s)"
      by (cases "await_loop lib env c h ?f (await_mailboxes ?st h i) ?st")
    then show ?thesis
      using d t l await_loop_pending Inr io
      by (cases r) (fastforce simp: await_envelope_def Let_def MAX_AWAIT_MS_def)+
  qed
qed

theorem await_replies_or_parks_witness:
  "\<exists>outs st'. handle demo_lib (demo_env bt_empty) 0 demo_state (Wire 1 (Await 5 None)) 3 = Some (outs, st') \<and>
     ((\<exists>r. outs = [Reply 1 r]) \<or> outs = [ParkAwait 1 AnyEnvelope 8])"
proof -
  have "handle demo_lib (demo_env bt_empty) 0 demo_state (Wire 1 (Await 5 None)) 3 \<noteq> None" by code_simp
  then obtain outs st' where
    h: "handle demo_lib (demo_env bt_empty) 0 demo_state (Wire 1 (Await 5 None)) 3 = Some (outs, st')"
    by auto
  obtain cs where cs: "bt_get (clients demo_state) 1 = Some cs"
    using demo_holders(1) by (auto simp: holder_def)
  have "handshaked cs"
    using broker_invD(1) [OF broker_reach_inv [OF demo_reach] cs] by (simp add: client_ok_def)
  from await_replies_or_parks [OF h cs this] show ?thesis using h by (auto simp del: handle.simps)
qed

end
