(* ===== verification/BrokerChannels.thy ===== *)
theory BrokerChannels
  imports BrokerMembers
begin

text \<open>
  Channel membership. The broker keeps it twice: a set of names per channel, used by the fan-out
  of a send, and a set of channels per session, used by polls, awaits and the session list. The
  two agree as long as no connection that holds a name registers another one.
\<close>

definition member :: "broker_state \<Rightarrow> string \<Rightarrow> string \<Rightarrow> bool" where
  "member st ch n \<longleftrightarrow>
     (\<exists>c cs. bt_get (clients st) c = Some cs \<and> cs_name cs = Some n \<and> bts_mem ch (joined cs))"

definition members_ok :: "broker_state \<Rightarrow> bool" where
  "members_ok st \<longleftrightarrow> (\<forall>ch n. bts_mem n (channel_members st ch) \<longleftrightarrow> member st ch n)"

definition renames :: "broker_state \<Rightarrow> broker_input \<Rightarrow> bool" where
  "renames st i \<longleftrightarrow>
     (\<exists>c n pid dir l o' m. i = Wire c (Register n pid dir l o') \<and> holder st m c \<and> m \<noteq> n)"

inductive steady_reach :: "ext_lib \<Rightarrow> broker_state \<Rightarrow> bool" for lib where
  start: "steady_reach lib (broker_new wall)"
| step: "steady_reach lib st \<Longrightarrow> \<not> renames st input \<Longrightarrow>
    handle lib env wall st input now = Some (outs, st') \<Longrightarrow> steady_reach lib st'"

lemma steady_reach_reach: "steady_reach lib st \<Longrightarrow> broker_reach lib st"
  by (induction rule: steady_reach.induct)
    (auto intro: broker_reach.intros broker_step.intros simp del: handle.simps)

subsection \<open>Inputs that move no one\<close>

definition seats :: "broker_state \<Rightarrow> client_id \<Rightarrow> (string \<times> string btset) option" where
  "seats st c = Option.bind (bt_get (clients st) c) (\<lambda>cs. map_option (\<lambda>n. (n, joined cs)) (cs_name cs))"

lemma seats_Some:
  "seats st c = Some (n, js) \<longleftrightarrow> (\<exists>cs. bt_get (clients st) c = Some cs \<and> cs_name cs = Some n \<and> joined cs = js)"
  by (auto simp: seats_def split: bind_splits)

lemma member_seats: "member st ch n \<longleftrightarrow> (\<exists>c js. seats st c = Some (n, js) \<and> bts_mem ch js)"
  by (auto simp: member_def seats_Some)

lemma holder_seats: "holder st n c \<longleftrightarrow> (\<exists>js. seats st c = Some (n, js))"
  by (auto simp: holder_def seats_Some)

lemma members_ok_same:
  assumes "members_ok st" "seats st' = seats st" "channels st' = channels st"
  shows "members_ok st'"
  using assms by (simp add: members_ok_def member_seats channel_members_def)

lemma seats_core: "same_core st st' \<Longrightarrow> seats st' = seats st"
proof (intro ext option_eqI)
  fix c and d :: "string \<times> string btset" assume s: "same_core st st'"
  obtain n js where d: "d = (n, js)" by (cases d)
  show "seats st' c = Some d \<longleftrightarrow> seats st c = Some d"
    unfolding d seats_Some
    by (blast elim: same_core_get [OF s] same_core_get [OF same_core_sym [OF s]]
        intro: core_fields(1,5) [THEN trans] core_fields(1,5) [THEN sym [THEN trans]])
qed

lemma members_core: "same_core st st' \<Longrightarrow> members_ok st \<Longrightarrow> members_ok st'"
  by (rule members_ok_same) (auto simp: seats_core same_core_def)

lemma seats_upd:
  "(\<And>cs. cs_name (f cs) = cs_name cs \<and> joined (f cs) = joined cs) \<Longrightarrow> seats (upd_client c f st) = seats st"
  by (rule ext, case_tac "bt_get (clients st) c") (auto simp: seats_def)

lemma set_listen_members: "set_listen wall st c l = (outs, st') \<Longrightarrow> members_ok st \<Longrightarrow> members_ok st'"
  by (auto simp: set_listen_def seats_upd split: option.splits intro: members_ok_same)

lemma set_wake_addr_members: "set_wake_addr wall st c a = (outs, st') \<Longrightarrow> members_ok st \<Longrightarrow> members_ok st'"
  by (auto simp: set_wake_addr_def Let_def seats_upd split: option.splits intro: members_ok_same)

lemma hello_members:
  assumes "hello env wall st c p b = (outs, st')" "bt_get (clients st) c = None" "members_ok st"
  shows "members_ok st'"
proof (cases "st' = st")
  case False
  then obtain b' where "st' = st\<lparr>clients := bt_insert c (hello_client wall b') (clients st)\<rparr>"
    using assms(1) by (auto simp: hello_def split: if_splits option.splits)
  then show ?thesis
    using assms(2) by (intro members_ok_same [OF assms(3)]) (auto simp: seats_def hello_client_def fun_eq_iff)
qed (use assms(3) in simp)

subsection \<open>Register, join, leave, departure\<close>

lemma register_members:
  assumes r: "register lib env wall st c n pid dir l o' = (outs, st')"
    and inv: "broker_inv st" and ok: "members_ok st"
    and same: "\<And>m. holder st m c \<Longrightarrow> m = n"
  shows "members_ok st'"
  using r
proof (cases rule: registerE)
  case (committed d cs)
  have j: "joined cs = bt_empty \<or> cs_name cs = Some n"
    using broker_invD(1) [OF inv committed(3)] same committed(3)
    by (cases "cs_name cs") (auto simp: client_ok_def holder_def)
  have s: "seats st' = (seats st)(c \<mapsto> (n, joined cs))"
    using committed(3) by (auto simp: seats_def committed(7) fun_eq_iff)
  have "seats st c = Some (n, joined cs) \<or> seats st c = None \<and> joined cs = bt_empty"
    using j committed(3) same by (cases "cs_name cs") (auto simp: seats_def holder_def)
  then have "(\<exists>js. seats st' d = Some (m, js) \<and> bts_mem ch js) \<longleftrightarrow>
      (\<exists>js. seats st d = Some (m, js) \<and> bts_mem ch js)" for ch m d
    by (auto simp: s)
  then have "member st' ch m \<longleftrightarrow> member st ch m" for ch m
    unfolding member_seats by simp
  then show ?thesis using ok by (simp add: members_ok_def committed(7) channel_members_def)
qed (use ok in simp)

lemma seats_unique:
  assumes "broker_inv st" "seats st h = Some (n, js)"
  shows "seats st d = Some (n, js') \<longleftrightarrow> d = h \<and> js' = js"
  using broker_invD(2) [OF assms(1), of n h d] assms(2) by (auto simp: holder_seats)

text \<open>Changing the holder's own channels by the same channel that the name is added to or taken from.\<close>

lemma members_change:
  assumes inv: "broker_inv st" and ok: "members_ok st" and h: "seats st h = Some (n, js)"
    and s: "seats st' = (seats st)(h \<mapsto> (n, js'))"
    and m: "\<And>ch m. m \<noteq> n \<Longrightarrow> bts_mem m (channel_members st' ch) = bts_mem m (channel_members st ch)"
    and n: "\<And>ch. bts_mem n (channel_members st' ch) \<longleftrightarrow> bts_mem ch js'"
  shows "members_ok st'"
  unfolding members_ok_def
proof (intro allI)
  fix ch k
  show "bts_mem k (channel_members st' ch) \<longleftrightarrow> member st' ch k"
  proof (cases "k = n")
    case True
    then show ?thesis using n seats_unique [OF inv h] by (auto simp: member_seats s)
  next
    case False
    have "seats st' d = Some (k, js'') \<longleftrightarrow> seats st d = Some (k, js'')" for d js''
      using False h by (auto simp: s)
    then have "member st' ch k \<longleftrightarrow> member st ch k" by (simp add: member_seats)
    then show ?thesis using ok m [OF False] by (simp add: members_ok_def)
  qed
qed

lemma members_of_holder:
  assumes "broker_inv st" "members_ok st" "seats st h = Some (n, js)"
  shows "bts_mem n (channel_members st ch) \<longleftrightarrow> bts_mem ch js"
  using assms(2) seats_unique [OF assms(1,3)] by (auto simp: members_ok_def member_seats)

lemma join_members_ok:
  assumes j: "join lib env st c ch role = (outs, st')" and inv: "broker_inv st" and ok: "members_ok st"
  shows "members_ok st'"
proof (cases "st' = st")
  case False
  obtain n h k where r: "resolve_op_identity env st c = Inr n" "canonical_holder_id st n = Some h"
      "st' = commit_join ch n role h k st"
  proof -
    obtain n where n: "resolve_op_identity env st c = Inr n"
      using j False by (auto simp: join_def split: sum.splits)
    obtain h where "canonical_holder_id st n = Some h" using resolve_holder [OF inv n] by blast
    then show ?thesis using that [OF n] j False n
      by (auto simp: join_def Let_def split: sum.splits)
  qed
  then have hold: "holder st n h" using canonical_holder_id_Some [OF inv] by simp
  then obtain js where js: "seats st h = Some (n, js)" by (auto simp: holder_seats)
  have s: "seats st' = (seats st)(h \<mapsto> (n, bts_insert ch js))"
    using js by (auto simp: r(3) commit_join_def seats_def Let_def fun_eq_iff split: option.split bind_splits)
  have m: "bts_mem m (channel_members st' ch') \<longleftrightarrow>
      ch' = ch \<and> m = n \<or> bts_mem m (channel_members st ch')" for m ch'
    by (auto simp: r(3) commit_join_def Let_def channel_members_def split: option.split)
  show ?thesis
    by (rule members_change [OF inv ok js s]) (use m members_of_holder [OF inv ok js] in auto)
qed (use ok in simp)

lemma leave_members_ok:
  assumes l: "leave env st c ch = (outs, st')" and inv: "broker_inv st" and ok: "members_ok st"
  shows "members_ok st'"
proof (cases "resolve_op_identity env st c")
  case (Inr n)
  obtain h where h: "canonical_holder_id st n = Some h" using resolve_holder [OF inv Inr] by blast
  have "holder st n h" using h canonical_holder_id_Some [OF inv] by simp
  then obtain js where js: "seats st h = Some (n, js)" by (auto simp: holder_seats)
  have c: "canonical_holder_id (st\<lparr>channels := x\<rparr>) n = Some h" for x
    using h by (simp add: canonical_holder_id_def)
  have s: "seats st' = (seats st)(h \<mapsto> (n, bt_remove ch js))"
    using js l Inr c by (auto simp: leave_def seats_def Let_def fun_eq_iff split: bind_splits)
  have "channels st' = bt_update ch (bt_remove n) (channels st)"
    using l Inr by (auto simp: leave_def Let_def)
  then have m: "bts_mem m (channel_members st' ch') \<longleftrightarrow>
      \<not> (ch' = ch \<and> m = n) \<and> bts_mem m (channel_members st ch')" for m ch'
    by (cases "bt_get (channels st) ch") (auto simp: channel_members_def)
  show ?thesis
    by (rule members_change [OF inv ok js s]) (use m members_of_holder [OF inv ok js] in auto)
qed (use l ok in \<open>simp add: leave_def\<close>)

lemma disconnect_members_ok:
  assumes d: "disconnect st c = (outs, st')" and inv: "broker_inv st" and ok: "members_ok st"
  shows "members_ok st'"
proof -
  have s: "seats st' = (seats st)(c := None)"
    using disconnect_clients [OF d] by (auto simp: seats_def fun_eq_iff)
  show ?thesis
  proof (cases "seats st c")
    case None
    then have "channels st' = channels st"
      using d by (auto simp: disconnect_def session_row_of_def seats_def Let_def
          split: option.splits if_splits bind_splits)
    then show ?thesis using None s by (intro members_ok_same [OF ok]) (simp add: fun_upd_idem)
  next
    case (Some a)
    obtain n js where a: "a = (n, js)" by (cases a)
    then obtain cs where cs: "bt_get (clients st) c = Some cs" "cs_name cs = Some n"
      using Some seats_Some by blast
    then obtain pid where "cs_pid cs = Some pid" "bind_as cs = None"
      using broker_invD(1) [OF inv cs(1)] by (auto simp: client_ok_def)
    then have "channels st' = bt_map (\<lambda>_. bt_remove n) (channels st)"
      using d cs by (auto simp: disconnect_def session_row_of_def Let_def)
    then have m: "bts_mem k (channel_members st' ch) \<longleftrightarrow> k \<noteq> n \<and> bts_mem k (channel_members st ch)" for k ch
      using channel_members_map [of n st ch] by (simp add: channel_members_def)
    have "seats st' d = Some (k, js') \<longleftrightarrow> k \<noteq> n \<and> seats st d = Some (k, js')" for d k js'
      using seats_unique [OF inv, of c n js d] Some a by (auto simp: s)
    then have "member st' ch k \<longleftrightarrow> k \<noteq> n \<and> member st ch k" for ch k by (auto simp: member_seats)
    then show ?thesis using ok m by (simp add: members_ok_def)
  qed
qed

lemma disconnect_all_members_ok:
  "disconnect_all cs st = (outs, st') \<Longrightarrow> broker_inv st \<Longrightarrow> members_ok st \<Longrightarrow> members_ok st'"
  by (induction cs arbitrary: st outs)
    (auto split: prod.splits dest: disconnect_members_ok disconnect_inv)

lemma expire_all_members_ok: "expire_all cs st = (outs, st') \<Longrightarrow> members_ok st \<Longrightarrow> members_ok st'"
proof (induction cs arbitrary: st outs)
  case (Cons c cs)
  then show ?case using members_core [of st "unpark c st"] by (auto split: prod.splits)
qed simp

lemma tick_members_ok: "tick env st now = (outs, st') \<Longrightarrow> broker_inv st \<Longrightarrow> members_ok st \<Longrightarrow> members_ok st'"
  by (auto simp: tick_def Let_def split: prod.splits
      dest!: disconnect_all_members_ok dest: expire_all_members_ok)

subsection \<open>Agreement\<close>

lemma dispatch_members_ok:
  assumes "dispatch lib env wall st c msg now = Some (outs, st')" "broker_inv st" "members_ok st"
    and "is_hello msg \<Longrightarrow> bt_get (clients st) c = None" "\<not> renames st (Wire c msg)"
  shows "members_ok st'"
  using assms
  by (cases msg) (auto simp: renames_def dest: hello_members register_members join_members_ok leave_members_ok
      set_listen_members set_wake_addr_members members_core [OF send_core] members_core [OF inbox_core]
      members_core [OF await_envelope_core])

lemma handle_members_ok:
  assumes "handle lib env wall st input now = Some (outs, st')" "broker_inv st" "members_ok st"
    and "\<not> renames st input"
  shows "members_ok st'"
proof (cases input)
  case (Wire c msg)
  from assms(1,2) show ?thesis unfolding Wire
  proof (cases rule: handle_wireE)
    case (dispatched st1)
    have "\<not> renames st1 (Wire c msg)"
      using assms(4) Wire dispatched(3) by (cases msg) (auto simp: renames_def)
    then show ?thesis
      using dispatch_members_ok [OF dispatched(5,2) members_core [OF dispatched(1) assms(3)]]
        dispatched(4) by blast
  qed (use assms(3) in simp)
qed (use assms in \<open>auto dest: disconnect_members_ok tick_members_ok\<close>)

lemma steady_members_ok: "steady_reach lib st \<Longrightarrow> members_ok st"
proof (induction rule: steady_reach.induct)
  case (start wall)
  then show ?case by (simp add: members_ok_def member_def channel_members_def broker_new_def)
next
  case (step st input env wall now outs st')
  then show ?case
    using handle_members_ok broker_reach_inv [OF steady_reach_reach] by blast
qed

text \<open>
  C15: As long as no connection that holds a name registers a different one, the two records of
  channel membership agree in every reachable state: a name is among a channel's members exactly
  when a live session holds the name and has the channel among its joined channels.
\<close>

theorem membership_agrees:
  assumes "steady_reach lib st"
  shows "bts_mem n (channel_members st ch) \<longleftrightarrow>
    (\<exists>c cs. bt_get (clients st) c = Some cs \<and> cs_name cs = Some n \<and> bts_mem ch (joined cs))"
  using steady_members_ok [OF assms] by (simp add: members_ok_def member_def)

fun steady_run :: "ext_lib \<Rightarrow> broker_env \<Rightarrow> broker_input list \<Rightarrow> broker_state \<Rightarrow> broker_state option" where
  "steady_run lib env [] st = Some st"
| "steady_run lib env (i # is) st =
     (let renaming = (case i of
          Wire c (Register n _ _ _ _) \<Rightarrow>
            (case registered_name st c of None \<Rightarrow> False | Some m \<Rightarrow> m \<noteq> n)
        | _ \<Rightarrow> False)
      in if renaming then None
         else Option.bind (handle lib env 0 st i 0) (\<lambda>(_, st'). steady_run lib env is st'))"

lemma steady_run_reach:
  assumes "steady_run lib env is st = Some st'" "steady_reach lib st"
  shows "steady_reach lib st'"
  using assms
proof (induction "is" arbitrary: st)
  case (Cons i "is")
  have r: "registered_name st c = Some m" if "holder st m c" for m c
    using that broker_invD(1) [OF broker_reach_inv [OF steady_reach_reach [OF Cons.prems(2)]]]
    by (auto simp: holder_def registered_name_def client_ok_def)
  have "\<not> renames st i"
    using Cons.prems(1) r by (auto simp: renames_def Let_def split: if_splits)
  then show ?case
    using Cons steady_reach.step
    by (auto simp: Let_def split: if_splits bind_splits simp del: handle.simps)
qed simp

definition demo_joined :: broker_state where
  "demo_joined = the (steady_run demo_lib (demo_env bt_empty)
     (demo_inputs @ [Wire 2 (Join ''#dev'' (Some ''reviewer''))]) (broker_new 0))"

lemma demo_joined_reach: "steady_reach demo_lib demo_joined"
proof -
  have "steady_run demo_lib (demo_env bt_empty)
     (demo_inputs @ [Wire 2 (Join ''#dev'' (Some ''reviewer''))]) (broker_new 0) \<noteq> None"
    by code_simp
  then show ?thesis
    unfolding demo_joined_def using steady_run_reach [OF _ steady_reach.start] by fastforce
qed

theorem membership_agrees_witness:
  "bts_mem ''bob'' (channel_members demo_joined ''#dev'') \<and>
   (\<exists>c cs. bt_get (clients demo_joined) c = Some cs \<and> cs_name cs = Some ''bob'' \<and>
      bts_mem ''#dev'' (joined cs))"
proof -
  have "bts_mem ''bob'' (channel_members demo_joined ''#dev'')" by code_simp
  then show ?thesis using membership_agrees [OF demo_joined_reach] by blast
qed

subsection \<open>What a rename and a departure leave behind\<close>

text \<open>
  A connection that holds a name may register another. Its memberships stay under the old name,
  and when the connection departs only the new name is taken out of the channels: a channel then
  has a member that no session holds.
\<close>

theorem rename_leaves_ghost_member:
  "map_option (\<lambda>(_, st). (bts_list (channel_members st ''#dev''), bt_keys (clients st)))
     (run demo_lib (demo_env bt_empty)
       [Wire 1 (Hello 3 ''cli'' None), Wire 1 (Register ''alice'' 11 None False (Some Local)),
        Wire 1 (Join ''#dev'' None), Wire 1 (Register ''carol'' 11 None False (Some Local)),
        Disconnect 1] (broker_new 0)) =
   Some ([''alice''], [])"
  by code_simp

text \<open>
  A departure keeps the roles of the departed name: a later session under that name that joins
  without a role is listed with the old one.
\<close>

theorem departure_keeps_role:
  "map_option (\<lambda>(os, _). last os) (run demo_lib (demo_env bt_empty)
       [Wire 1 (Hello 3 ''cli'' None), Wire 1 (Register ''bob'' 11 None False None),
        Wire 1 (Join ''#dev'' (Some ''admin'')), Disconnect 1,
        Wire 2 (Hello 3 ''cli'' None), Wire 2 (Register ''bob'' 12 None False None),
        Wire 2 (Join ''#dev'' None)] (broker_new 0)) =
   Some [Reply 2 (JoinOk ''#dev'' [\<lparr>mi_name = ''bob'', mi_role = Some ''admin''\<rparr>] []),
     AdvanceCursor (Channel ''#dev'') 0]"
  by code_simp

end
