(* ===== verification/WakeCursor.thy ===== *)
theory WakeCursor
  imports BrokerWake
begin

text \<open>
  The delivery cursor after a wake: a send answers the parked awaits before its line is appended, so that
  the cursor it stores for a session is computed from the line's length. Here the mailbox is the one on disk.
\<close>

subsection \<open>The cursor after a wake\<close>

text \<open>An offset at which a line of the mailbox ends, or its start.\<close>

definition line_end :: "bytes list \<Rightarrow> nat \<Rightarrow> bool" where
  "line_end ls c \<longleftrightarrow> (\<exists>j. c = total_len (take j ls))"

lemma frames_prefix:
  "frames k ls = pre @ post \<Longrightarrow> end_after pre k = k + total_len (take (length pre) ls)"
proof (induction ls arbitrary: k pre)
  case (Cons l ls)
  then show ?case by (cases pre) auto
qed simp

context mailbox_read
begin

lemma full_walk_end:
  assumes "wf s" "lines_of s m = Some ls" "c = total_len (take j ls)" "drain s m c = Inr d"
    and "wo_fully_drained (walk lib c d p)"
  shows "wo_next_offset (walk lib c d p) = total_len ls"
proof -
  have d: "d = \<lparr>records = frames c (drop j ls), next_offset = total_len ls\<rparr>"
    using drain_from_line [OF assms(1), of m "take j ls" "drop j ls"] assms(2-4) by simp
  obtain pre post where w: "records d = pre @ post"
      "wo_next_offset (walk lib c d p) = end_after pre (min c (next_offset d))"
      "wo_fully_drained (walk lib c d p) \<longrightarrow> post = []"
    by (rule walk_accounts [of d lib c p])
  have "pre = frames c (drop j ls)" using w assms(5) d by simp
  moreover have le: "c + total_len (drop j ls) = total_len ls"
    using assms(3) by (metis append_take_drop_id total_len_simps(3))
  moreover have "end_after (frames k xs) k = k + total_len xs" for k xs
    by (induction k xs rule: frames.induct) (auto simp: algebra_simps)
  ultimately show ?thesis using w(2) d by (simp add: min_absorb1)
qed

lemma walk_line_end:
  assumes "wf s" "ls = unwrap_or [] (lines_of s m)" "line_end ls c" "drain s m c = Inr d"
  shows "line_end ls (wo_next_offset (walk lib c d p))"
    and "wo_fully_drained (walk lib c d p) \<Longrightarrow> wo_next_offset (walk lib c d p) = total_len ls"
    and "r \<in> set (records d) \<Longrightarrow> rec_bytes r \<in> set ls"
proof -
  obtain j where j: "c = total_len (take j ls)" using assms(3) by (auto simp: line_end_def)
  have d: "d = \<lparr>records = frames c (drop j ls), next_offset = total_len ls\<rparr>"
  proof (cases "lines_of s m")
    case None
    then show ?thesis using drain_absent [OF assms(1) None, of c] assms(2,4) j by simp
  next
    case (Some l)
    then show ?thesis
      using drain_from_line [OF assms(1), of m "take j ls" "drop j ls"] assms(2,4) j by simp
  qed
  show "wo_next_offset (walk lib c d p) = total_len ls" if "wo_fully_drained (walk lib c d p)"
    using full_walk_end [OF assms(1) _ j assms(4) that] drain_absent [OF assms(1), of m c] assms(2,4) d
    by (cases "lines_of s m") (auto simp: walk_empty)
  show "rec_bytes r \<in> set ls" if "r \<in> set (records d)"
  proof -
    have "r \<in> set (frames c (drop j ls))" using that d by simp
    then have "rec_bytes r \<in> set (map rec_bytes (frames c (drop j ls)))" unfolding set_map by (rule imageI)
    then show ?thesis by (simp only: frames_bytes) (rule in_set_dropD)
  qed
  obtain pre post where w: "records d = pre @ post"
      "wo_next_offset (walk lib c d p) = end_after pre (min c (next_offset d))"
    by (rule walk_accounts [of d lib c p])
  have le: "c + total_len (drop j ls) = total_len ls"
    using j by (metis append_take_drop_id total_len_simps(3))
  have "end_after pre c = c + total_len (take (length pre) (drop j ls))"
    using frames_prefix [of c "drop j ls" pre post] w(1) d by simp
  then have "wo_next_offset (walk lib c d p) = total_len (take j ls @ take (length pre) (drop j ls))"
    using w(2) d le j by simp
  then show "line_end ls (wo_next_offset (walk lib c d p))"
    unfolding line_end_def by (metis take_add)
qed

end



















definition disk_env :: "disk \<Rightarrow> broker_env" where
  "disk_env disk = \<lparr>is_alive = (\<lambda>_. True), drain_from = disk_drain_from disk\<rparr>"

abbreviation no_files :: disk where
  "no_files \<equiv> (\<lambda>_. FileNotFound)"


subsection \<open>A second wake in a mailbox without a file\<close>

text \<open>
  Where the file does not exist yet, the drain of the second wake echoes the cursor the first one has just
  stored, and the line is counted twice. Bob and a proxy of Bob's both wait when Alice's message comes: the
  cursor is left at 4, the file has 2 bytes. A second message of that length that arrives before Bob waits
  again lies before the cursor, and no await hands it out.
\<close>

definition twice_parked :: broker_state where
  "twice_parked =
     snd (the (run demo_lib (disk_env no_files)
       (demo_inputs @ [Wire 3 (Hello 3 ''cli'' (Some ''bob'')), Wire 3 (Await 1000 None)]) (broker_new 0)))"

lemma second_wake_overshoots:
  "map_option (\<lambda>(outs, st). (outs, await_offset st 2 (Agent ''bob'')))
     (handle demo_lib (disk_env no_files) 0 twice_parked demo_send 0) =
   Some
     ([AppendMailbox (Agent ''bob'') [1] Local,
       Reply 2 (AwaitOk [\<lparr>st_origin = Local, st_envelope = demo_envelope\<rparr>] (Agent ''bob'') 2), UnparkAwait 2,
       Reply 3 (AwaitOk [\<lparr>st_origin = Local, st_envelope = demo_envelope\<rparr>] (Agent ''bob'') 4), UnparkAwait 3,
       Reply 1 (SendOk 7 [\<lparr>dl_to = ToAgent ''bob'', dl_ok = True, dl_woken = True, dl_wake_addr = None\<rparr>])], 4)"
  by code_simp

lemma second_message_skipped:
  "case disk_append no_files (Agent ''bob'') [2] of Inl _ \<Rightarrow> False
   | Inr d \<Rightarrow> (case disk_append d (Agent ''bob'') [2] of Inl _ \<Rightarrow> False
     | Inr d' \<Rightarrow> disk_drain_from d (Agent ''bob'') 2 = Inr \<lparr>records = [], next_offset = 2\<rparr> \<and>
         disk_drain_from d' (Agent ''bob'') 2 =
           Inr \<lparr>records = [\<lparr>rec_bytes = [2], rec_start = 2, rec_end = 4\<rparr>], next_offset = 4\<rparr> \<and>
         disk_drain_from d' (Agent ''bob'') 4 = Inr \<lparr>records = [], next_offset = 4\<rparr>)"
  by code_simp

end
