(* ===== verification/Fsm.thy ===== *)
theory Fsm
  imports Core
begin

text \<open>
  The crate \<open>famp-fsm\<close>: the five-state task lifecycle. \<open>fsm_step\<close> is \<open>TaskFsm::step\<close>; an illegal
  input is an error and leaves the machine as it was. \<open>fsm_move\<close> relates the states a machine
  can move between.
\<close>

datatype task_state = Requested | Committed | Completed | Failed | Cancelled

record task_transition_input =
  in_class :: message_class
  in_terminal_status :: "terminal_status option"

datatype task_fsm_error =
  IllegalTransition task_state message_class "terminal_status option"

record task_fsm =
  fsm_state :: task_state

definition fsm_new :: task_fsm where
  "fsm_new = \<lparr>fsm_state = Requested\<rparr>"

definition fsm_resume :: "task_state \<Rightarrow> task_fsm" where
  "fsm_resume s = \<lparr>fsm_state = s\<rparr>"

fun fsm_next :: "task_state \<Rightarrow> message_class \<Rightarrow> terminal_status option \<Rightarrow> task_state option" where
  "fsm_next Requested Commit None = Some Committed"
| "fsm_next Committed Deliver (Some TsCompleted) = Some Completed"
| "fsm_next Committed Deliver (Some TsFailed) = Some Failed"
| "fsm_next Requested Control None = Some Cancelled"
| "fsm_next Committed Control None = Some Cancelled"
| "fsm_next s c t = None"

definition fsm_step ::
  "task_fsm \<Rightarrow> task_transition_input \<Rightarrow> (task_fsm_error + task_state) \<times> task_fsm" where
  "fsm_step m i =
     (case fsm_next (fsm_state m) (in_class i) (in_terminal_status i) of
        Some next \<Rightarrow> (Inr next, m\<lparr>fsm_state := next\<rparr>)
      | None \<Rightarrow>
          (Inl (IllegalTransition (fsm_state m) (in_class i) (in_terminal_status i)), m))"

fun fsm_run :: "task_fsm \<Rightarrow> task_transition_input list \<Rightarrow> task_fsm" where
  "fsm_run m [] = m"
| "fsm_run m (i # is) = fsm_run (snd (fsm_step m i)) is"

inductive fsm_move :: "task_state \<Rightarrow> task_state \<Rightarrow> bool" where
  commit: "fsm_move Requested Committed"
| complete: "fsm_move Committed Completed"
| fail: "fsm_move Committed Failed"
| cancel_requested: "fsm_move Requested Cancelled"
| cancel_committed: "fsm_move Committed Cancelled"

inductive_cases fsm_move_from_Requested: "fsm_move Requested s"
inductive_cases fsm_move_from_Committed: "fsm_move Committed s"
inductive_simps fsm_move_from_Completed: "fsm_move Completed s"
inductive_simps fsm_move_from_Failed: "fsm_move Failed s"
inductive_simps fsm_move_from_Cancelled: "fsm_move Cancelled s"

definition terminal :: "task_state \<Rightarrow> bool" where
  "terminal s \<longleftrightarrow> s = Completed \<or> s = Failed \<or> s = Cancelled"

lemma fsm_next_move: "fsm_next s c t = Some s' \<Longrightarrow> fsm_move s s'"
  by (induction s c t rule: fsm_next.induct) (auto intro: fsm_move.intros)

lemma fsm_move_next: "fsm_move s s' \<Longrightarrow> \<exists>c t. fsm_next s c t = Some s'"
  by (induction rule: fsm_move.induct) (auto intro: fsm_next.simps)

lemma terminal_no_next: "terminal s \<Longrightarrow> fsm_next s c t = None"
  by (induction s c t rule: fsm_next.induct) (auto simp: terminal_def)

lemma fsm_step_state:
  "fsm_state (snd (fsm_step m i)) = fsm_state m \<or>
   fsm_move (fsm_state m) (fsm_state (snd (fsm_step m i)))"
  by (auto simp: fsm_step_def dest: fsm_next_move split: option.splits)

lemma fsm_run_reach:
  "fsm_move\<^sup>*\<^sup>* (fsm_state m) (fsm_state (fsm_run m is))"
proof (induction "is" arbitrary: m)
  case Nil
  then show ?case by simp
next
  case (Cons i "is")
  show ?case
    using Cons.IH [of "snd (fsm_step m i)"] fsm_step_state [of m i]
    by (auto intro: converse_rtranclp_into_rtranclp)
qed

lemma fsm_run_append: "fsm_run m (xs @ ys) = fsm_run (fsm_run m xs) ys"
  by (induction xs arbitrary: m) auto

end
