(* ===== verification/WireProps.thy ===== *)
theory WireProps
  imports Scenario Fsm
begin

text \<open>
  What the lower layers promise: the strict JSON reading, names and principals, the frame codec,
  bus envelopes and their provenance stamp, mailboxes as files and the walk over them, and the
  task state machine.
\<close>

subsection \<open>JSON text\<close>

text \<open>
  C16: Of the texts that denote a tree of values, the strict parser accepts exactly those in
  which no object repeats a key, at any depth. The result is then the one of the lenient parser,
  with the keys of every object in order; the lenient parser accepts them all.
\<close>

theorem strict_parse_exact:
  assumes "lex lib b = json_events t"
  shows "(parse_value lib b = Inr v \<longleftrightarrow> dup_free t \<and> v = json_norm t) \<and>
    from_slice lib b = Inr (json_norm t) \<and> json_wf (json_norm t)"
proof -
  have "parse_value lib b = Inr v \<longleftrightarrow> (\<exists>t'. strict_tree (JReading []) (lex lib b) = Inr t' \<and> v = json_norm t')"
    by (auto simp: from_slice_strict_def split: sum.splits)
  then show ?thesis
    using plain_tree_append [of "[]" t "[]"]
    by (auto simp: assms strict_tree_events from_slice_def json_wf_norm)
qed

theorem strict_parse_exact_witness:
  "parse_value demo_lib [1] = Inr demo_envelope \<and> json_wf demo_envelope"
proof -
  have "lex demo_lib [1] = json_events demo_envelope" "dup_free demo_envelope"
      "json_norm demo_envelope = demo_envelope"
    by code_simp+
  then show ?thesis using strict_parse_exact [of demo_lib "[1]" demo_envelope demo_envelope] by simp
qed

subsection \<open>Identities\<close>

text \<open>
  C17: A text parses as a principal exactly when it is the printed form of a well-formed
  principal, and as an instance exactly when it is the printed form of a well-formed instance: each
  identity has one text, and a text denotes at most one identity.
\<close>

theorem identities_round_trip:
  "(principal_from_str s = Inr p \<longleftrightarrow> s = principal_display p \<and> wf_principal p) \<and>
   (instance_from_str s = Inr i \<longleftrightarrow> s = instance_display i \<and> wf_instance i)"
  by (simp add: principal_from_str_Inr_iff instance_from_str_Inr_iff)

subsection \<open>Frames\<close>

text \<open>
  C18: A frame is at most 16 MiB and its prefix, it decodes to the value that was encoded whatever
  bytes follow it and takes exactly its own bytes, and any proper part of it asks for more bytes
  rather than failing.
\<close>

theorem frame_round_trip:
  assumes "encode_frame lib v = Inr b" "4 < length b" "text_faithful lib v"
  shows "length b \<le> 4 + 16777216 \<and>
    try_decode_frame lib Inr (b @ rest) = Inr (Some (v, length b)) \<and>
    (\<forall>n < length b. try_decode_frame lib Inr (take n b) = (Inr None :: frame_error + (json \<times> nat) option))"
proof -
  have "length b \<le> 4 + 16777216"
    using assms(1) by (rule encode_frame_Inr) (simp add: MAX_FRAME_BYTES_def LEN_PREFIX_BYTES_def)
  then show ?thesis
    using decode_encoded_frame [OF assms, of Inr rest] decode_short_frame [OF assms(1) _ assms(2), where d = "Inr :: json \<Rightarrow> string + json"]
    by simp
qed

theorem frame_round_trip_witness:
  "encode_frame demo_lib demo_envelope = Inr [0, 0, 0, 1, 1] \<and>
   try_decode_frame demo_lib Inr [0, 0, 0, 1, 1, 42] = Inr (Some (demo_envelope, 5)) \<and>
   try_decode_frame demo_lib Inr [0, 0, 0, 1] = (Inr None :: frame_error + (json \<times> nat) option)"
proof -
  have e: "encode_frame demo_lib demo_envelope = Inr [0, 0, 0, 1, 1]" by code_simp
  have t: "text_faithful demo_lib demo_envelope"
    by (rule text_faithful_sorted [of _ _ "[1]"]) code_simp+
  from frame_round_trip [OF e _ t, of "[42]"] show ?thesis using e by (auto dest: spec [of _ 4])
qed

subsection \<open>Bus envelopes\<close>

text \<open>
  C19: A line the bus accepts as an envelope is an unsigned JSON object of the current version
  whose class is the one decoded, whose sender is a well-formed principal and which has no field
  beyond the envelope's own. It is never mistaken for a provenance wrapper: without one its origin
  is unknown.
\<close>

theorem bus_envelope_sound:
  assumes "any_bus_decode lib b = Inr e"
  shows "\<exists>es. parse_value lib b = Inr (JObj es) \<and> map_of es ''signature'' = None \<and>
    map_of es ''famp'' = Some (JStr ''0.5.2'') \<and>
    map_of es ''class'' = Some (JStr (class_str (bus_class e))) \<and>
    map_of es ''from'' = Some (JStr (principal_display (bus_from e))) \<and> wf_principal (bus_from e) \<and>
    set (map fst es) \<subseteq> set (map fst (wire_fields lib de_value)) \<and>
    split_stamped (JObj es) = (Unknown, JObj es)"
  using any_bus_decode_ok [OF assms] split_stamped_envelope
  by (auto simp: bus_envelope_ok_def FAMP_SPEC_VERSION_def)

theorem bus_envelope_sound_witness:
  "\<exists>e es. any_bus_decode demo_lib [1] = Inr e \<and> parse_value demo_lib [1] = Inr (JObj es) \<and>
     map_of es ''signature'' = None"
proof -
  have "is_ok (any_bus_decode demo_lib [1])" by code_simp
  then obtain e where e: "any_bus_decode demo_lib [1] = Inr e" by (auto simp: is_ok_iff)
  then show ?thesis using bus_envelope_sound [OF e] by blast
qed

text \<open>
  C20: What the broker appends for an accepted bus envelope comes back as that envelope with that
  origin: where the canonical text of a message decodes as a bus envelope, its stamped line decodes to the
  message and the origin it was stamped with. The texts of the message and of the stamped record are assumed to parse back.
\<close>

theorem stamp_round_trip:
  assumes "canonicalize lib v = Inr line" "any_bus_decode lib line = Inr e"
    and "text_faithful lib v" "stamp_line lib line o' = Inr stamped"
    and "text_faithful lib (stamped_to_json \<lparr>st_origin = o', st_envelope = v\<rparr>)"
  shows "decode_line lib stamped = Inr (o', v)"
proof -
  have p: "parse_value lib line = Inr v"
    using assms(3) by (rule text_faithful_parse) (use assms(1) in simp)
  obtain w where "parse_value lib stamped = Inr w" "split_stamped w = (o', v)"
    using stamp_line_split [OF parse_value_from_slice [OF p] assms(4,5)] by blast
  then show ?thesis using assms(1,2) by (simp add: decode_line_def)
qed

theorem stamp_round_trip_witness: "decode_line demo_lib [2] = Inr (Local, demo_envelope)"
proof -
  have "is_ok (any_bus_decode demo_lib [1])" by code_simp
  then obtain e where e: "any_bus_decode demo_lib [1] = Inr e" by (auto simp: is_ok_iff)
  have t: "text_faithful demo_lib demo_envelope"
    by (rule text_faithful_sorted [of _ _ "[1]"]) code_simp+
  have j: "stamped_to_json \<lparr>st_origin = Local, st_envelope = demo_envelope\<rparr> = demo_stamped"
    by code_simp
  have t': "text_faithful demo_lib (stamped_to_json \<lparr>st_origin = Local, st_envelope = demo_envelope\<rparr>)"
    unfolding j by (rule text_faithful_sorted [of _ _ "[2]"]) code_simp+
  have "canonicalize demo_lib demo_envelope = Inr [1]" "stamp_line demo_lib [1] Local = Inr [2]"
    by code_simp+
  from stamp_round_trip [OF this(1) e t this(2) t'] show ?thesis .
qed

subsection \<open>Mailboxes\<close>

definition demo_disk :: disk where
  "demo_disk = (\<lambda>p. if p = mailbox_path (Agent ''bob'') then FileBytes [2, 10, 3, 10] else FileNotFound)"

lemma demo_disk_wf: "disk_wf demo_disk"
  by (simp add: disk_wf_def demo_disk_def file_wf_def)

text \<open>
  C21: Walking a mailbox file loses nothing and repeats nothing. A walk takes a prefix of the
  records at the cursor, passes none that the policy wants kept for later, and delivers exactly
  the wanted ones in order; a drain at the cursor it returns yields exactly the records it did
  not take, and none if it claims to have drained everything.
\<close>

theorem disk_walk_resumes:
  assumes "disk_wf s" "disk_drain_from s n c = Inr d" "c \<le> next_offset d"
  shows "\<exists>pre d'. disk_drain_from s n (wo_next_offset (walk lib c d p)) = Inr d' \<and>
    records d = pre @ records d' \<and> next_offset d' = next_offset d \<and>
    wo_delivered (walk lib c d p) = takes lib p pre \<and>
    (\<forall>r \<in> set pre. verdict_of lib p r \<noteq> Block) \<and>
    (wo_fully_drained (walk lib c d p) \<longrightarrow> records d' = [])"
  using assms by (rule disk.walk_resumes)

theorem disk_walk_resumes_witness:
  "\<exists>d pre d'. disk_drain_from demo_disk (Agent ''bob'') 0 = Inr d \<and>
     disk_drain_from demo_disk (Agent ''bob'')
       (wo_next_offset (walk demo_lib 0 d (await_policy AnyEnvelope None))) = Inr d' \<and>
     records d = pre @ records d'"
proof -
  obtain d where d: "disk_drain_from demo_disk (Agent ''bob'') 0 = Inr d"
    using disk.drain_total [OF demo_disk_wf] by blast
  then show ?thesis
    using disk_walk_resumes [OF demo_disk_wf d, of demo_lib "await_policy AnyEnvelope None"] by fastforce
qed

text \<open>
  A cursor left beyond the end of a file that was truncated heals: the walk delivers nothing,
  counts as complete and moves the cursor to the end, and the next line appended is delivered from
  there.
\<close>

theorem truncated_cursor_heals:
  assumes "disk_wf s" "disk_lines s n = Some ls" "total_len ls \<le> c" "10 \<notin> set l"
  shows "\<exists>d d'. disk_drain_from s n c = Inr d \<and>
    walk lib c d p = \<lparr>wo_delivered = [], wo_next_offset = total_len ls, wo_fully_drained = True\<rparr> \<and>
    disk_drain_from (disk_appended s n l) n (total_len ls) = Inr d' \<and>
    map rec_bytes (records d') = [l]"
  using disk.walk_heals [OF assms(1-3), of lib p] disk.drain_after_append [OF assms(1,4,2)]
  by auto

theorem truncated_cursor_heals_witness:
  "\<exists>d d'. disk_drain_from demo_disk (Agent ''bob'') 99 = Inr d \<and>
     wo_next_offset (walk demo_lib 99 d (await_policy AnyEnvelope None)) = 4 \<and>
     disk_drain_from (disk_appended demo_disk (Agent ''bob'') [7]) (Agent ''bob'') 4 = Inr d' \<and>
     map rec_bytes (records d') = [[7]]"
proof -
  have l: "disk_lines demo_disk (Agent ''bob'') = Some [[2], [3]]" by code_simp
  have t: "total_len [[2], [3]] = 4" by code_simp
  show ?thesis
    using truncated_cursor_heals [OF demo_disk_wf l, of 99 "[7]" demo_lib "await_policy AnyEnvelope None"] t
    by auto
qed

text \<open>
  C22: The in-memory mailbox used in the broker's tests answers every drain, from any cursor, as
  the files do that hold the same lines, and keeps doing so when the same line is appended to both.
\<close>

theorem inmem_simulates_disk:
  assumes "disk_wf d" "bt_get s n = disk_lines d n" "10 \<notin> set l"
  shows "inmem_drain_from s n c = disk_drain_from d n c \<and>
    inmem_drain_from (inmem_append s n l) n c = disk_drain_from (disk_appended d n l) n c"
proof -
  have eq: "inmem_drain_from s n c = disk_drain_from d n c" if "disk_wf d" "bt_get s n = disk_lines d n" for d s
    using that(2) inmem.drain_present [of s n _ c] inmem.drain_absent [of s n c]
      disk.drain_present [OF that(1), of n _ c] disk.drain_absent [OF that(1), of n c]
    by (cases "disk_lines d n") auto
  show ?thesis
    using eq [OF assms(1,2)] eq [OF disk.append_wf [OF assms(1,3)], of "inmem_append s n l" n]
      inmem.append_lines [OF _ assms(3)] disk.append_lines [OF assms(1,3)] assms(2)
    by simp
qed

theorem inmem_simulates_disk_witness:
  "inmem_drain_from (bt_insert (Agent ''bob'') [[2], [3]] bt_empty) (Agent ''bob'') 1 =
     disk_drain_from demo_disk (Agent ''bob'') 1"
proof -
  have "bt_get (bt_insert (Agent ''bob'') [[2], [3]] bt_empty) (Agent ''bob'') =
      disk_lines demo_disk (Agent ''bob'')"
    by code_simp
  from inmem_simulates_disk [OF demo_disk_wf this, of "[]" 1] show ?thesis by simp
qed

subsection \<open>Tasks\<close>

lemma fsm_run_terminal: "terminal (fsm_state m) \<Longrightarrow> fsm_run m is = m"
  by (induction "is") (simp_all add: fsm_step_def terminal_no_next)

lemma fsm_run_committed:
  "fsm_state m = Requested \<Longrightarrow> fsm_state (fsm_run m is) \<in> {Completed, Failed} \<Longrightarrow>
   \<exists>xs ys. is = xs @ ys \<and> fsm_state (fsm_run m xs) = Committed"
proof (induction "is" arbitrary: m)
  case (Cons i "is")
  let ?m = "snd (fsm_step m i)"
  have "fsm_state ?m \<in> {Requested, Committed, Cancelled}"
    using fsm_step_state [of m i] Cons.prems(1) by (auto elim: fsm_move_from_Requested)
  then consider "fsm_state ?m = Requested" | "fsm_state ?m = Committed" | "fsm_state ?m = Cancelled"
    by blast
  then show ?case
  proof cases
    case 1
    then obtain xs ys where "is = xs @ ys" "fsm_state (fsm_run ?m xs) = Committed"
      using Cons.IH [OF 1] Cons.prems(2) by (metis fsm_run.simps(2))
    then have "i # is = (i # xs) @ ys \<and> fsm_state (fsm_run m (i # xs)) = Committed" by simp
    then show ?thesis by blast
  next
    case 2
    then have "i # is = [i] @ is \<and> fsm_state (fsm_run m [i]) = Committed" by simp
    then show ?thesis by blast
  next
    case 3
    then show ?thesis using Cons.prems(2) fsm_run_terminal [of ?m "is"] by (simp add: terminal_def)
  qed
qed simp

text \<open>
  What becomes of a task, read off the messages sent: the first commit or cancellation counts, and after a
  commit the first completion, failure or cancellation.
\<close>

definition input_is :: "message_class \<Rightarrow> terminal_status option \<Rightarrow> task_transition_input \<Rightarrow> bool" where
  "input_is c t i \<longleftrightarrow> in_class i = c \<and> in_terminal_status i = t"

definition ending :: "task_transition_input \<Rightarrow> task_state option" where
  "ending i =
     (if input_is Deliver (Some TsCompleted) i then Some Completed
      else if input_is Deliver (Some TsFailed) i then Some Failed
      else if input_is Control None i then Some Cancelled else None)"

definition committed_outcome :: "task_transition_input list \<Rightarrow> task_state" where
  "committed_outcome is = (case List.map_filter ending is of [] \<Rightarrow> Committed | s # _ \<Rightarrow> s)"

definition task_outcome :: "task_transition_input list \<Rightarrow> task_state" where
  "task_outcome is =
     (case dropWhile (\<lambda>i. \<not> input_is Commit None i \<and> \<not> input_is Control None i) is of
        [] \<Rightarrow> Requested
      | i # rest \<Rightarrow> if input_is Control None i then Cancelled else committed_outcome rest)"

lemma fsm_step_resumed:
  "snd (fsm_step (fsm_resume Committed) i) = fsm_resume (unwrap_or Committed (ending i))"
  "snd (fsm_step (fsm_resume Requested) i) =
     fsm_resume (if input_is Control None i then Cancelled else if input_is Commit None i then Committed else Requested)"
  by (cases "in_class i"; cases "in_terminal_status i"; cases "the (in_terminal_status i)";
      simp add: fsm_step_def fsm_resume_def ending_def input_is_def)+

lemma fsm_run_resumed: "terminal s \<Longrightarrow> fsm_run (fsm_resume s) is = fsm_resume s"
  by (rule fsm_run_terminal) (simp add: fsm_resume_def)

lemma ending_terminal: "ending i = Some s \<Longrightarrow> terminal s"
  by (auto simp: ending_def terminal_def split: if_splits)

lemma fsm_run_from_Committed: "fsm_run (fsm_resume Committed) is = fsm_resume (committed_outcome is)"
proof (induction "is")
  case (Cons i "is")
  then show ?case
    by (cases "ending i")
      (simp_all add: committed_outcome_def List.map_filter_def fsm_step_resumed fsm_run_resumed [OF ending_terminal])
qed (simp add: committed_outcome_def List.map_filter_def)

lemma fsm_run_outcome: "fsm_run fsm_new is = fsm_resume (task_outcome is)"
proof (induction "is")
  case (Cons i "is")
  have new: "fsm_new = fsm_resume Requested" by (simp add: fsm_new_def fsm_resume_def)
  have "terminal Cancelled" by (simp add: terminal_def)
  then show ?case
    using Cons fsm_run_from_Committed [of "is"] fsm_run_resumed [of Cancelled "is"] unfolding new
    by (simp add: task_outcome_def fsm_step_resumed)
qed (simp add: task_outcome_def fsm_new_def fsm_resume_def)

lemma fsm_step_moves:
  "fst (fsm_step m i) =
     (if fsm_state (snd (fsm_step m i)) = fsm_state m
      then Inl (IllegalTransition (fsm_state m) (in_class i) (in_terminal_status i))
      else Inr (fsm_state (snd (fsm_step m i))))"
proof -
  have "fsm_next s c t \<noteq> Some s" for s c t by (induction s c t rule: fsm_next.induct) simp_all
  then show ?thesis by (auto simp: fsm_step_def split: option.split)
qed

text \<open>
  C23: The task machine is the life cycle. After any messages its stored state is the outcome read off them: the
  first commit or cancellation of a requested task counts, and after a commit the first completion, failure or
  cancellation. A message that changes the outcome is accepted with the new state as its result; any other is refused
  with the state and the message and leaves the machine as it was. A task that has ended stays as it ended, and
  one that completed or failed was committed before.
\<close>

theorem task_life_cycle:
  "fsm_run fsm_new is = fsm_resume (task_outcome is) \<and>
   fsm_step (fsm_run fsm_new is) i =
     (if task_outcome (is @ [i]) = task_outcome is
      then (Inl (IllegalTransition (task_outcome is) (in_class i) (in_terminal_status i)), fsm_resume (task_outcome is))
      else (Inr (task_outcome (is @ [i])), fsm_resume (task_outcome (is @ [i])))) \<and>
   (terminal (fsm_state m) \<longrightarrow> fsm_run m is = m) \<and>
   (fsm_state (fsm_run fsm_new is) \<in> {Completed, Failed} \<longrightarrow>
      (\<exists>xs ys. is = xs @ ys \<and> fsm_state (fsm_run fsm_new xs) = Committed))"
proof (intro conjI impI)
  show "fsm_run fsm_new is = fsm_resume (task_outcome is)" by (rule fsm_run_outcome)
  have "snd (fsm_step (fsm_run fsm_new is) i) = fsm_resume (task_outcome (is @ [i]))"
    using fsm_run_append [of fsm_new "is" "[i]"] by (simp add: fsm_run_outcome)
  then show "fsm_step (fsm_run fsm_new is) i =
     (if task_outcome (is @ [i]) = task_outcome is
      then (Inl (IllegalTransition (task_outcome is) (in_class i) (in_terminal_status i)), fsm_resume (task_outcome is))
      else (Inr (task_outcome (is @ [i])), fsm_resume (task_outcome (is @ [i]))))"
    using fsm_step_moves [of "fsm_run fsm_new is" i]
    by (intro prod_eqI) (simp_all add: fsm_run_outcome fsm_resume_def)
next
  assume "fsm_state (fsm_run fsm_new is) \<in> {Completed, Failed}"
  then show "\<exists>xs ys. is = xs @ ys \<and> fsm_state (fsm_run fsm_new xs) = Committed"
    by (rule fsm_run_committed [rotated]) (simp add: fsm_new_def)
qed (rule fsm_run_terminal)

definition demo_task :: "task_transition_input list" where
  "demo_task =
     [\<lparr>in_class = Commit, in_terminal_status = None\<rparr>,
      \<lparr>in_class = Deliver, in_terminal_status = Some TsCompleted\<rparr>]"

theorem task_life_cycle_witness:
  "fsm_state (fsm_run fsm_new demo_task) = Completed \<and>
   fsm_run (fsm_resume Completed) demo_task = fsm_resume Completed \<and>
   (\<exists>xs ys. demo_task = xs @ ys \<and> fsm_state (fsm_run fsm_new xs) = Committed)"
proof -
  have "fsm_state (fsm_run fsm_new demo_task) = Completed" by code_simp
  moreover have "terminal (fsm_state (fsm_resume Completed))" by code_simp
  ultimately show ?thesis
    using task_life_cycle [of demo_task _ "fsm_resume Completed"] by simp
qed

end
