(* ===== verification/Keyring.thy ===== *)
theory Keyring
  imports Crypto
begin

text \<open>
  The trust store of pinned peer keys (\<open>famp-keyring\<close>: \<open>lib.rs\<close>, \<open>entry.rs\<close>, \<open>error.rs\<close>): per
  principal a list of keys, each active, retired or revoked, with the time-aware lookup and the
  operations that pin, rotate, retire and revoke. A mutating operation returns its result together
  with the keyring it leaves behind, also when it fails. The store's \<open>HashMap\<close> is a map ordered by
  principal: no operation depends on the iteration order.
\<close>

instantiation principal_ext :: (linorder) linorder
begin

definition less_eq_principal_ext :: "'a principal_scheme \<Rightarrow> 'a principal_scheme \<Rightarrow> bool" where
  "less_eq_principal_ext p q \<longleftrightarrow>
     (authority p, pname p, principal.more p) \<le> (authority q, pname q, principal.more q)"

definition less_principal_ext :: "'a principal_scheme \<Rightarrow> 'a principal_scheme \<Rightarrow> bool" where
  "less_principal_ext p q \<longleftrightarrow>
     (authority p, pname p, principal.more p) < (authority q, pname q, principal.more q)"

instance
proof
  fix p q r :: "'a principal_scheme"
  show "p < q \<longleftrightarrow> p \<le> q \<and> \<not> q \<le> p" "p \<le> p" "p \<le> q \<or> q \<le> p"
    by (auto simp: less_eq_principal_ext_def less_principal_ext_def)
  show "p \<le> q \<Longrightarrow> q \<le> r \<Longrightarrow> p \<le> r"
    unfolding less_eq_principal_ext_def by (rule order_trans)
  show "p \<le> q \<Longrightarrow> q \<le> p \<Longrightarrow> p = q"
    unfolding less_eq_principal_ext_def by (drule (1) antisym) (auto intro: principal.equality)
qed

end

subsection \<open>Entries\<close>

datatype key_state = KsActive | KsRetired | KsRevoked

fun as_token :: "key_state \<Rightarrow> string" where
  "as_token KsActive = ''active''"
| "as_token KsRetired = ''retired''"
| "as_token KsRevoked = ''revoked''"

definition from_token :: "string \<Rightarrow> key_state option" where
  "from_token t =
     (if t = ''active'' then Some KsActive
      else if t = ''retired'' then Some KsRetired
      else if t = ''revoked'' then Some KsRevoked
      else None)"

record key_entry =
  ke_key :: verifying_key
  ke_state :: key_state
  valid_until :: "string option"
  pinned_at :: "string option"
  state_since :: "string option"

definition ke_legacy :: "verifying_key \<Rightarrow> key_entry" where
  "ke_legacy k =
     \<lparr>ke_key = k, ke_state = KsActive, valid_until = None, pinned_at = None, state_since = None\<rparr>"

definition ke_new ::
  "verifying_key \<Rightarrow> key_state \<Rightarrow> string option \<Rightarrow> string option \<Rightarrow> string option \<Rightarrow> key_entry" where
  "ke_new k s v p t =
     \<lparr>ke_key = k, ke_state = s, valid_until = v, pinned_at = p, state_since = t\<rparr>"

definition ke_key_id :: "fed_lib \<Rightarrow> key_entry \<Rightarrow> string" where
  "ke_key_id fl e = key_id fl (ke_key e)"

definition is_legacy_shaped :: "key_entry \<Rightarrow> bool" where
  "is_legacy_shaped e \<longleftrightarrow>
     ke_state e = KsActive \<and> valid_until e = None \<and> pinned_at e = None \<and> state_since e = None"

definition is_canonical_utc :: "string \<Rightarrow> bool" where
  "is_canonical_utc v \<longleftrightarrow>
     length v = 20 \<and> list_all (\<lambda>i. is_ascii_digit (v ! i)) [0..<4] \<and> v ! 4 = CHR ''-'' \<and>
     list_all (\<lambda>i. is_ascii_digit (v ! i)) [5..<7] \<and> v ! 7 = CHR ''-'' \<and>
     list_all (\<lambda>i. is_ascii_digit (v ! i)) [8..<10] \<and> v ! 10 = CHR ''T'' \<and>
     list_all (\<lambda>i. is_ascii_digit (v ! i)) [11..<13] \<and> v ! 13 = CHR '':'' \<and>
     list_all (\<lambda>i. is_ascii_digit (v ! i)) [14..<16] \<and> v ! 16 = CHR '':'' \<and>
     list_all (\<lambda>i. is_ascii_digit (v ! i)) [17..<19] \<and> v ! 19 = CHR ''Z''"

subsection \<open>Errors\<close>

datatype entry_fault =
    InlineComment
  | FieldCount nat
  | BadPrincipal principal_error
  | BadState string
  | BadTimestamp string string

datatype keyring_error =
    DuplicatePrincipal principal nat
  | DuplicatePubkey principal nat
  | DuplicateKeyEntry principal nat
  | MalformedEntry nat entry_fault
  | KeyConflict principal
  | KeyChangeRequiresConfirmation principal string string
  | KeyRevoked principal string
  | NoSuchKeyEntry principal string
  | CannotRetire principal string string
  | NonCanonicalTimestamp string
  | RevocationSignerNotAuthorized principal
  | RevocationSignatureInvalid principal
  | RevocationBlobMalformed string
  | InvalidPeerFlag string
  | KrIo string
  | KrCrypto crypto_error

subsection \<open>The store\<close>

type_synonym keyring = "(principal, key_entry list) btree"

definition kr_new :: keyring where "kr_new = bt_empty"

definition kr_entries :: "keyring \<Rightarrow> principal \<Rightarrow> key_entry list" where
  "kr_entries kr p = (case bt_get kr p of None \<Rightarrow> [] | Some es \<Rightarrow> es)"

definition kr_get :: "keyring \<Rightarrow> principal \<Rightarrow> verifying_key option" where
  "kr_get kr p =
     Option.bind (bt_get kr p) (\<lambda>es. map_option ke_key (find (\<lambda>e. ke_state e = KsActive) es))"

definition kr_len :: "keyring \<Rightarrow> nat" where "kr_len kr = length (bt_keys kr)"

definition kr_is_empty :: "keyring \<Rightarrow> bool" where "kr_is_empty kr \<longleftrightarrow> bt_keys kr = []"

datatype key_lookup_outcome =
    KlActive verifying_key
  | KlUnpinned
  | KlExpired string
  | KlRetired "string option"
  | KlRevoked "string option"
  | KlNonCanonicalNow

definition active_key :: "keyring \<Rightarrow> principal \<Rightarrow> string \<Rightarrow> key_lookup_outcome" where
  "active_key kr p now =
     (if \<not> is_canonical_utc now then KlNonCanonicalNow
      else (case bt_get kr p of
          None \<Rightarrow> KlUnpinned
        | Some es \<Rightarrow>
            if es = [] then KlUnpinned
            else (case find (\<lambda>e. ke_state e = KsActive) es of
                Some a \<Rightarrow>
                  (case valid_until a of
                     Some vu \<Rightarrow> if vu \<le> now then KlExpired vu else KlActive (ke_key a)
                   | None \<Rightarrow> KlActive (ke_key a))
              | None \<Rightarrow>
                  (case find (\<lambda>e. ke_state e = KsRevoked) es of
                     Some r \<Rightarrow> KlRevoked (state_since r)
                   | None \<Rightarrow>
                       (case find (\<lambda>e. ke_state e = KsRetired) es of
                          Some r \<Rightarrow> KlRetired (state_since r)
                        | None \<Rightarrow> KlUnpinned)))))"

text \<open>\<open>map.entry(p).or_default()\<close>.\<close>

definition or_default :: "principal \<Rightarrow> keyring \<Rightarrow> keyring" where
  "or_default p kr = (case bt_get kr p of None \<Rightarrow> bt_insert p [] kr | Some _ \<Rightarrow> kr)"

definition kr_push :: "principal \<Rightarrow> key_entry \<Rightarrow> keyring \<Rightarrow> keyring" where
  "kr_push p e kr = bt_insert p (kr_entries kr p @ [e]) kr"

definition revoked_here :: "key_entry list \<Rightarrow> verifying_key \<Rightarrow> bool" where
  "revoked_here es k \<longleftrightarrow> (\<exists>e \<in> set es. ke_state e = KsRevoked \<and> ke_key e = k)"

definition pin_tofu :: "fed_lib \<Rightarrow> principal \<Rightarrow> verifying_key \<Rightarrow> keyring \<Rightarrow> (keyring_error + unit) \<times> keyring" where
  "pin_tofu fl p k kr =
     (case bt_get kr p of
        None \<Rightarrow> (Inr (), kr_push p (ke_legacy k) kr)
      | Some es \<Rightarrow>
          if revoked_here es k then (Inl (KeyRevoked p (key_id fl k)), kr)
          else (case find (\<lambda>e. ke_state e = KsActive) es of
              Some a \<Rightarrow> if ke_key a \<noteq> k then (Inl (KeyConflict p), kr) else (Inr (), kr)
            | None \<Rightarrow> (Inr (), kr_push p (ke_legacy k) kr)))"

definition with_peer :: "fed_lib \<Rightarrow> keyring \<Rightarrow> principal \<Rightarrow> verifying_key \<Rightarrow> keyring_error + keyring" where
  "with_peer fl kr p k = (case pin_tofu fl p k kr of (Inl e, _) \<Rightarrow> Inl e | (Inr _, kr') \<Rightarrow> Inr kr')"

datatype rotation_outcome = FirstPin | AlreadyPinned | Rotated string string

text \<open>\<open>iter().position\<close>.\<close>

fun position :: "('a \<Rightarrow> bool) \<Rightarrow> 'a list \<Rightarrow> nat option" where
  "position P [] = None"
| "position P (x # xs) = (if P x then Some 0 else map_option Suc (position P xs))"

definition restate :: "key_state \<Rightarrow> string \<Rightarrow> key_entry \<Rightarrow> key_entry" where
  "restate s now old = ke_new (ke_key old) s (valid_until old) (pinned_at old) (Some now)"

definition rotate_to ::
  "fed_lib \<Rightarrow> principal \<Rightarrow> verifying_key \<Rightarrow> string \<Rightarrow> string option \<Rightarrow> bool \<Rightarrow> keyring \<Rightarrow>
   (keyring_error + rotation_outcome) \<times> keyring" where
  "rotate_to fl p k now vu confirmed kr =
     (if \<not> is_canonical_utc now then (Inl (NonCanonicalTimestamp now), kr)
      else if \<not> pred_option is_canonical_utc vu then (Inl (NonCanonicalTimestamp (the vu)), kr)
      else if revoked_here (kr_entries kr p) k then (Inl (KeyRevoked p (key_id fl k)), kr)
      else
        (let kr1 = or_default p kr; es = kr_entries kr1 p in
         (case position (\<lambda>e. ke_state e = KsActive) es of
            None \<Rightarrow> (Inr FirstPin, kr_push p (ke_new k KsActive vu (Some now) None) kr1)
          | Some i \<Rightarrow>
              if ke_key (es ! i) = k then (Inr AlreadyPinned, kr1)
              else (let previous = ke_key_id fl (es ! i) in
                if \<not> confirmed
                then (Inl (KeyChangeRequiresConfirmation p previous (key_id fl k)), kr1)
                else (Inr (Rotated previous (key_id fl k)),
                      bt_insert p (es[i := restate KsRetired now (es ! i)] @ [ke_new k KsActive vu (Some now) None]) kr1)))))"

definition remove_nth :: "nat \<Rightarrow> 'a list \<Rightarrow> 'a list" where
  "remove_nth i xs = take i xs @ drop (Suc i) xs"

definition retire :: "fed_lib \<Rightarrow> principal \<Rightarrow> string \<Rightarrow> keyring \<Rightarrow> (keyring_error + unit) \<times> keyring" where
  "retire fl p kid kr =
     (case bt_get kr p of
        None \<Rightarrow> (Inl (NoSuchKeyEntry p kid), kr)
      | Some es \<Rightarrow>
          (case position (\<lambda>e. ke_key_id fl e = kid) es of
             None \<Rightarrow> (Inl (NoSuchKeyEntry p kid), kr)
           | Some i \<Rightarrow>
               (case ke_state (es ! i) of
                  KsActive \<Rightarrow> (Inl (CannotRetire p kid ''active''), kr)
                | KsRevoked \<Rightarrow> (Inl (CannotRetire p kid ''revoked''), kr)
                | KsRetired \<Rightarrow>
                    (let es' = remove_nth i es in
                     (Inr (), if es' = [] then bt_remove p kr else bt_insert p es' kr)))))"

definition revoke ::
  "fed_lib \<Rightarrow> principal \<Rightarrow> string \<Rightarrow> string \<Rightarrow> keyring \<Rightarrow> (keyring_error + unit) \<times> keyring" where
  "revoke fl p kid now kr =
     (if \<not> is_canonical_utc now then (Inl (NonCanonicalTimestamp now), kr)
      else (case bt_get kr p of
          None \<Rightarrow> (Inl (NoSuchKeyEntry p kid), kr)
        | Some es \<Rightarrow>
            (case position (\<lambda>e. ke_key_id fl e = kid) es of
               None \<Rightarrow> (Inl (NoSuchKeyEntry p kid), kr)
             | Some i \<Rightarrow>
                 if ke_state (es ! i) = KsRevoked then (Inr (), kr)
                 else (Inr (), bt_insert p (es[i := restate KsRevoked now (es ! i)]) kr))))"

subsection \<open>Signed revocations\<close>

record revocation_statement =
  rs_principal :: string
  revoked_key_id :: string
  revoked_at :: string
  rs_reason :: "string option"

record signed_revocation =
  statement :: revocation_statement
  rs_sig :: string

text \<open>The statement as the value that is canonicalized; \<open>reason\<close> is written even when absent.\<close>

definition statement_to_json :: "revocation_statement \<Rightarrow> json" where
  "statement_to_json s =
     ser_struct
       [(''principal'', Some (JStr (rs_principal s))),
        (''revoked_key_id'', Some (JStr (revoked_key_id s))),
        (''revoked_at'', Some (JStr (revoked_at s))),
        (''reason'', Some (case rs_reason s of None \<Rightarrow> JNull | Some r \<Rightarrow> JStr r))]"

definition de_statement :: "revocation_statement de" where
  "de_statement v =
     res_bind (de_struct [req_field ''principal'' de_string, req_field ''revoked_key_id'' de_string,
                          req_field ''revoked_at'' de_string, opt_field ''reason'' de_string] v) (\<lambda>es.
     res_bind (req es ''principal'' de_string) (\<lambda>p.
     res_bind (req es ''revoked_key_id'' de_string) (\<lambda>k.
     res_bind (req es ''revoked_at'' de_string) (\<lambda>t.
     res_bind (opt es ''reason'' de_string) (\<lambda>r.
     Inr \<lparr>rs_principal = p, revoked_key_id = k, revoked_at = t, rs_reason = r\<rparr>)))))"

definition de_signed_revocation :: "signed_revocation de" where
  "de_signed_revocation v =
     res_bind (de_struct [req_field ''statement'' de_statement, req_field ''sig'' de_string] v) (\<lambda>es.
     res_bind (req es ''statement'' de_statement) (\<lambda>s.
     res_bind (req es ''sig'' de_string) (\<lambda>g.
     Inr \<lparr>statement = s, rs_sig = g\<rparr>)))"

definition statement_sign ::
  "fed_lib \<Rightarrow> ext_lib \<Rightarrow> signing_key \<Rightarrow> revocation_statement \<Rightarrow> keyring_error + signed_revocation" where
  "statement_sign fl lib sk s =
     res_bind (map_err KrCrypto (sign_value fl lib sk (statement_to_json s))) (\<lambda>g.
     Inr \<lparr>statement = s, rs_sig = sig_to_b64url fl g\<rparr>)"

text \<open>The text of a blob, a \<open>String\<close>, as its bytes; serde's derived visitors refuse a repeated field.\<close>

definition to_blob :: "fed_lib \<Rightarrow> signed_revocation \<Rightarrow> keyring_error + bytes" where
  "to_blob fl r =
     map_err RevocationBlobMalformed
       (json_to_vec fl (JObj [(''statement'', JObj
            [(''principal'', JStr (rs_principal (statement r))),
             (''revoked_key_id'', JStr (revoked_key_id (statement r))),
             (''revoked_at'', JStr (revoked_at (statement r))),
             (''reason'', case rs_reason (statement r) of None \<Rightarrow> JNull | Some t \<Rightarrow> JStr t)]),
          (''sig'', JStr (rs_sig r))]))"

definition from_blob :: "ext_lib \<Rightarrow> bytes \<Rightarrow> keyring_error + signed_revocation" where
  "from_blob lib b =
     (case from_slice_strict lib (\<lambda>v. map_err (\<lambda>_. ''invalid revocation'') (de_signed_revocation v)) b of
        Inl e \<Rightarrow> Inl (RevocationBlobMalformed ''invalid revocation'')
      | Inr r \<Rightarrow> Inr r)"

definition authorized_signer_for :: "fed_lib \<Rightarrow> keyring \<Rightarrow> principal \<Rightarrow> string \<Rightarrow> verifying_key list" where
  "authorized_signer_for fl kr p kid =
     map ke_key (filter (\<lambda>e. ke_state e \<noteq> KsRevoked \<and> (ke_state e = KsActive \<or> ke_key_id fl e = kid))
       (kr_entries kr p))"

definition apply_signed_revocation ::
  "fed_lib \<Rightarrow> ext_lib \<Rightarrow> signed_revocation \<Rightarrow> string \<Rightarrow> keyring \<Rightarrow> (keyring_error + unit) \<times> keyring" where
  "apply_signed_revocation fl lib r now kr =
     (if \<not> is_canonical_utc now then (Inl (NonCanonicalTimestamp now), kr)
      else (let s = statement r in
        if \<not> is_canonical_utc (revoked_at s) then (Inl (NonCanonicalTimestamp (revoked_at s)), kr)
        else (case principal_from_str (rs_principal s) of
            Inl _ \<Rightarrow> (Inl (RevocationBlobMalformed ''invalid principal''), kr)
          | Inr p \<Rightarrow>
              if kr_entries kr p = [] then (Inl (NoSuchKeyEntry p (revoked_key_id s)), kr)
              else if \<not> (\<exists>e \<in> set (kr_entries kr p). ke_key_id fl e = revoked_key_id s)
              then (Inl (NoSuchKeyEntry p (revoked_key_id s)), kr)
              else (let candidates = authorized_signer_for fl kr p (revoked_key_id s) in
                if candidates = [] then (Inl (RevocationSignerNotAuthorized p), kr)
                else (case sig_from_b64url fl (rs_sig r) of
                    Inl _ \<Rightarrow> (Inl (RevocationSignatureInvalid p), kr)
                  | Inr g \<Rightarrow>
                      if \<exists>vk \<in> set candidates. is_ok (verify_value fl lib vk (statement_to_json s) g)
                      then revoke fl p (revoked_key_id s) (revoked_at s) kr
                      else (Inl (RevocationSignatureInvalid p), kr))))))"

end
