(* ===== verification/KeyLife.thy ===== *)
theory KeyLife
  imports Keyring
begin

text \<open>
  The life cycle of pinned keys as an abstract machine on the key list of one principal, and the
  refinement: every operation of the keyring moves at most one principal's list, by one step of
  the machine. The invariants of the store are proved on the machine.
\<close>

subsection \<open>The machine\<close>

abbreviation active :: "key_entry \<Rightarrow> bool" where "active e \<equiv> ke_state e = KsActive"

definition stamps_ok :: "key_entry \<Rightarrow> bool" where
  "stamps_ok e \<longleftrightarrow>
     pred_option is_canonical_utc (valid_until e) \<and> pred_option is_canonical_utc (pinned_at e) \<and>
     pred_option is_canonical_utc (state_since e)"

inductive key_step :: "key_entry list \<Rightarrow> key_entry list \<Rightarrow> bool" where
  pin: "\<forall>e \<in> set es. \<not> active e \<Longrightarrow> \<not> revoked_here es (ke_key n) \<Longrightarrow> active n \<Longrightarrow> stamps_ok n \<Longrightarrow>
    key_step es (es @ [n])"
| rotate: "i < length es \<Longrightarrow> position active es = Some i \<Longrightarrow> \<not> revoked_here es (ke_key n) \<Longrightarrow> active n \<Longrightarrow>
    stamps_ok n \<Longrightarrow> is_canonical_utc now \<Longrightarrow> key_step es (es[i := restate KsRetired now (es ! i)] @ [n])"
| forget: "i < length es \<Longrightarrow> ke_state (es ! i) = KsRetired \<Longrightarrow> key_step es (remove_nth i es)"
| revoke: "i < length es \<Longrightarrow> is_canonical_utc now \<Longrightarrow> key_step es (es[i := restate KsRevoked now (es ! i)])"

inductive_cases key_stepE: "key_step es es'"

text \<open>One operation on the store: nothing, or one step on one principal's list.\<close>

definition kr_moves :: "keyring \<Rightarrow> keyring \<Rightarrow> bool" where
  "kr_moves kr kr' \<longleftrightarrow>
     kr' = kr \<or>
     (\<exists>p es'. key_step (kr_entries kr p) es' \<and>
        kr' = (if es' = [] then bt_remove p kr else bt_insert p es' kr))"

datatype keyring_op =
    OpPin principal verifying_key
  | OpRotate principal verifying_key string "string option" bool
  | OpRetire principal string
  | OpRevoke principal string string
  | OpRevocation signed_revocation string

fun kr_apply :: "fed_lib \<Rightarrow> ext_lib \<Rightarrow> keyring_op \<Rightarrow> keyring \<Rightarrow> (keyring_error + unit) \<times> keyring" where
  "kr_apply fl lib (OpPin p k) kr = pin_tofu fl p k kr"
| "kr_apply fl lib (OpRotate p k now vu c) kr =
     apfst (map_sum id (\<lambda>_. ())) (rotate_to fl p k now vu c kr)"
| "kr_apply fl lib (OpRetire p kid) kr = retire fl p kid kr"
| "kr_apply fl lib (OpRevoke p kid now) kr = Keyring.revoke fl p kid now kr"
| "kr_apply fl lib (OpRevocation r now) kr = apply_signed_revocation fl lib r now kr"

fun kr_run :: "fed_lib \<Rightarrow> ext_lib \<Rightarrow> keyring_op list \<Rightarrow> keyring \<Rightarrow> keyring" where
  "kr_run fl lib [] kr = kr"
| "kr_run fl lib (o' # os) kr = kr_run fl lib os (snd (kr_apply fl lib o' kr))"

subsection \<open>Refinement\<close>

lemma position_Some_iff:
  "position P xs = Some i \<longleftrightarrow> i < length xs \<and> P (xs ! i) \<and> (\<forall>j < i. \<not> P (xs ! j))"
proof (induction xs arbitrary: i)
  case (Cons x xs)
  then show ?case by (cases i) (auto simp: nth_Cons split: nat.splits)
qed simp

lemma position_None_iff: "position P xs = None \<longleftrightarrow> (\<forall>x \<in> set xs. \<not> P x)"
  by (induction xs) auto

lemma find_active_None: "find active es = None \<longleftrightarrow> (\<forall>e \<in> set es. \<not> active e)"
  by (auto simp: find_None_iff)

lemma kr_entries_get: "bt_get kr p = Some es \<Longrightarrow> kr_entries kr p = es"
  and kr_entries_none: "bt_get kr p = None \<Longrightarrow> kr_entries kr p = []"
  by (simp_all add: kr_entries_def)

lemma kr_entries_or_default [simp]: "kr_entries (or_default p kr) q = kr_entries kr q"
  by (auto simp: or_default_def kr_entries_def split: option.splits)

lemma bt_insert_or_default: "bt_insert p es (or_default p kr) = bt_insert p es kr"
  by (rule bt_ext) (auto simp: or_default_def split: option.splits)

lemma or_default_entries: "kr_entries kr p \<noteq> [] \<Longrightarrow> or_default p kr = kr"
  by (auto simp: or_default_def kr_entries_def split: option.splits)

lemma kr_movesI:
  "key_step (kr_entries kr p) es' \<Longrightarrow> es' \<noteq> [] \<Longrightarrow> kr_moves kr (bt_insert p es' kr)"
  unfolding kr_moves_def by auto

lemma kr_moves_same [simp]: "kr_moves kr kr"
  by (simp add: kr_moves_def)

lemma pin_tofu_moves: "kr_moves kr (snd (pin_tofu fl p k kr))"
proof -
  have step: "key_step es (es @ [ke_legacy k])" if "\<forall>e \<in> set es. \<not> active e" "\<not> revoked_here es k" for es
    using that by (intro key_step.pin) (simp_all add: ke_legacy_def stamps_ok_def)
  show ?thesis
    using step [of "kr_entries kr p"]
    by (auto simp: pin_tofu_def kr_push_def kr_entries_def find_active_None revoked_here_def
        split: option.splits intro!: kr_movesI)
qed

lemma rotate_to_moves: "kr_moves kr (snd (rotate_to fl p k now vu c kr))"
proof (cases "is_canonical_utc now \<and> pred_option is_canonical_utc vu \<and> \<not> revoked_here (kr_entries kr p) k")
  case True
  let ?n = "ke_new k KsActive vu (Some now) None"
  have n: "active ?n" "stamps_ok ?n" "\<not> revoked_here (kr_entries kr p) (ke_key ?n)"
    using True by (simp_all add: ke_new_def stamps_ok_def)
  show ?thesis
  proof (cases "position active (kr_entries kr p)")
    case None
    then have "key_step (kr_entries kr p) (kr_entries kr p @ [?n])"
      using n by (intro key_step.pin) (auto simp: position_None_iff)
    then show ?thesis
      using True None
      by (auto simp: rotate_to_def Let_def kr_push_def bt_insert_or_default intro: kr_movesI)
  next
    case (Some i)
    then have i: "i < length (kr_entries kr p)" by (simp add: position_Some_iff)
    have ne: "kr_entries kr p \<noteq> []" using i by auto
    have "key_step (kr_entries kr p) ((kr_entries kr p)[i := restate KsRetired now (kr_entries kr p ! i)] @ [?n])"
      using n True Some i by (intro key_step.rotate) auto
    then show ?thesis
      using True Some ne
      by (auto simp: rotate_to_def Let_def or_default_entries intro: kr_movesI)
  qed
qed (auto simp: rotate_to_def)

lemma retire_moves: "kr_moves kr (snd (retire fl p kid kr))"
proof (cases "bt_get kr p")
  case (Some es)
  show ?thesis
  proof (cases "position (\<lambda>e. ke_key_id fl e = kid) es")
    case (Some i)
    then have "i < length es" by (simp add: position_Some_iff)
    then have "ke_state (es ! i) = KsRetired \<Longrightarrow> kr_moves kr
        (if remove_nth i es = [] then bt_remove p kr else bt_insert p (remove_nth i es) kr)"
      using key_step.forget [of i es] kr_entries_get [OF \<open>bt_get kr p = Some es\<close>]
      unfolding kr_moves_def by blast
    then show ?thesis
      using Some \<open>bt_get kr p = Some es\<close> by (auto simp: retire_def Let_def split: key_state.splits)
  qed (use Some in \<open>simp add: retire_def\<close>)
qed (simp add: retire_def)

lemma revoke_moves: "kr_moves kr (snd (Keyring.revoke fl p kid now kr))"
proof (cases "bt_get kr p")
  case (Some es)
  show ?thesis
  proof (cases "position (\<lambda>e. ke_key_id fl e = kid) es")
    case (Some i)
    then have "i < length es" by (simp add: position_Some_iff)
    then have "is_canonical_utc now \<Longrightarrow> kr_moves kr (bt_insert p (es[i := restate KsRevoked now (es ! i)]) kr)"
      using key_step.revoke [of i es now] kr_entries_get [OF \<open>bt_get kr p = Some es\<close>]
      by (intro kr_movesI) auto
    then show ?thesis
      using Some \<open>bt_get kr p = Some es\<close> by (auto simp: revoke_def)
  qed (use Some in \<open>simp add: revoke_def\<close>)
qed (simp add: revoke_def)

lemma apply_signed_revocation_moves: "kr_moves kr (snd (apply_signed_revocation fl lib r now kr))"
  by (auto simp: apply_signed_revocation_def Let_def revoke_moves split: sum.splits)

lemma kr_apply_moves: "kr_moves kr (snd (kr_apply fl lib o' kr))"
  by (cases o')
    (simp_all add: pin_tofu_moves rotate_to_moves retire_moves revoke_moves apply_signed_revocation_moves)

lemma kr_apply_error: "fst (kr_apply fl lib o' kr) = Inl e \<Longrightarrow> snd (kr_apply fl lib o' kr) = kr"
proof (cases o')
  case (OpRotate p k now vu c)
  have "kr_entries kr p \<noteq> []" if "position active (kr_entries kr p) = Some i" for i
    using that by auto
  then show "fst (kr_apply fl lib o' kr) = Inl e \<Longrightarrow> ?thesis"
    by (auto simp: OpRotate rotate_to_def Let_def or_default_entries split: option.splits if_splits)
qed (auto simp: pin_tofu_def retire_def revoke_def apply_signed_revocation_def Let_def
    split: option.splits if_splits key_state.splits sum.splits)

subsection \<open>Invariants\<close>

definition list_ok :: "key_entry list \<Rightarrow> bool" where
  "list_ok es \<longleftrightarrow> length (filter active es) \<le> 1 \<and> list_all stamps_ok es"

definition shelf_ok :: "key_entry list \<Rightarrow> bool" where
  "shelf_ok es \<longleftrightarrow> es \<noteq> [] \<and> list_ok es"

definition kr_ok :: "keyring \<Rightarrow> bool" where
  "kr_ok kr \<longleftrightarrow> list_all (\<lambda>(p, es). shelf_ok es) (bt_entries kr)"

lemma kr_ok_iff: "kr_ok kr \<longleftrightarrow> (\<forall>p es. bt_get kr p = Some es \<longrightarrow> shelf_ok es)"
  by (auto simp: kr_ok_def list_all_iff bt_entries_iff)

lemma kr_ok_entries: "kr_ok kr \<Longrightarrow> list_ok (kr_entries kr p)"
  by (cases "bt_get kr p") (auto simp: kr_ok_iff kr_entries_def list_ok_def shelf_ok_def)

lemma count_restate:
  "i < length es \<Longrightarrow> length (filter active (es[i := restate s now (es ! i)])) =
     length (filter active es) - (if active (es ! i) then 1 else 0) + (if s = KsActive then 1 else 0)"
  by (subst id_take_nth_drop [of i es], assumption)
    (simp add: upd_conv_take_nth_drop restate_def ke_new_def)

lemma stamps_restate:
  assumes "list_all stamps_ok es" "i < length es" "is_canonical_utc now"
  shows "list_all stamps_ok (es[i := restate s now (es ! i)])"
proof -
  have "stamps_ok (restate s now (es ! i))"
    using assms nth_mem [of i es] by (auto simp: stamps_ok_def restate_def ke_new_def list_all_iff)
  then show ?thesis using assms(1) set_update_subset_insert [of es i] by (fastforce simp: list_all_iff)
qed

lemma set_remove_nth: "set (remove_nth i es) \<subseteq> set es"
  using set_take_subset set_drop_subset by (fastforce simp: remove_nth_def)

lemma count_remove_nth: "length (filter P (remove_nth i es)) \<le> length (filter P es)"
proof (cases "i < length es")
  case True
  then show ?thesis by (subst (2) id_take_nth_drop [of i es]) (simp_all add: remove_nth_def)
qed (simp add: remove_nth_def)

lemma key_step_ok: "key_step es es' \<Longrightarrow> list_ok es \<Longrightarrow> list_ok es'"
proof (induction rule: key_step.induct)
  case (pin es n)
  then show ?case by (simp add: list_ok_def)
next
  case (rotate i es n now)
  then have "active (es ! i)" by (simp add: position_Some_iff)
  with rotate show ?case by (auto simp: list_ok_def count_restate stamps_restate)
next
  case (forget i es)
  then show ?case
    using count_remove_nth [of active i es] set_remove_nth [of i es]
    by (auto simp: list_ok_def list_all_iff)
next
  case (revoke i es now)
  then show ?case by (auto simp: list_ok_def count_restate stamps_restate)
qed

lemma kr_moves_ok: "kr_moves kr kr' \<Longrightarrow> kr_ok kr \<Longrightarrow> kr_ok kr'"
proof -
  assume m: "kr_moves kr kr'" and ok: "kr_ok kr"
  have "kr_ok (if es' = [] then bt_remove p kr else bt_insert p es' kr)"
    if "key_step (kr_entries kr p) es'" for p es'
  proof -
    have "es' \<noteq> [] \<Longrightarrow> shelf_ok es'" using key_step_ok [OF that kr_ok_entries [OF ok]] by (simp add: shelf_ok_def)
    then show ?thesis using ok by (auto simp: kr_ok_iff)
  qed
  then show ?thesis using m ok unfolding kr_moves_def by blast
qed

lemma kr_run_ok: "kr_ok kr \<Longrightarrow> kr_ok (kr_run fl lib os kr)"
  using kr_moves_ok [OF kr_apply_moves] by (induction os arbitrary: kr) auto

text \<open>A revoked key that is not active under its principal: no operation brings it back.\<close>

definition key_dead :: "key_entry list \<Rightarrow> verifying_key \<Rightarrow> bool" where
  "key_dead es k \<longleftrightarrow> revoked_here es k \<and> \<not> (\<exists>e \<in> set es. active e \<and> ke_key e = k)"

lemma restate_sel [simp]: "ke_key (restate s now e) = ke_key e" "ke_state (restate s now e) = s"
  by (simp_all add: restate_def ke_new_def)

lemma key_dead_update:
  assumes "key_dead es k" "i < length es" "s \<noteq> KsActive" "ke_state (es ! i) = KsRevoked \<longrightarrow> s = KsRevoked"
  shows "key_dead (es[i := restate s now (es ! i)]) k"
proof -
  obtain j where j: "j < length es" "ke_state (es ! j) = KsRevoked" "ke_key (es ! j) = k"
    using assms(1) by (auto simp: key_dead_def revoked_here_def in_set_conv_nth)
  have "es[i := restate s now (es ! i)] ! j \<in> set (es[i := restate s now (es ! i)])"
    using j by (intro nth_mem) simp
  moreover have "ke_state (es[i := restate s now (es ! i)] ! j) = KsRevoked"
      "ke_key (es[i := restate s now (es ! i)] ! j) = k"
    using j assms(2,4) by (auto simp: nth_list_update)
  moreover have "\<not> (active e \<and> ke_key e = k)" if "e \<in> set (es[i := restate s now (es ! i)])" for e
    using that assms(1,3) set_update_subset_insert [of es i] by (fastforce simp: key_dead_def)
  ultimately show ?thesis unfolding key_dead_def revoked_here_def by blast
qed

lemma key_step_dead: "key_step es es' \<Longrightarrow> key_dead es k \<Longrightarrow> key_dead es' k"
proof (induction rule: key_step.induct)
  case (pin es n)
  then show ?case by (auto simp: key_dead_def revoked_here_def)
next
  case (rotate i es n now)
  then have "key_dead (es[i := restate KsRetired now (es ! i)]) k"
    by (intro key_dead_update) (auto simp: position_Some_iff)
  then show ?case using rotate by (auto simp: key_dead_def revoked_here_def)
next
  case (forget i es)
  obtain e where e: "e \<in> set es" "ke_state e = KsRevoked" "ke_key e = k"
    using forget.prems by (auto simp: key_dead_def revoked_here_def)
  have "set es = set (remove_nth i es) \<union> {es ! i}"
    by (subst (1) id_take_nth_drop [OF forget(1)]) (auto simp: remove_nth_def)
  then have "e \<in> set (remove_nth i es)" using e forget(2) by auto
  then show ?case using e forget.prems set_remove_nth [of i es] by (auto simp: key_dead_def revoked_here_def)
next
  case (revoke i es now)
  then show ?case by (intro key_dead_update) auto
qed

lemma kr_moves_dead: "kr_moves kr kr' \<Longrightarrow> key_dead (kr_entries kr p) k \<Longrightarrow> key_dead (kr_entries kr' p) k"
proof -
  assume m: "kr_moves kr kr'" and d: "key_dead (kr_entries kr p) k"
  have "kr_entries (if es' = [] then bt_remove q kr else bt_insert q es' kr) p =
      (if p = q then es' else kr_entries kr p)" for q es'
    by (auto simp: kr_entries_def)
  then show ?thesis using m d key_step_dead unfolding kr_moves_def by auto
qed

lemma kr_run_dead: "key_dead (kr_entries kr p) k \<Longrightarrow> key_dead (kr_entries (kr_run fl lib os kr) p) k"
  using kr_moves_dead [OF kr_apply_moves] by (induction os arbitrary: kr) auto

end
