(* ===== verification/KeyringFile.thy ===== *)
theory KeyringFile
  imports KeyLife "HOL-Library.Multiset"
begin

text \<open>
  The keyring file (\<open>famp-keyring\<close>: \<open>file_format.rs\<close>, \<open>load_from_file\<close>, \<open>save_to_file\<close>, and
  \<open>peer_flag.rs\<close>). A file is its text; opening, reading and writing it are system calls.
\<close>

subsection \<open>Lines and fields\<close>

definition rust_ws :: "string list" where "rust_ws = map (map char_of) utf8_whitespace"

definition rust_trim_start :: "string \<Rightarrow> string" where
  "rust_trim_start s = strip_loop (length s) rust_ws s"

lemma strip_any_shorter: "strip_any ps s = Some r \<Longrightarrow> [] \<notin> set ps \<Longrightarrow> length r < length s"
  by (induction ps s rule: strip_any.induct) (auto simp: strip_prefix_Some_iff split: option.splits)

lemma rust_ws_nonempty: "[] \<notin> set rust_ws"
  by (simp add: rust_ws_def utf8_whitespace_def)

text \<open>\<open>split_whitespace\<close>, with the field being read in reverse.\<close>

function ws_tokens :: "string \<Rightarrow> string \<Rightarrow> string list" where
  "ws_tokens cur [] = (if cur = [] then [] else [rev cur])"
| "ws_tokens cur (c # cs) =
     (case strip_any rust_ws (c # cs) of
        Some r \<Rightarrow> (if cur = [] then [] else [rev cur]) @ ws_tokens [] r
      | None \<Rightarrow> ws_tokens (c # cur) cs)"
  by pat_completeness auto
termination
  by (relation "measure (length \<circ> snd)")
    (auto dest!: strip_any_shorter [OF _ rust_ws_nonempty])

definition split_whitespace :: "string \<Rightarrow> string list" where
  "split_whitespace s = ws_tokens [] s"

definition strip_cr :: "string \<Rightarrow> string" where
  "strip_cr l = (if l \<noteq> [] \<and> last l = CHR 0x0D then butlast l else l)"

text \<open>\<open>BufRead::lines\<close>.\<close>

function read_lines :: "string \<Rightarrow> string list" where
  "read_lines s =
     (case split_at_char (CHR 0x0A) s of
        None \<Rightarrow> if s = [] then [] else [s]
      | Some (l, rest) \<Rightarrow> strip_cr l # read_lines rest)"
  by pat_completeness auto
termination
  by (relation "measure length") (auto simp: split_at_char_Some_iff)

declare read_lines.simps [simp del]

subsection \<open>Entries as lines\<close>

definition ABSENT :: string where "ABSENT = ''-''"

definition parse_ts :: "nat \<Rightarrow> string \<Rightarrow> string \<Rightarrow> keyring_error + string option" where
  "parse_ts n field raw =
     (if raw = ABSENT then Inr None
      else if \<not> is_canonical_utc raw then Inl (MalformedEntry n (BadTimestamp field raw))
      else Inr (Some raw))"

definition parse_line :: "fed_lib \<Rightarrow> string \<Rightarrow> nat \<Rightarrow> keyring_error + principal \<times> key_entry" where
  "parse_line fl raw n =
     (let line = strip_cr raw in
      if CHR ''#'' \<in> set line then Inl (MalformedEntry n InlineComment)
      else (let fields = split_whitespace line in
        if length fields \<noteq> 2 \<and> length fields \<noteq> 6
        then Inl (MalformedEntry n (FieldCount (length fields)))
        else
          res_bind (map_err (\<lambda>e. MalformedEntry n (BadPrincipal e)) (principal_from_str (fields ! 0))) (\<lambda>p.
          res_bind (map_err KrCrypto (vk_from_b64url fl (fields ! 1))) (\<lambda>k.
          if length fields = 2 then Inr (p, ke_legacy k)
          else
            res_bind (ok_or (MalformedEntry n (BadState (fields ! 2))) (from_token (fields ! 2))) (\<lambda>st.
            res_bind (parse_ts n ''valid_until'' (fields ! 3)) (\<lambda>vu.
            res_bind (parse_ts n ''pinned_at'' (fields ! 4)) (\<lambda>pa.
            res_bind (parse_ts n ''state_since'' (fields ! 5)) (\<lambda>ss.
            Inr (p, ke_new k st vu pa ss)))))))))"

definition serialize_entry :: "fed_lib \<Rightarrow> principal \<Rightarrow> key_entry \<Rightarrow> string" where
  "serialize_entry fl p e =
     (if is_legacy_shaped e
      then principal_display p @ ''  '' @ vk_to_b64url fl (ke_key e) @ [CHR 0x0A]
      else principal_display p @ ''  '' @ vk_to_b64url fl (ke_key e) @ ''  '' @ as_token (ke_state e) @
        ''  '' @ unwrap_or ABSENT (valid_until e) @ ''  '' @ unwrap_or ABSENT (pinned_at e) @
        ''  '' @ unwrap_or ABSENT (state_since e) @ [CHR 0x0A])"

definition parse_peer_flag :: "fed_lib \<Rightarrow> string \<Rightarrow> keyring_error + principal \<times> verifying_key" where
  "parse_peer_flag fl raw =
     (case split_at_char (CHR ''='') raw of
        None \<Rightarrow> Inl (InvalidPeerFlag raw)
      | Some (ps, ks) \<Rightarrow>
          res_bind (map_err (\<lambda>e. InvalidPeerFlag ps) (principal_from_str ps)) (\<lambda>p.
          res_bind (map_err KrCrypto (vk_from_b64url fl ks)) (\<lambda>k.
          Inr (p, k))))"

subsection \<open>Loading and saving\<close>

fun load_lines ::
  "fed_lib \<Rightarrow> nat \<Rightarrow> string list \<Rightarrow> keyring \<Rightarrow> (verifying_key \<times> principal) list \<Rightarrow>
   keyring_error + keyring" where
  "load_lines fl n [] m seen = Inr m"
| "load_lines fl n (line # ls) m seen =
     (let trimmed = rust_trim_start line in
      if trimmed = [] \<or> hd trimmed = CHR ''#'' then load_lines fl (Suc n) ls m seen
      else (case parse_line fl line n of
          Inl e \<Rightarrow> Inl e
        | Inr (p, e) \<Rightarrow>
            if active e \<and> (\<exists>x \<in> set (kr_entries m p). active x) then Inl (DuplicatePrincipal p n)
            else (case map_of seen (ke_key e) of
                Some q \<Rightarrow> if q = p then Inl (DuplicateKeyEntry p n) else Inl (DuplicatePubkey q n)
              | None \<Rightarrow> load_lines fl (Suc n) ls (kr_push p e m) ((ke_key e, p) # seen))))"

definition kr_load :: "fed_lib \<Rightarrow> string \<Rightarrow> keyring_error + keyring" where
  "kr_load fl content = load_lines fl 1 (read_lines content) kr_new []"

definition saved_entries :: "fed_lib \<Rightarrow> keyring \<Rightarrow> (principal \<times> key_entry) list" where
  "saved_entries fl kr =
     concat (map (\<lambda>p. map (Pair p) (sort_key (\<lambda>e. vk_to_b64url fl (ke_key e)) (kr_entries kr p)))
       (sort_key principal_display (bt_keys kr)))"

definition kr_save :: "fed_lib \<Rightarrow> keyring \<Rightarrow> string" where
  "kr_save fl kr = concat (map (\<lambda>(p, e). serialize_entry fl p e) (saved_entries fl kr))"

subsection \<open>Reading back a written line\<close>

text \<open>The characters a written field consists of.\<close>

definition graphic :: "char \<Rightarrow> bool" where
  "graphic c \<longleftrightarrow> 33 \<le> (of_char c :: nat) \<and> (of_char c :: nat) \<le> 126 \<and> c \<noteq> CHR ''#''"

definition field_ok :: "string \<Rightarrow> bool" where
  "field_ok f \<longleftrightarrow> f \<noteq> [] \<and> list_all graphic f"

fun join2 :: "string list \<Rightarrow> string" where
  "join2 [] = []"
| "join2 [f] = f"
| "join2 (f # g # fs) = f @ ''  '' @ join2 (g # fs)"

lemma strip_any_None_iff: "strip_any ps s = None \<longleftrightarrow> (\<forall>p \<in> set ps. strip_prefix p s = None)"
  by (induction ps s rule: strip_any.induct) (auto split: option.splits)

lemma ws_first_chars: "\<forall>p \<in> set rust_ws. p \<noteq> [] \<and> \<not> graphic (hd p)"
  by (simp add: rust_ws_def utf8_whitespace_def graphic_def)

lemma strip_any_graphic: "graphic c \<Longrightarrow> strip_any rust_ws (c # cs) = None"
proof -
  assume g: "graphic c"
  have "strip_prefix p (c # cs) = None" if "p \<in> set rust_ws" for p
    using ws_first_chars that g by (cases p) auto
  then show ?thesis by (simp add: strip_any_None_iff)
qed

lemma strip_any_space: "strip_any rust_ws (CHR '' '' # cs) = Some cs"
  by (simp add: rust_ws_def utf8_whitespace_def char_of_def bit_0)

lemma ws_tokens_graphic: "list_all graphic f \<Longrightarrow> ws_tokens cur (f @ rest) = ws_tokens (rev f @ cur) rest"
  by (induction f arbitrary: cur) (simp_all add: strip_any_graphic)

lemma split_whitespace_join2: "list_all field_ok fs \<Longrightarrow> split_whitespace (join2 fs) = fs"
proof (induction fs rule: join2.induct)
  case (2 f)
  then show ?case
    using ws_tokens_graphic [of f "[]" "[]"] by (simp add: split_whitespace_def field_ok_def)
next
  case (3 f g fs)
  then show ?case
    using ws_tokens_graphic [of f "[]" "''  '' @ join2 (g # fs)"]
    by (simp add: split_whitespace_def field_ok_def strip_any_space)
qed (simp add: split_whitespace_def)

lemma join2_chars: "list_all field_ok fs \<Longrightarrow> c \<in> set (join2 fs) \<Longrightarrow> graphic c \<or> c = CHR '' ''"
  by (induction fs rule: join2.induct) (auto simp: field_ok_def list_all_iff)

lemma graphic_plain: "\<not> graphic (CHR ''#'')" "\<not> graphic (CHR 0x0A)" "\<not> graphic (CHR 0x0D)" "\<not> graphic (CHR '' '')"
  by (simp_all add: graphic_def)

lemma strip_cr_join2: "list_all field_ok fs \<Longrightarrow> strip_cr (join2 fs) = join2 fs"
proof -
  assume "list_all field_ok fs"
  then have "CHR 0x0D \<notin> set (join2 fs)" using join2_chars [of fs "CHR 0x0D"] graphic_plain(3) by auto
  then have "join2 fs = [] \<or> last (join2 fs) \<noteq> CHR 0x0D" using last_in_set [of "join2 fs"] by metis
  then show ?thesis by (auto simp: strip_cr_def)
qed

lemma ascii_char_graphic:
  "is_ascii_alphanumeric c \<Longrightarrow> graphic c" "name_char c \<Longrightarrow> graphic c" "label_char c \<Longrightarrow> graphic c"
proof -
  show a: "is_ascii_alphanumeric c \<Longrightarrow> graphic c" for c
    by (auto simp: is_ascii_alphanumeric_def is_ascii_digit_def is_ascii_lower_def is_ascii_upper_def
        graphic_def less_eq_char_def)
  show "name_char c \<Longrightarrow> graphic c" using a by (auto simp: name_char_def graphic_def)
  show "label_char c \<Longrightarrow> graphic c" using a by (auto simp: label_char_def graphic_def)
qed

lemma authority_graphic: "validate_authority a = Inr u \<Longrightarrow> list_all graphic a"
proof -
  assume "validate_authority a = Inr u"
  then have "check_labels (split_all (CHR ''.'') a) = Inr u"
    by (auto simp: validate_authority_def split: if_splits)
  then have "c \<in> set a \<Longrightarrow> c \<noteq> CHR ''.'' \<Longrightarrow> graphic c" for c
    using split_all_chars [of c a "CHR ''.''"] check_labels_chars ascii_char_graphic(3) by blast
  moreover have "graphic (CHR ''.'')" by (simp add: graphic_def)
  ultimately show ?thesis by (auto simp: list_all_iff)
qed

lemma principal_field_ok: "wf_principal p \<Longrightarrow> field_ok (principal_display p)"
proof -
  assume "wf_principal p"
  then have "list_all graphic (authority p)" "list_all graphic (pname p)"
    using authority_graphic [of "authority p"] valid_name_chars [of "pname p"] ascii_char_graphic(2)
    by (auto simp: wf_principal_def is_ok_iff list_all_iff)
  then show ?thesis by (simp add: field_ok_def principal_display_def graphic_def)
qed

text \<open>A canonical time is digits at fourteen places and separators at the other six.\<close>

lemma utc_places:
  assumes "list_all P ([0..<4] @ [5..<7] @ [8..<10] @ [11..<13] @ [14..<16] @ [17..<19] @ [4, 7, 10, 13, 16, 19])"
    and "i < 20"
  shows "P (i :: nat)"
proof -
  have "i \<in> set ([0..<4] @ [5..<7] @ [8..<10] @ [11..<13] @ [14..<16] @ [17..<19] @ [4, 7, 10, 13, 16, 19])"
    using assms(2)
    unfolding set_append set_upt Un_iff list.set insert_iff empty_iff atLeastLessThan_iff
    by presburger
  then show ?thesis using assms(1) unfolding list_all_iff by blast
qed

lemma canonical_utcD:
  assumes "is_canonical_utc v"
  shows "list_all (\<lambda>i. is_ascii_digit (v ! i)) ([0..<4] @ [5..<7] @ [8..<10] @ [11..<13] @ [14..<16] @ [17..<19])"
    and "v ! 4 = CHR ''-''" "v ! 7 = CHR ''-''" "v ! 10 = CHR ''T''" "v ! 13 = CHR '':''"
    and "v ! 16 = CHR '':''" "v ! 19 = CHR ''Z''" "length v = 20"
  using assms unfolding is_canonical_utc_def list_all_append by blast+

lemma canonical_utc_field_ok: "is_canonical_utc v \<Longrightarrow> field_ok v"
proof -
  assume v: "is_canonical_utc v"
  note c = canonical_utcD [OF v]
  have s: "list_all (\<lambda>i. graphic (v ! i)) [4, 7, 10, 13, 16, 19]"
    using c(2-7) by (simp add: graphic_def)
  have d: "list_all (\<lambda>i. is_ascii_digit (v ! i)) xs \<Longrightarrow> list_all (\<lambda>i. graphic (v ! i)) xs" for xs
    using ascii_char_graphic(1) unfolding is_ascii_alphanumeric_def list_all_iff by blast
  have "graphic (v ! i)" if "i < 20" for i
    by (rule utc_places [OF _ that]) (use d [OF c(1)] s in \<open>unfold list_all_append, blast\<close>)
  then show ?thesis using c(8) by (auto simp: field_ok_def list_all_length)
qed

lemma token_field_ok: "field_ok (as_token s)"
  by (cases s) (simp_all add: field_ok_def graphic_def)

lemma from_as_token: "from_token (as_token s) = Some s"
  by (cases s) (simp_all add: from_token_def)

lemma stamp_field:
  "pred_option is_canonical_utc t \<Longrightarrow> field_ok (unwrap_or ABSENT t) \<and> parse_ts n f (unwrap_or ABSENT t) = Inr t"
proof (cases t)
  case (Some v)
  assume "pred_option is_canonical_utc t"
  then have "is_canonical_utc v" using Some by simp
  moreover then have "v \<noteq> ABSENT" by (auto simp: is_canonical_utc_def ABSENT_def)
  ultimately show ?thesis using Some by (simp add: parse_ts_def canonical_utc_field_ok)
qed (simp add: parse_ts_def ABSENT_def field_ok_def graphic_def)

text \<open>A key whose text is base64 and decodes to it.\<close>

definition key_text_ok :: "fed_lib \<Rightarrow> verifying_key \<Rightarrow> bool" where
  "key_text_ok fl k \<longleftrightarrow>
     vk_from_b64url fl (vk_to_b64url fl k) = Inr k \<and> vk_to_b64url fl k \<noteq> [] \<and>
     list_all (\<lambda>c. is_ascii_alphanumeric c \<or> c = CHR ''-'' \<or> c = CHR ''_'') (vk_to_b64url fl k)"

definition entry_fields :: "fed_lib \<Rightarrow> principal \<Rightarrow> key_entry \<Rightarrow> string list" where
  "entry_fields fl p e =
     (if is_legacy_shaped e then [principal_display p, vk_to_b64url fl (ke_key e)]
      else [principal_display p, vk_to_b64url fl (ke_key e), as_token (ke_state e),
        unwrap_or ABSENT (valid_until e), unwrap_or ABSENT (pinned_at e), unwrap_or ABSENT (state_since e)])"

lemma serialize_entry_join2: "serialize_entry fl p e = join2 (entry_fields fl p e) @ [CHR 0x0A]"
  by (simp add: serialize_entry_def entry_fields_def)

lemma entry_fields_ok:
  assumes "wf_principal p" "key_text_ok fl (ke_key e)" "stamps_ok e"
  shows "list_all field_ok (entry_fields fl p e)"
proof -
  have "field_ok (vk_to_b64url fl (ke_key e))"
    using assms(2) ascii_char_graphic(2)
    unfolding key_text_ok_def field_ok_def list_all_iff name_char_def by blast
  moreover have "field_ok (unwrap_or ABSENT (valid_until e))" "field_ok (unwrap_or ABSENT (pinned_at e))"
      "field_ok (unwrap_or ABSENT (state_since e))"
    using assms(3) stamp_field unfolding stamps_ok_def by blast+
  ultimately show ?thesis
    using principal_field_ok [OF assms(1)] token_field_ok by (simp add: entry_fields_def)
qed

lemma parse_serialized:
  assumes "wf_principal p" "key_text_ok fl (ke_key e)" "stamps_ok e"
  shows "parse_line fl (join2 (entry_fields fl p e)) n = Inr (p, e)"
proof -
  note ok = entry_fields_ok [OF assms]
  have nh: "CHR ''#'' \<notin> set (join2 (entry_fields fl p e))"
    using join2_chars [OF ok, of "CHR ''#''"] graphic_plain(1) by auto
  have p: "principal_from_str (principal_display p) = Inr p"
    using assms(1) by (simp add: principal_from_str_Inr_iff)
  have l: "is_legacy_shaped e \<Longrightarrow> ke_legacy (ke_key e) = e"
    "ke_new (ke_key e) (ke_state e) (valid_until e) (pinned_at e) (state_since e) = e"
    by (simp_all add: is_legacy_shaped_def ke_legacy_def ke_new_def)
  have k: "vk_from_b64url fl (vk_to_b64url fl (ke_key e)) = Inr (ke_key e)"
    using assms(2) by (simp add: key_text_ok_def)
  have t: "parse_ts n f (unwrap_or ABSENT (valid_until e)) = Inr (valid_until e)"
    "parse_ts n f (unwrap_or ABSENT (pinned_at e)) = Inr (pinned_at e)"
    "parse_ts n f (unwrap_or ABSENT (state_since e)) = Inr (state_since e)" for f
    using assms(3) stamp_field unfolding stamps_ok_def by blast+
  have "parse_line fl (join2 (entry_fields fl p e)) n =
    (let fields = entry_fields fl p e in
        if length fields \<noteq> 2 \<and> length fields \<noteq> 6
        then Inl (MalformedEntry n (FieldCount (length fields)))
        else
          res_bind (map_err (\<lambda>e. MalformedEntry n (BadPrincipal e)) (principal_from_str (fields ! 0))) (\<lambda>p.
          res_bind (map_err KrCrypto (vk_from_b64url fl (fields ! 1))) (\<lambda>k.
          if length fields = 2 then Inr (p, ke_legacy k)
          else
            res_bind (ok_or (MalformedEntry n (BadState (fields ! 2))) (from_token (fields ! 2))) (\<lambda>st.
            res_bind (parse_ts n ''valid_until'' (fields ! 3)) (\<lambda>vu.
            res_bind (parse_ts n ''pinned_at'' (fields ! 4)) (\<lambda>pa.
            res_bind (parse_ts n ''state_since'' (fields ! 5)) (\<lambda>ss.
            Inr (p, ke_new k st vu pa ss))))))))"
    unfolding parse_line_def strip_cr_join2 [OF ok] split_whitespace_join2 [OF ok] Let_def if_not_P [OF nh] ..
  then show ?thesis
    using l by (cases "is_legacy_shaped e") (simp_all add: entry_fields_def p k t from_as_token)
qed

subsection \<open>Reading back a written file\<close>

lemma read_lines_Nil [simp]: "read_lines [] = []"
  by (simp add: read_lines.simps)

lemma read_lines_written:
  "\<forall>l \<in> set ls. CHR 0x0A \<notin> set l \<and> strip_cr l = l \<Longrightarrow>
   read_lines (concat (map (\<lambda>l. l @ [CHR 0x0A]) ls)) = ls"
proof (induction ls)
  case (Cons l ls)
  then show ?case
    using split_at_char_append [of "CHR 0x0A" l] by (subst read_lines.simps) simp
qed simp

lemma trim_start_graphic: "graphic c \<Longrightarrow> rust_trim_start (c # cs) = c # cs"
  by (simp add: rust_trim_start_def strip_any_graphic)

text \<open>Loading, on entries instead of their lines.\<close>

fun load_pairs ::
  "nat \<Rightarrow> (principal \<times> key_entry) list \<Rightarrow> keyring \<Rightarrow> (verifying_key \<times> principal) list \<Rightarrow> keyring_error + keyring" where
  "load_pairs n [] m seen = Inr m"
| "load_pairs n ((p, e) # xs) m seen =
     (if active e \<and> (\<exists>x \<in> set (kr_entries m p). active x) then Inl (DuplicatePrincipal p n)
      else (case map_of seen (ke_key e) of
          Some q \<Rightarrow> if q = p then Inl (DuplicateKeyEntry p n) else Inl (DuplicatePubkey q n)
        | None \<Rightarrow> load_pairs (Suc n) xs (kr_push p e m) ((ke_key e, p) # seen)))"

definition entry_ok :: "fed_lib \<Rightarrow> principal \<times> key_entry \<Rightarrow> bool" where
  "entry_ok fl x \<longleftrightarrow> wf_principal (fst x) \<and> key_text_ok fl (ke_key (snd x)) \<and> stamps_ok (snd x)"

lemma entry_line_start:
  assumes "entry_ok fl (p, e)"
  obtains c cs where "join2 (entry_fields fl p e) = c # cs" "graphic c"
proof -
  obtain c cs where "principal_display p = c # cs" "graphic c"
    using principal_field_ok [of p] assms by (cases "principal_display p") (auto simp: field_ok_def entry_ok_def)
  then show thesis by (cases "is_legacy_shaped e") (auto intro: that simp: entry_fields_def)
qed

lemma load_lines_pairs:
  "list_all (entry_ok fl) xs \<Longrightarrow>
   load_lines fl n (map (\<lambda>(p, e). join2 (entry_fields fl p e)) xs) m seen = load_pairs n xs m seen"
proof (induction xs arbitrary: n m seen)
  case (Cons x xs)
  obtain p e where x: "x = (p, e)" by (cases x)
  have ok: "entry_ok fl (p, e)" using Cons.prems x by simp
  obtain c cs where c: "join2 (entry_fields fl p e) = c # cs" "graphic c" using ok by (rule entry_line_start)
  have "c \<noteq> CHR ''#''" using c(2) graphic_plain(1) by auto
  moreover have "parse_line fl (c # cs) n = Inr (p, e)" for n
    using parse_serialized [of p fl e n] ok c(1) by (simp add: entry_ok_def)
  ultimately show ?case
    using Cons x c by (auto simp: trim_start_graphic Let_def split: option.splits)
qed simp

lemma kr_entries_push: "kr_entries (kr_push p e m) q = (if q = p then kr_entries m p @ [e] else kr_entries m q)"
  by (auto simp: kr_push_def kr_entries_def)

definition entries_of :: "principal \<Rightarrow> (principal \<times> key_entry) list \<Rightarrow> key_entry list" where
  "entries_of q xs = map snd (filter (\<lambda>x. fst x = q) xs)"

lemma entries_of_Cons: "entries_of q ((p, e) # xs) = (if p = q then [e] else []) @ entries_of q xs"
  by (simp add: entries_of_def)

lemma fold_push_entries:
  "kr_entries (fold (\<lambda>(p, e). kr_push p e) xs m) q = kr_entries m q @ entries_of q xs"
  by (induction xs arbitrary: m) (auto simp: kr_entries_push entries_of_def)

definition singly_active :: "keyring \<Rightarrow> (principal \<times> key_entry) list \<Rightarrow> bool" where
  "singly_active m xs \<longleftrightarrow> (\<forall>q. length (filter active (kr_entries m q @ entries_of q xs)) \<le> 1)"

lemma singly_active_Cons: "singly_active m ((p, e) # xs) \<longleftrightarrow> singly_active (kr_push p e m) xs"
proof -
  have "kr_entries m q @ entries_of q ((p, e) # xs) = kr_entries (kr_push p e m) q @ entries_of q xs" for q
    by (simp add: entries_of_Cons kr_entries_push)
  then show ?thesis by (simp add: singly_active_def)
qed

lemma entries_of_Nil [simp]: "entries_of q [] = []"
  by (simp add: entries_of_def)

lemma singly_active_NilI: "singly_active m xs \<Longrightarrow> singly_active m []"
  unfolding singly_active_def
proof
  fix q
  assume "\<forall>q. length (filter active (kr_entries m q @ entries_of q xs)) \<le> 1"
  then have "length (filter active (kr_entries m q @ entries_of q xs)) \<le> 1" ..
  then show "length (filter active (kr_entries m q @ entries_of q [])) \<le> 1" by simp
qed

lemma singly_active_push:
  assumes "singly_active m []"
  shows "singly_active (kr_push p e m) [] \<longleftrightarrow> \<not> (active e \<and> (\<exists>x \<in> set (kr_entries m p). active x))"
proof -
  have one: "length (filter active (kr_entries m q)) \<le> 1" for q
    using assms by (simp add: singly_active_def)
  then have "singly_active (kr_push p e m) [] \<longleftrightarrow> length (filter active (kr_entries m p @ [e])) \<le> 1"
    by (auto simp: singly_active_def kr_entries_push)
  also have "\<dots> \<longleftrightarrow> \<not> (active e \<and> filter active (kr_entries m p) \<noteq> [])"
    using one [of p] by (cases "filter active (kr_entries m p)") auto
  finally show ?thesis by (simp add: filter_empty_conv)
qed

lemma load_pairs_iff:
  "singly_active m [] \<Longrightarrow>
   load_pairs n xs m seen = Inr m' \<longleftrightarrow>
     singly_active m xs \<and> distinct (map (\<lambda>x. ke_key (snd x)) xs) \<and>
     (\<forall>x \<in> set xs. map_of seen (ke_key (snd x)) = None) \<and> m' = fold (\<lambda>(p, e). kr_push p e) xs m"
proof (induction xs arbitrary: n m seen)
  case (Cons x xs)
  obtain p e where x: "x = (p, e)" by (cases x)
  show ?case
  proof (cases "active e \<and> (\<exists>y \<in> set (kr_entries m p). active y)")
    case True
    then have "\<not> singly_active m (x # xs)"
      using singly_active_push [OF Cons.prems] singly_active_NilI by (auto simp: x singly_active_Cons)
    then show ?thesis using True x by simp
  next
    case False
    then have sa: "singly_active (kr_push p e m) []" using singly_active_push [OF Cons.prems] by blast
    have "(\<forall>y \<in> set xs. map_of ((ke_key e, p) # seen) (ke_key (snd y)) = None) \<longleftrightarrow>
        ke_key e \<notin> (\<lambda>x. ke_key (snd x)) ` set xs \<and> (\<forall>y \<in> set xs. map_of seen (ke_key (snd y)) = None)"
      by (auto simp: image_iff)
    then show ?thesis
      using False Cons.IH [OF sa, of "Suc n" "(ke_key e, p) # seen"] x
      by (cases "map_of seen (ke_key e)") (auto simp: singly_active_Cons)
  qed
qed auto

text \<open>A keyring whose entries can be written, and the keys it pins.\<close>

definition saveable :: "fed_lib \<Rightarrow> keyring \<Rightarrow> bool" where
  "saveable fl kr \<longleftrightarrow>
     kr_ok kr \<and> list_all (\<lambda>(p, es). wf_principal p \<and> list_all (\<lambda>e. key_text_ok fl (ke_key e)) es) (bt_entries kr)"

definition pinned_keys :: "keyring \<Rightarrow> verifying_key list" where
  "pinned_keys kr = concat (map (\<lambda>p. map ke_key (kr_entries kr p)) (bt_keys kr))"

lemma saveable_entries:
  assumes "saveable fl kr" "e \<in> set (kr_entries kr p)"
  shows "entry_ok fl (p, e)"
proof -
  obtain es where es: "bt_get kr p = Some es" "e \<in> set es"
    using assms(2) by (cases "bt_get kr p") (auto simp: kr_entries_def)
  then have m: "(p, es) \<in> set (bt_entries kr)" by (simp add: bt_entries_iff)
  have "shelf_ok es" "wf_principal p" "list_all (\<lambda>e. key_text_ok fl (ke_key e)) es"
    using assms(1) m es(1) unfolding saveable_def kr_ok_iff by (auto simp: list_all_iff [of _ "bt_entries kr"])
  then show ?thesis using es(2) by (auto simp: entry_ok_def shelf_ok_def list_ok_def list_all_iff)
qed

lemma entries_of_concat:
  "distinct ks \<Longrightarrow>
   entries_of q (concat (map (\<lambda>p. map (Pair p) (f p)) ks)) = (if q \<in> set ks then f q else [])"
proof (induction ks)
  case (Cons k ks)
  have "filter (\<lambda>x. fst x = q) (map (Pair k) (f k)) = (if k = q then map (Pair k) (f k) else [])"
    by (induction "f k") auto
  then show ?case using Cons by (auto simp: entries_of_def comp_def)
qed (simp add: entries_of_def)

lemma entries_of_saved:
  "entries_of q (saved_entries fl kr) = sort_key (\<lambda>e. vk_to_b64url fl (ke_key e)) (kr_entries kr q)"
proof -
  have d: "distinct (sort_key principal_display (bt_keys kr))"
    using bt_distinct [of kr] by (simp add: bt_keys_def)
  show ?thesis
    unfolding saved_entries_def entries_of_concat [OF d]
    by (auto simp: bt_keys_iff kr_entries_def split: option.splits)
qed

lemma mset_concat_perm:
  "mset ks = mset ls \<Longrightarrow> (\<And>k. mset (f k) = mset (g k)) \<Longrightarrow> mset (concat (map f ks)) = mset (concat (map g ls))"
  by (simp add: mset_concat comp_def flip: sum_mset_sum_list)

lemma distinct_saved_keys:
  "distinct (map (\<lambda>x. ke_key (snd x)) (saved_entries fl kr)) \<longleftrightarrow> distinct (pinned_keys kr)"
proof (rule mset_eq_imp_distinct_iff)
  have "mset (concat (map (\<lambda>p. map ke_key (sort_key (\<lambda>e. vk_to_b64url fl (ke_key e)) (kr_entries kr p)))
      (sort_key principal_display (bt_keys kr)))) = mset (pinned_keys kr)"
    unfolding pinned_keys_def by (rule mset_concat_perm) simp_all
  then show "mset (map (\<lambda>x. ke_key (snd x)) (saved_entries fl kr)) = mset (pinned_keys kr)"
    by (simp add: saved_entries_def map_concat comp_def)
qed

lemma written_lines:
  "concat (map (\<lambda>l. l @ [CHR 0x0A]) (map (\<lambda>(p, e). join2 (entry_fields fl p e)) xs)) =
   concat (map (\<lambda>(p, e). serialize_entry fl p e) xs)"
  by (induction xs) (auto simp: serialize_entry_join2)

lemma load_saved:
  assumes "saveable fl kr"
  shows "kr_load fl (kr_save fl kr) = Inr kr' \<longleftrightarrow>
    distinct (pinned_keys kr) \<and> kr' = fold (\<lambda>(p, e). kr_push p e) (saved_entries fl kr) kr_new"
proof -
  let ?xs = "saved_entries fl kr" and ?ls = "map (\<lambda>(p, e). join2 (entry_fields fl p e)) (saved_entries fl kr)"
  have ok: "list_all (entry_ok fl) ?xs"
    using saveable_entries [OF assms] by (auto simp: saved_entries_def list_all_iff)
  have "CHR 0x0A \<notin> set l \<and> strip_cr l = l" if "l \<in> set ?ls" for l
  proof -
    obtain p e where "(p, e) \<in> set ?xs" "l = join2 (entry_fields fl p e)" using \<open>l \<in> set ?ls\<close> by auto
    moreover then have "entry_ok fl (p, e)" using ok unfolding list_all_iff by blast
    then have "list_all field_ok (entry_fields fl p e)" by (intro entry_fields_ok) (simp_all add: entry_ok_def)
    ultimately show ?thesis using join2_chars graphic_plain(2) strip_cr_join2 by fastforce
  qed
  then have "read_lines (concat (map (\<lambda>l. l @ [CHR 0x0A]) ?ls)) = ?ls" by (intro read_lines_written) blast
  moreover have "concat (map (\<lambda>l. l @ [CHR 0x0A]) ?ls) = kr_save fl kr"
    unfolding kr_save_def by (rule written_lines)
  ultimately have "kr_load fl (kr_save fl kr) = load_pairs 1 ?xs kr_new []"
    using load_lines_pairs [OF ok] by (simp add: kr_load_def)
  moreover have e: "kr_entries kr_new q = []" for q by (simp add: kr_new_def kr_entries_def)
  have "singly_active kr_new ?xs"
    using kr_ok_entries assms
    by (auto simp: singly_active_def e entries_of_saved saveable_def list_ok_def filter_sort)
  moreover have "singly_active kr_new []" by (simp add: singly_active_def e)
  ultimately show ?thesis by (simp add: load_pairs_iff distinct_saved_keys)
qed

lemma load_saved_entries:
  "kr_entries (fold (\<lambda>(p, e). kr_push p e) (saved_entries fl kr) kr_new) q =
     sort_key (\<lambda>e. vk_to_b64url fl (ke_key e)) (kr_entries kr q)"
  by (simp add: fold_push_entries entries_of_saved) (simp add: kr_new_def kr_entries_def)

text \<open>What a loaded keyring satisfies, whatever the file says.\<close>

lemma load_lines_loaded:
  "load_lines fl n ls m seen = Inr m' \<Longrightarrow>
   \<exists>xs. (\<forall>i. load_pairs i xs m seen = Inr m') \<and> (\<forall>x \<in> set xs. stamps_ok (snd x))"
proof (induction fl n ls m seen rule: load_lines.induct)
  case (2 fl n line ls m seen)
  show ?case
  proof (cases "rust_trim_start line = [] \<or> hd (rust_trim_start line) = CHR ''#''")
    case True
    then show ?thesis using 2 by (simp add: Let_def)
  next
    case False
    then obtain p e where pe: "parse_line fl line n = Inr (p, e)"
      using 2(3) by (auto simp: Let_def split: sum.splits)
    have st: "stamps_ok e"
      using pe by (auto simp: parse_line_def Let_def res_bind_Inr_iff parse_ts_def stamps_ok_def ke_legacy_def
          ke_new_def split: if_splits)
    have go: "\<not> (active e \<and> (\<exists>x \<in> set (kr_entries m p). active x))" "map_of seen (ke_key e) = None"
        "load_lines fl (Suc n) ls (kr_push p e m) ((ke_key e, p) # seen) = Inr m'"
      using 2(3) False pe by (auto simp: Let_def split: if_splits option.splits)
    then obtain xs where "\<forall>i. load_pairs i xs (kr_push p e m) ((ke_key e, p) # seen) = Inr m'"
        "\<forall>x \<in> set xs. stamps_ok (snd x)"
      using 2(2) [OF refl False pe refl go(1,2)] by blast
    then have "(\<forall>i. load_pairs i ((p, e) # xs) m seen = Inr m') \<and> (\<forall>x \<in> set ((p, e) # xs). stamps_ok (snd x))"
      using go(1,2) st by auto
    then show ?thesis by blast
  qed
next
  case (1 fl n m seen)
  then have "(\<forall>i. load_pairs i [] m seen = Inr m') \<and> (\<forall>x \<in> set []. stamps_ok (snd x))" by simp
  then show ?case by (rule exI)
qed

lemma mset_pinned_keys:
  "mset (pinned_keys kr) = (\<Sum>p | bt_get kr p \<noteq> None. mset (map ke_key (kr_entries kr p)))"
proof -
  have "mset (pinned_keys kr) = (\<Sum>p \<leftarrow> bt_keys kr. mset (map ke_key (kr_entries kr p)))"
    by (simp add: pinned_keys_def mset_concat comp_def)
  also have "\<dots> = (\<Sum>p \<in> set (bt_keys kr). mset (map ke_key (kr_entries kr p)))"
    by (rule sum_list_distinct_conv_sum_set) (simp add: bt_keys_def bt_distinct)
  also have "set (bt_keys kr) = {p. bt_get kr p \<noteq> None}" by (simp add: set_eq_iff bt_keys_iff)
  finally show ?thesis .
qed

lemma finite_pins: "finite {p. bt_get kr p \<noteq> None}"
proof -
  have "{p. bt_get kr p \<noteq> None} = set (bt_keys kr)" by (simp add: set_eq_iff bt_keys_iff)
  then show ?thesis by (metis finite_set)
qed

lemma mset_pinned_push: "mset (pinned_keys (kr_push p e kr)) = add_mset (ke_key e) (mset (pinned_keys kr))"
proof -
  let ?f = "\<lambda>kr p. mset (map ke_key (kr_entries kr p))"
  let ?D = "{q. bt_get kr q \<noteq> None}"
  have d: "{q. bt_get (kr_push p e kr) q \<noteq> None} = insert p ?D" by (auto simp: kr_push_def)
  have "mset (pinned_keys (kr_push p e kr)) = ?f (kr_push p e kr) p + (\<Sum>q \<in> ?D - {p}. ?f (kr_push p e kr) q)"
    unfolding mset_pinned_keys d by (rule sum.insert_remove) (rule finite_pins)
  also have "(\<Sum>q \<in> ?D - {p}. ?f (kr_push p e kr) q) = (\<Sum>q \<in> ?D - {p}. ?f kr q)"
    by (rule sum.cong) (auto simp: kr_entries_push)
  also have "?f (kr_push p e kr) p = add_mset (ke_key e) (?f kr p)" by (simp add: kr_entries_push)
  also have "add_mset (ke_key e) (?f kr p) + (\<Sum>q \<in> ?D - {p}. ?f kr q) = add_mset (ke_key e) (\<Sum>q \<in> insert p ?D. ?f kr q)"
    using sum.insert_remove [OF finite_pins, of "?f kr" p kr] by simp
  also have "(\<Sum>q \<in> insert p ?D. ?f kr q) = (\<Sum>q \<in> ?D. ?f kr q)"
    by (rule sum.mono_neutral_cong_right) (auto simp: kr_entries_def intro: finite_pins [simplified])
  finally show ?thesis by (simp add: mset_pinned_keys)
qed

lemma mset_pinned_fold:
  "mset (pinned_keys (fold (\<lambda>(p, e). kr_push p e) xs m)) = mset (map (\<lambda>x. ke_key (snd x)) xs) + mset (pinned_keys m)"
  by (induction xs arbitrary: m) (auto simp: mset_pinned_push)

lemma fold_push_shelf:
  "bt_get (fold (\<lambda>(p, e). kr_push p e) xs m) q = Some es \<Longrightarrow>
   (\<And>es. bt_get m q = Some es \<Longrightarrow> es \<noteq> []) \<Longrightarrow> es \<noteq> []"
proof (induction xs arbitrary: m)
  case (Cons x xs)
  then show ?case by (cases x) (force simp: kr_push_def split: if_splits)
qed simp

lemma kr_load_ok:
  assumes "kr_load fl content = Inr kr"
  shows "kr_ok kr \<and> distinct (pinned_keys kr)"
proof -
  obtain xs where xs: "load_pairs 0 xs kr_new [] = Inr kr" "\<forall>x \<in> set xs. stamps_ok (snd x)"
    using load_lines_loaded assms unfolding kr_load_def by blast
  have e: "kr_entries kr_new q = []" for q by (simp add: kr_new_def kr_entries_def)
  have sa: "singly_active kr_new []" by (simp add: singly_active_def e)
  have l: "singly_active kr_new xs" "distinct (map (\<lambda>x. ke_key (snd x)) xs)"
      "kr = fold (\<lambda>(p, e). kr_push p e) xs kr_new"
    using xs(1) load_pairs_iff [OF sa] by blast+
  have "mset (pinned_keys kr) = mset (map (\<lambda>x. ke_key (snd x)) xs)"
    unfolding l(3) mset_pinned_fold by (simp add: kr_new_def pinned_keys_def bt_keys_def)
  then have "distinct (pinned_keys kr)" using l(2) mset_eq_imp_distinct_iff by blast
  moreover have "shelf_ok es" if "bt_get kr q = Some es" for q es
  proof -
    have "es \<noteq> []" using that unfolding l(3) by (rule fold_push_shelf) (simp add: kr_new_def)
    moreover have "es = entries_of q xs"
      using fold_push_entries [of xs kr_new q] that kr_entries_get [of kr q es] by (simp add: e l(3))
    ultimately show ?thesis
      using l(1) xs(2) by (auto simp: shelf_ok_def list_ok_def singly_active_def e list_all_iff entries_of_def)
  qed
  ultimately show ?thesis by (simp add: kr_ok_iff)
qed

end
