(* ===== verification/UtcTime.thy ===== *)
theory UtcTime
  imports KeyringFile
begin

text \<open>
  Canonical times. The sources compare texts of the form \<open>YYYY-MM-DDTHH:MM:SSZ\<close> as strings; on
  canonical texts that order is the order of the numbers they spell. The gateway's clock
  (\<open>famp-gateway/src/clock.rs\<close>) writes such texts.
\<close>

subsection \<open>The clock\<close>

fun pad_left :: "nat \<Rightarrow> string \<Rightarrow> string" where
  "pad_left w s = replicate (w - length s) (CHR ''0'') @ s"

text \<open>\<open>now_canonical_utc\<close> for the calendar fields of an instant.\<close>

definition format_utc :: "nat \<Rightarrow> nat \<Rightarrow> nat \<Rightarrow> nat \<Rightarrow> nat \<Rightarrow> nat \<Rightarrow> string" where
  "format_utc y mo d h mi s =
     pad_left 4 (show_nat y) @ ''-'' @ pad_left 2 (show_nat mo) @ ''-'' @ pad_left 2 (show_nat d) @
     ''T'' @ pad_left 2 (show_nat h) @ '':'' @ pad_left 2 (show_nat mi) @ '':'' @
     pad_left 2 (show_nat s) @ ''Z''"

definition tail_char :: "char \<Rightarrow> bool" where
  "tail_char c \<longleftrightarrow> c = CHR ''Z'' \<or> c = CHR ''+'' \<or> c = CHR ''-''"

definition strip_subseconds :: "string \<Rightarrow> string" where
  "strip_subseconds ts =
     (case split_at_char (CHR ''.'') ts of
        None \<Rightarrow> ts
      | Some (a, b) \<Rightarrow> a @ dropWhile (\<lambda>c. \<not> tail_char c) b)"

subsection \<open>Digits\<close>

definition digit_of :: "char \<Rightarrow> nat" where "digit_of c = of_char c - 48"

fun digits_val :: "string \<Rightarrow> nat" where
  "digits_val [] = 0"
| "digits_val (c # cs) = digit_of c * 10 ^ length cs + digits_val cs"

definition utc_fields :: "string \<Rightarrow> nat \<times> nat \<times> nat \<times> nat \<times> nat \<times> nat" where
  "utc_fields v =
     (digits_val (take 4 v), digits_val (take 2 (drop 5 v)), digits_val (take 2 (drop 8 v)),
      digits_val (take 2 (drop 11 v)), digits_val (take 2 (drop 14 v)), digits_val (take 2 (drop 17 v)))"

lemma digit_less: "is_ascii_digit c \<Longrightarrow> digit_of c < 10"
  by (auto simp: is_ascii_digit_def digit_of_def less_eq_char_def)

lemma digit_order:
  "is_ascii_digit c \<Longrightarrow> is_ascii_digit d \<Longrightarrow> (c < d \<longleftrightarrow> digit_of c < digit_of d) \<and> (c = d \<longleftrightarrow> digit_of c = digit_of d)"
proof -
  assume "is_ascii_digit c" "is_ascii_digit d"
  then have b: "48 \<le> (of_char c :: nat)" "48 \<le> (of_char d :: nat)"
    by (auto simp: is_ascii_digit_def less_eq_char_def)
  then show ?thesis by (auto simp: digit_of_def less_char_def eq_diff_iff)
qed

lemma digits_val_less: "list_all is_ascii_digit s \<Longrightarrow> digits_val s < 10 ^ length s"
proof (induction s)
  case (Cons c cs)
  then have "digit_of c * 10 ^ length cs + digits_val cs < digit_of c * 10 ^ length cs + 10 ^ length cs"
    by simp
  also have "\<dots> \<le> 10 * 10 ^ length cs"
    using Cons.prems digit_less [of c] mult_le_mono1 [of "Suc (digit_of c)" 10 "10 ^ length cs"] by simp
  finally show ?case by simp
qed simp

lemma lex_step:
  fixes a b m n p :: nat
  assumes "m < p" "n < p"
  shows "(a * p + m < b * p + n \<longleftrightarrow> a < b \<or> a = b \<and> m < n) \<and> (a * p + m = b * p + n \<longleftrightarrow> a = b \<and> m = n)"
proof -
  have s: "a * p + m < b * p + n" if "a < b" "m < p" for a b m n :: nat
  proof -
    have "a * p + p \<le> b * p" using mult_le_mono1 [of "Suc a" b p] that(1) by simp
    then show ?thesis using that(2) by simp
  qed
  from s [of a b m n] s [of b a n m] assms show ?thesis
    by (cases a b rule: linorder_cases) auto
qed

lemma digits_order:
  assumes "length s = length t" "list_all is_ascii_digit s" "list_all is_ascii_digit t"
  shows "(s < t \<longleftrightarrow> digits_val s < digits_val t) \<and> (s = t \<longleftrightarrow> digits_val s = digits_val t)"
  using assms
proof (induction s t rule: list_induct2)
  case (Cons c cs d ds)
  then have "digits_val cs < 10 ^ length ds" "digits_val ds < 10 ^ length ds"
    using digits_val_less [of cs] digits_val_less [of ds] by simp_all
  then show ?case
    using Cons lex_step [of "digits_val cs" "10 ^ length ds" "digits_val ds" "digit_of c" "digit_of d"]
      digit_order [of c d]
    by auto
qed simp

subsection \<open>The order of canonical times\<close>

lemma append_order:
  fixes s t :: string
  shows "length s = length t \<Longrightarrow> (s @ x < t @ y \<longleftrightarrow> s < t \<or> s = t \<and> x < y)"
  by (induction s t rule: list_induct2) auto

lemma drop_chunk: "n + k < length v \<Longrightarrow> drop n v = take k (drop n v) @ v ! (n + k) # drop (Suc (n + k)) v"
  using id_take_nth_drop [of k "drop n v"] by (simp add: add.commute)

lemma digit_chunk:
  assumes "list_all (\<lambda>i. is_ascii_digit (v ! i)) [n..<n + k]" "n + k \<le> length v"
  shows "list_all is_ascii_digit (take k (drop n v))"
  using assms by (auto simp: list_all_length list_all_iff)

lemma chunk_order:
  assumes "length v = length w" "n + k < length v" "v ! (n + k) = w ! (n + k)"
    and "list_all (\<lambda>i. is_ascii_digit (v ! i)) [n..<n + k]" "list_all (\<lambda>i. is_ascii_digit (w ! i)) [n..<n + k]"
  shows "drop n v < drop n w \<longleftrightarrow>
    digits_val (take k (drop n v)) < digits_val (take k (drop n w)) \<or>
    digits_val (take k (drop n v)) = digits_val (take k (drop n w)) \<and> drop (Suc (n + k)) v < drop (Suc (n + k)) w"
proof -
  obtain a x where a: "a = take k (drop n v)" "x = drop (Suc (n + k)) v" "drop n v = a @ v ! (n + k) # x"
    using drop_chunk [OF assms(2)] by blast
  obtain b y where b: "b = take k (drop n w)" "y = drop (Suc (n + k)) w" "drop n w = b @ w ! (n + k) # y"
    using drop_chunk [OF assms(2) [unfolded assms(1)]] by blast
  have l: "length a = length b" using a(1) b(1) assms(1) by simp
  have "list_all is_ascii_digit a" "list_all is_ascii_digit b"
    using digit_chunk assms a(1) b(1) by auto
  then have "drop n v < drop n w \<longleftrightarrow> digits_val a < digits_val b \<or> digits_val a = digits_val b \<and> x < y"
    unfolding a(3) b(3) using digits_order [OF l] assms(3) by (simp add: append_order [OF l])
  then show ?thesis using a(1,2) b(1,2) by simp
qed

lemma canonical_utc_order:
  assumes v: "is_canonical_utc v" and w: "is_canonical_utc w"
  shows "v < w \<longleftrightarrow> utc_fields v < utc_fields w"
proof -
  note c = canonical_utcD [OF v] and d = canonical_utcD [OF w]
  have l: "length v = length w" using c(8) d(8) by simp
  have cd: "list_all (\<lambda>i. is_ascii_digit (v ! i)) [n..<n + k]" "list_all (\<lambda>i. is_ascii_digit (w ! i)) [n..<n + k]"
    if "(n, k) \<in> {(0, 4), (5, 2), (8, 2), (11, 2), (14, 2), (17, 2)}" for n k
    using that c(1) d(1) by (auto simp: list_all_append simp del: upt.simps)
  have "drop 0 v < drop 0 w \<longleftrightarrow> utc_fields v < utc_fields w"
    using chunk_order [OF l, of 0 4] chunk_order [OF l, of 5 2] chunk_order [OF l, of 8 2]
      chunk_order [OF l, of 11 2] chunk_order [OF l, of 14 2] chunk_order [OF l, of 17 2]
      cd [of 0 4] cd [of 5 2] cd [of 8 2] cd [of 11 2] cd [of 14 2] cd [of 17 2] c(2-) d(2-)
    by (simp only: utc_fields_def) (auto simp: le_less)
  then show ?thesis by simp
qed

subsection \<open>What the clock writes\<close>

lemma digit_char_digit: "d < 10 \<Longrightarrow> is_ascii_digit (digit_char d) \<and> digit_of (digit_char d) = d"
  by (simp add: is_ascii_digit_def digit_of_def digit_char_def less_eq_char_def)

lemma digits_val_append: "digits_val (s @ t) = digits_val s * 10 ^ length t + digits_val t"
  by (induction s) (auto simp: power_add algebra_simps)

lemma show_nat_digits: "list_all is_ascii_digit (show_nat n) \<and> digits_val (show_nat n) = n"
proof (induction n rule: show_nat.induct)
  case (1 n)
  then show ?case
    by (cases "n < 10") (auto simp: show_nat.simps [of n] digit_char_digit digits_val_append)
qed

lemma show_nat_length: "n < 10 ^ w \<Longrightarrow> 0 < w \<Longrightarrow> length (show_nat n) \<le> w"
proof (induction n arbitrary: w rule: show_nat.induct)
  case (1 n)
  show ?case
  proof (cases "n < 10")
    case False
    obtain v where w: "w = Suc v" using "1.prems" by (cases w) auto
    then have v: "w = Suc v" "0 < v" using False "1.prems"(1) by (cases v; simp)+
    then have "n div 10 < 10 ^ v" using "1.prems" by auto
    then show ?thesis using 1(1) [OF False, of v] False v by (simp add: show_nat.simps [of n])
  qed (use "1.prems" in \<open>simp add: show_nat.simps [of n]\<close>)
qed

lemma pad_left_digits:
  assumes "n < 10 ^ w" "0 < w"
  shows "length (pad_left w (show_nat n)) = w" "list_all is_ascii_digit (pad_left w (show_nat n))"
    "digits_val (pad_left w (show_nat n)) = n"
proof -
  have z: "digits_val (replicate k (CHR ''0'')) = 0" for k by (induction k) (simp_all add: digit_of_def)
  show "length (pad_left w (show_nat n)) = w" using show_nat_length [OF assms] by simp
  show "list_all is_ascii_digit (pad_left w (show_nat n))"
    using show_nat_digits [of n] by (auto simp: list_all_iff is_ascii_digit_def less_eq_char_def)
  show "digits_val (pad_left w (show_nat n)) = n"
    using show_nat_digits [of n] by (simp add: digits_val_append z)
qed

lemma four: "length s = 4 \<Longrightarrow> \<exists>a b c d. s = [a, b, c, d]" and two: "length s = 2 \<Longrightarrow> \<exists>a b. s = [a, b]"
  by (auto simp: numeral_eq_Suc length_Suc_conv)

lemma format_utc_canonical:
  assumes "y < 10000" "mo < 100" "d < 100" "h < 100" "mi < 100" "s < 100"
  shows "is_canonical_utc (format_utc y mo d h mi s)" "utc_fields (format_utc y mo d h mi s) = (y, mo, d, h, mi, s)"
proof -
  have p2: "length (pad_left 2 (show_nat n)) = 2" "list_all is_ascii_digit (pad_left 2 (show_nat n))"
    "digits_val (pad_left 2 (show_nat n)) = n" if "n < 100" for n
    using pad_left_digits [of n 2] that by simp_all
  have p4: "length (pad_left 4 (show_nat y)) = 4" "list_all is_ascii_digit (pad_left 4 (show_nat y))"
    "digits_val (pad_left 4 (show_nat y)) = y"
    using pad_left_digits [of y 4] assms(1) by simp_all
  obtain a1 a2 a3 a4 where a: "pad_left 4 (show_nat y) = [a1, a2, a3, a4]" using four [OF p4(1)] by blast
  obtain b1 b2 where b: "pad_left 2 (show_nat mo) = [b1, b2]" using two [OF p2(1) [OF assms(2)]] by blast
  obtain c1 c2 where c: "pad_left 2 (show_nat d) = [c1, c2]" using two [OF p2(1) [OF assms(3)]] by blast
  obtain d1 d2 where d: "pad_left 2 (show_nat h) = [d1, d2]" using two [OF p2(1) [OF assms(4)]] by blast
  obtain e1 e2 where e: "pad_left 2 (show_nat mi) = [e1, e2]" using two [OF p2(1) [OF assms(5)]] by blast
  obtain g1 g2 where g: "pad_left 2 (show_nat s) = [g1, g2]" using two [OF p2(1) [OF assms(6)]] by blast
  note f = a b c d e g
  note v = p4(2,3) p2(2,3) [OF assms(2)] p2(2,3) [OF assms(3)] p2(2,3) [OF assms(4)]
    p2(2,3) [OF assms(5)] p2(2,3) [OF assms(6)]
  show "is_canonical_utc (format_utc y mo d h mi s)" "utc_fields (format_utc y mo d h mi s) = (y, mo, d, h, mi, s)"
    using v unfolding f format_utc_def is_canonical_utc_def utc_fields_def
    by (simp_all add: upt_rec)
qed

end
