(* ===== verification/Signed.thy ===== *)
theory Signed
  imports Envelope
begin

text \<open>
  Signed envelopes (\<open>famp-envelope\<close>: \<open>envelope.rs\<close>, \<open>dispatch.rs\<close>, \<open>view.rs\<close>, \<open>peek.rs\<close>): building,
  signing, writing and decoding an envelope, the dispatch on its class, and the unverified views of
  a received text. An \<open>UnsignedEnvelope\<close> has the fields of the wire envelope and is modelled by it.
\<close>

record 'b signed_envelope =
  inner :: "'b wire_envelope"
  se_signature :: signature

definition SIGNATURE_FIELD :: string where "SIGNATURE_FIELD = ''signature''"

subsection \<open>Building\<close>

definition unsigned_new ::
  "'b body_schema \<Rightarrow> uuid \<Rightarrow> principal \<Rightarrow> principal \<Rightarrow> authority_scope \<Rightarrow> string \<Rightarrow> 'b \<Rightarrow> 'b wire_envelope" where
  "unsigned_new B i from to au ts body =
     \<lparr>w_famp = FAMP_SPEC_VERSION, w_id = i, w_from = from, w_to = to, w_scope = SCOPE B,
      w_class = CLASS B, w_causality = None, w_authority = au, w_ts = ts, w_terminal_status = None,
      w_idempotency_key = None, w_extensions = None, w_from_domain = None, w_to_domain = None,
      w_sender_key_id = None, w_nonce = None, w_expiry = None, w_capability = None,
      w_approval = None, w_body = body\<rparr>"

definition with_causality :: "causality \<Rightarrow> 'b wire_envelope \<Rightarrow> 'b wire_envelope" where
  "with_causality c e = e\<lparr>w_causality := Some c\<rparr>"

definition with_terminal_status :: "terminal_status \<Rightarrow> 'b wire_envelope \<Rightarrow> 'b wire_envelope" where
  "with_terminal_status t e = e\<lparr>w_terminal_status := Some t\<rparr>"

definition with_idempotency_key :: "string \<Rightarrow> 'b wire_envelope \<Rightarrow> 'b wire_envelope" where
  "with_idempotency_key k e = e\<lparr>w_idempotency_key := Some k\<rparr>"

definition with_from_domain :: "string \<Rightarrow> 'b wire_envelope \<Rightarrow> 'b wire_envelope" where
  "with_from_domain d e = e\<lparr>w_from_domain := Some d\<rparr>"

definition with_to_domain :: "string \<Rightarrow> 'b wire_envelope \<Rightarrow> 'b wire_envelope" where
  "with_to_domain d e = e\<lparr>w_to_domain := Some d\<rparr>"

definition with_sender_key_id :: "string \<Rightarrow> 'b wire_envelope \<Rightarrow> 'b wire_envelope" where
  "with_sender_key_id k e = e\<lparr>w_sender_key_id := Some k\<rparr>"

definition with_nonce :: "string \<Rightarrow> 'b wire_envelope \<Rightarrow> 'b wire_envelope" where
  "with_nonce n e = e\<lparr>w_nonce := Some n\<rparr>"

definition with_expiry :: "string \<Rightarrow> 'b wire_envelope \<Rightarrow> 'b wire_envelope" where
  "with_expiry t e = e\<lparr>w_expiry := Some t\<rparr>"

subsection \<open>Signing, writing and decoding\<close>

definition sign_envelope ::
  "fed_lib \<Rightarrow> ext_lib \<Rightarrow> 'b body_schema \<Rightarrow> signing_key \<Rightarrow> 'b wire_envelope \<Rightarrow>
   envelope_decode_error + 'b signed_envelope" where
  "sign_envelope fl lib B sk u =
     res_bind (map_err InvalidSignatureEncoding (sign_value fl lib sk (ser_wire lib (ser_body B) u))) (\<lambda>s.
     Inr \<lparr>inner = u, se_signature = s\<rparr>)"

definition signed_encode ::
  "fed_lib \<Rightarrow> ext_lib \<Rightarrow> 'b body_schema \<Rightarrow> 'b signed_envelope \<Rightarrow> envelope_decode_error + bytes" where
  "signed_encode fl lib B s =
     (case as_object (ser_wire lib (ser_body B) (inner s)) of
        None \<Rightarrow> Inl (BodyValidation RootNotObject)
      | Some es \<Rightarrow>
          map_err (\<lambda>m. BodyValidation (SerdeFailure (InvalidValue m)))
            (json_to_vec fl
              (JObj (ins_entry SIGNATURE_FIELD (JStr (sig_to_b64url fl (se_signature s))) es))))"

text \<open>
  The errors of the typed deserialization: serde's text for an unknown field, wherever it was found,
  starts with \<open>unknown field\<close> and the name between backquotes.
\<close>

fun map_serde_error :: "serde_err \<Rightarrow> envelope_decode_error" where
  "map_serde_error (UnknownField k) = UnknownEnvelopeField (takeWhile (\<lambda>c. c \<noteq> CHR 0x60) k)"
| "map_serde_error e = BodyValidation (SerdeFailure e)"

definition obj_remove :: "string \<Rightarrow> (string \<times> json) list \<Rightarrow> (string \<times> json) list" where
  "obj_remove k es = filter (\<lambda>(j, v). j \<noteq> k) es"

definition signed_decode_value ::
  "fed_lib \<Rightarrow> ext_lib \<Rightarrow> 'b body_schema \<Rightarrow> json \<Rightarrow> verifying_key \<Rightarrow>
   envelope_decode_error + 'b signed_envelope" where
  "signed_decode_value fl lib B v vk =
     (case as_object v of
        None \<Rightarrow> Inl (BodyValidation RootNotObject)
      | Some obj \<Rightarrow>
     (case map_of obj SIGNATURE_FIELD of
        None \<Rightarrow> Inl MissingSignature
      | Some sig_val \<Rightarrow>
     (case as_str sig_val of
        None \<Rightarrow> Inl MissingSignature
      | Some sig_str \<Rightarrow>
     (case sig_from_b64url fl sig_str of
        Inl e \<Rightarrow> Inl (InvalidSignatureEncoding e)
      | Inr sig \<Rightarrow>
     (let root = obj_remove SIGNATURE_FIELD obj in
     (case verify_value fl lib vk (JObj root) sig of
        Inl _ \<Rightarrow> Inl SignatureInvalid
      | Inr _ \<Rightarrow>
     (case check_famp root of
        Some e \<Rightarrow> Inl e
      | None \<Rightarrow>
     (case de_wire lib (de_body B) (JObj root) of
        Inl e \<Rightarrow> Inl (map_serde_error e)
      | Inr w \<Rightarrow>
          if w_class w \<noteq> CLASS B then Inl (ClassMismatch (CLASS B) (w_class w))
          else if w_scope w \<noteq> SCOPE B then Inl (ScopeMismatch (CLASS B) (SCOPE B) (w_scope w))
          else res_bind (post_decode_validate B (w_body w) (w_terminal_status w)) (\<lambda>_.
            Inr \<lparr>inner = w, se_signature = sig\<rparr>)))))))))"

definition signed_decode ::
  "fed_lib \<Rightarrow> ext_lib \<Rightarrow> 'b body_schema \<Rightarrow> bytes \<Rightarrow> verifying_key \<Rightarrow>
   envelope_decode_error + 'b signed_envelope" where
  "signed_decode fl lib B b vk =
     res_bind (map_err MalformedJson (parse_value lib b)) (\<lambda>v. signed_decode_value fl lib B v vk)"

definition federation_format_ok :: "'b signed_envelope \<Rightarrow> bool" where
  "federation_format_ok s =
     (if w_nonce (inner s) = Some [] then False
      else (case w_expiry (inner s) of
          None \<Rightarrow> True
        | Some expiry \<Rightarrow>
            if \<not> shallow_validate expiry then False
            else if \<not> is_canonical_utc_form expiry \<or> \<not> is_canonical_utc_form (w_ts (inner s)) then False
            else if expiry \<le> w_ts (inner s) then False
            else True))"

subsection \<open>Any class\<close>

datatype any_signed_envelope =
    SignedRequest "request_body signed_envelope"
  | SignedCommit "commit_body signed_envelope"
  | SignedDeliver "deliver_body signed_envelope"
  | SignedAck "ack_body signed_envelope"
  | SignedControl "control_body signed_envelope"
  | SignedAuditLog "audit_log_body signed_envelope"

fun signed_class :: "any_signed_envelope \<Rightarrow> message_class" where
  "signed_class (SignedRequest e) = w_class (inner e)"
| "signed_class (SignedCommit e) = w_class (inner e)"
| "signed_class (SignedDeliver e) = w_class (inner e)"
| "signed_class (SignedAck e) = w_class (inner e)"
| "signed_class (SignedControl e) = w_class (inner e)"
| "signed_class (SignedAuditLog e) = w_class (inner e)"

definition any_signed_decode ::
  "fed_lib \<Rightarrow> ext_lib \<Rightarrow> bytes \<Rightarrow> verifying_key \<Rightarrow> envelope_decode_error + any_signed_envelope" where
  "any_signed_decode fl lib b vk =
     (case parse_value lib b of
        Inl e \<Rightarrow> Inl (MalformedJson e)
      | Inr v \<Rightarrow>
          (case jget_str v ''class'' of
             None \<Rightarrow> Inl (EnvMissingField ''class'')
           | Some c \<Rightarrow>
               if c = ''request''
               then map_sum id SignedRequest (signed_decode_value fl lib request_schema v vk)
               else if c = ''commit''
               then map_sum id SignedCommit (signed_decode_value fl lib commit_schema v vk)
               else if c = ''deliver''
               then map_sum id SignedDeliver (signed_decode_value fl lib deliver_schema v vk)
               else if c = ''ack''
               then map_sum id SignedAck (signed_decode_value fl lib ack_schema v vk)
               else if c = ''control''
               then map_sum id SignedControl (signed_decode_value fl lib control_schema v vk)
               else if c = ''audit_log''
               then map_sum id SignedAuditLog (signed_decode_value fl lib audit_log_schema v vk)
               else Inl (UnknownClass c)))"

subsection \<open>Unverified views\<close>

definition view_from_str :: "json \<Rightarrow> string option" where "view_from_str v = jget_str v ''from''"
definition view_to_str :: "json \<Rightarrow> string option" where "view_to_str v = jget_str v ''to''"

definition view_from :: "json \<Rightarrow> principal option" where
  "view_from v = Option.bind (view_from_str v) (\<lambda>s. ok_opt (principal_from_str s))"

definition view_to :: "json \<Rightarrow> principal option" where
  "view_to v = Option.bind (view_to_str v) (\<lambda>s. ok_opt (principal_from_str s))"

definition view_class :: "json \<Rightarrow> string option" where "view_class v = jget_str v ''class''"
definition view_body :: "json \<Rightarrow> json option" where "view_body v = jget v ''body''"

definition NEW_TASK_EVENT :: string where "NEW_TASK_EVENT = ''famp.send.new_task''"

definition view_task_id :: "json \<Rightarrow> string option" where
  "view_task_id v =
     (case Option.bind (jget v ''causality'') (\<lambda>c. jget_str c ''ref'') of
        Some t \<Rightarrow> Some t
      | None \<Rightarrow>
     (case Option.bind (Option.bind (jget v ''body'') (\<lambda>b. jget b ''details'')) (\<lambda>d. jget_str d ''task'') of
        Some t \<Rightarrow> Some t
      | None \<Rightarrow>
          if Option.bind (jget v ''body'') (\<lambda>b. jget_str b ''event'') = Some NEW_TASK_EVENT
          then jget_str v ''id''
          else if view_class v = Some ''request'' then jget_str v ''id''
          else None))"

definition view_parse :: "ext_lib \<Rightarrow> bytes \<Rightarrow> envelope_decode_error + json" where
  "view_parse lib b = map_err MalformedJson (parse_value lib b)"

definition peek_sender :: "ext_lib \<Rightarrow> bytes \<Rightarrow> envelope_decode_error + principal" where
  "peek_sender lib b =
     res_bind (view_parse lib b) (\<lambda>v. ok_or (EnvMissingField ''from'') (view_from v))"

subsection \<open>Protocol error kinds\<close>

datatype protocol_error_kind =
    PkMalformed | PkUnsupported | PkUnauthorized | PkStale | PkDuplicate | PkOrphaned | PkOutOfScope
  | PkCapacityExceeded | PkPolicyBlocked | PkCommitmentMissing | PkDelegationForbidden
  | PkProvenanceIncomplete | PkConflict | PkConditionFailed | PkExpired

fun protocol_kind :: "envelope_decode_error \<Rightarrow> protocol_error_kind" where
  "protocol_kind MissingSignature = PkUnauthorized"
| "protocol_kind (InvalidSignatureEncoding e) = PkUnauthorized"
| "protocol_kind SignatureInvalid = PkUnauthorized"
| "protocol_kind (UnsupportedVersion v) = PkUnsupported"
| "protocol_kind e = PkMalformed"

subsection \<open>What a decoded signed envelope satisfies\<close>

lemma signed_decode_value_InrE:
  assumes "signed_decode_value fl lib B v vk = Inr s"
  obtains obj sig_str where "v = JObj obj" "map_of obj SIGNATURE_FIELD = Some (JStr sig_str)"
    "sig_from_b64url fl sig_str = Inr (se_signature s)"
    "verify_value fl lib vk (JObj (obj_remove SIGNATURE_FIELD obj)) (se_signature s) = Inr ()"
    "map_of (obj_remove SIGNATURE_FIELD obj) ''famp'' = Some (JStr FAMP_SPEC_VERSION)"
    "de_wire lib (de_body B) (JObj (obj_remove SIGNATURE_FIELD obj)) = Inr (inner s)"
    "w_class (inner s) = CLASS B" "w_scope (inner s) = SCOPE B"
    "post_decode_validate B (w_body (inner s)) (w_terminal_status (inner s)) = Inr ()"
proof -
  from assms show thesis
    by (auto simp: signed_decode_value_def Let_def check_famp_None_iff res_bind_Inr_iff
        split: option.splits sum.splits if_splits intro!: that)
qed

lemma map_of_obj_remove: "map_of (obj_remove k es) j = (if j = k then None else map_of es j)"
  by (induction es) (auto simp: obj_remove_def)

lemma obj_remove_ins_entry:
  "k \<notin> set (map fst es) \<Longrightarrow> obj_remove k (ins_entry k v es) = es"
proof (induction k v es rule: ins_entry.induct)
  case (2 k v j w es)
  then have "filter (\<lambda>(j, v). j \<noteq> k) es = es" by (intro filter_True) force
  with 2 show ?case by (auto simp: obj_remove_def)
qed (simp add: obj_remove_def)

text \<open>The same for the dispatch on the class.\<close>

fun any_from :: "any_signed_envelope \<Rightarrow> principal" where
  "any_from (SignedRequest e) = w_from (inner e)"
| "any_from (SignedCommit e) = w_from (inner e)"
| "any_from (SignedDeliver e) = w_from (inner e)"
| "any_from (SignedAck e) = w_from (inner e)"
| "any_from (SignedControl e) = w_from (inner e)"
| "any_from (SignedAuditLog e) = w_from (inner e)"

fun any_to :: "any_signed_envelope \<Rightarrow> principal" where
  "any_to (SignedRequest e) = w_to (inner e)"
| "any_to (SignedCommit e) = w_to (inner e)"
| "any_to (SignedDeliver e) = w_to (inner e)"
| "any_to (SignedAck e) = w_to (inner e)"
| "any_to (SignedControl e) = w_to (inner e)"
| "any_to (SignedAuditLog e) = w_to (inner e)"

fun any_signature :: "any_signed_envelope \<Rightarrow> signature" where
  "any_signature (SignedRequest e) = se_signature e"
| "any_signature (SignedCommit e) = se_signature e"
| "any_signature (SignedDeliver e) = se_signature e"
| "any_signature (SignedAck e) = se_signature e"
| "any_signature (SignedControl e) = se_signature e"
| "any_signature (SignedAuditLog e) = se_signature e"

definition signed_ok :: "fed_lib \<Rightarrow> ext_lib \<Rightarrow> json \<Rightarrow> verifying_key \<Rightarrow> message_class \<Rightarrow> principal \<Rightarrow> principal \<Rightarrow> signature \<Rightarrow> bool" where
  "signed_ok fl lib v vk c from to sig \<longleftrightarrow>
     (\<exists>obj sig_str. v = JObj obj \<and> map_of obj ''signature'' = Some (JStr sig_str) \<and>
        sig_from_b64url fl sig_str = Inr sig \<and>
        verify_value fl lib vk (JObj (obj_remove ''signature'' obj)) sig = Inr () \<and>
        map_of obj ''famp'' = Some (JStr FAMP_SPEC_VERSION) \<and>
        map_of obj ''class'' = Some (JStr (class_str c)) \<and>
        map_of obj ''from'' = Some (JStr (principal_display from)) \<and> wf_principal from \<and>
        map_of obj ''to'' = Some (JStr (principal_display to)) \<and> wf_principal to \<and>
        set (map fst obj) \<subseteq> insert ''signature'' (set (map fst (wire_fields lib de_value))))"

lemma signed_okI:
  assumes d: "signed_decode_value fl lib B v vk = Inr s" and c: "jget_str v ''class'' = Some (class_str (CLASS B))"
  shows "signed_ok fl lib v vk (w_class (inner s)) (w_from (inner s)) (w_to (inner s)) (se_signature s)"
  using d
proof (cases rule: signed_decode_value_InrE)
  case (1 obj sig_str)
  note w = de_wire_Inr [OF 1(6)]
  have keys: "k \<in> fst ` set (wire_fields lib de_value)" if "(k, x) \<in> set obj" "k \<noteq> ''signature''" for k x
  proof -
    have "(k, x) \<in> set (obj_remove SIGNATURE_FIELD obj)"
      using that by (simp add: obj_remove_def SIGNATURE_FIELD_def)
    then show ?thesis using w(1) [unfolded wire_fields_names [of lib "de_body B"]] by force
  qed
  from c 1 w(2-) show ?thesis
    unfolding signed_ok_def
    by (auto simp: jget_str_def SIGNATURE_FIELD_def map_of_obj_remove req_Inr_iff de_principal_Inr_iff
        split: bind_splits dest: keys)
qed

lemma any_signed_decode_ok:
  assumes "any_signed_decode fl lib b vk = Inr e"
  obtains v where "parse_value lib b = Inr v"
    "signed_ok fl lib v vk (signed_class e) (any_from e) (any_to e) (any_signature e)"
proof -
  obtain v where v: "parse_value lib b = Inr v"
    using assms unfolding any_signed_decode_def by (cases "parse_value lib b") auto
  obtain c where c: "jget_str v ''class'' = Some c"
    using assms v unfolding any_signed_decode_def by (cases "jget_str v ''class''") auto
  from assms v c have "signed_ok fl lib v vk (signed_class e) (any_from e) (any_to e) (any_signature e)"
    by (auto simp: any_signed_decode_def map_sum_Inr_iff body_schema_defs
        split: if_splits dest!: signed_okI)
  with v show thesis by (rule that)
qed

subsection \<open>Round trip\<close>

text \<open>
  A body whose deserializer undoes its serializer. An envelope around such a body, signed and
  written, decodes to itself; the six bodies are instances.
\<close>

definition writer_faithful :: "fed_lib \<Rightarrow> ext_lib \<Rightarrow> bool" where
  "writer_faithful fl lib \<longleftrightarrow> (\<forall>v b. json_to_vec fl v = Inr b \<longrightarrow> lex lib b = json_events v)"

definition sendable :: "ext_lib \<Rightarrow> 'b body_schema \<Rightarrow> ('b \<Rightarrow> bool) \<Rightarrow> 'b wire_envelope \<Rightarrow> bool" where
  "sendable lib B ok u \<longleftrightarrow>
     wire_ok lib u \<and> ok (w_body u) \<and> json_wf (ser_wire lib (ser_body B) u) \<and>
     w_famp u = FAMP_SPEC_VERSION \<and> w_class u = CLASS B \<and> w_scope u = SCOPE B \<and>
     post_decode_validate B (w_body u) (w_terminal_status u) = Inr ()"

lemma ser_wire_fields:
  obtains es where "ser_wire lib sb u = JObj es" "map_of es ''signature'' = None"
    "map_of es ''famp'' = Some (JStr (w_famp u))" "map_of es ''class'' = Some (ser_enum class_wire (w_class u))"
  by (rule that [OF ser_wire_def [unfolded ser_struct_def]]) (simp_all add: map_of_ser_fields)

lemma ser_class: "ser_enum class_wire c = JStr (class_str c)"
  by (cases c) (simp_all add: ser_enum_def class_wire_def)

locale body_codec =
  fixes B :: "'b body_schema" and ok :: "'b \<Rightarrow> bool"
  assumes body_survives: "ok b \<Longrightarrow> survives (de_body B) (ser_body B) b"
begin

lemma decode_signed_value:
  assumes "honest_signer fl sk" "sendable lib B ok (inner s)" "sign_envelope fl lib B sk (inner s) = Inr s"
    and "ser_wire lib (ser_body B) (inner s) = JObj es"
  shows "signed_decode_value fl lib B
      (JObj (ins_entry SIGNATURE_FIELD (JStr (sig_to_b64url fl (se_signature s))) es))
      (sk_verifying_key fl sk) = Inr s"
proof -
  have sg: "sign_value fl lib sk (JObj es) = Inr (se_signature s)"
    using assms(3,4) by (cases s) (auto simp: sign_envelope_def res_bind_Inr_iff)
  have f: "map_of es ''signature'' = None" "map_of es ''famp'' = Some (JStr FAMP_SPEC_VERSION)"
    using assms(2,4) ser_wire_fields [of lib "ser_body B" "inner s"] by (auto simp: sendable_def)
  have r: "obj_remove SIGNATURE_FIELD (ins_entry SIGNATURE_FIELD x es) = es" for x
    using f(1) by (intro obj_remove_ins_entry) (simp add: SIGNATURE_FIELD_def map_of_eq_None_iff)
  have w: "de_wire lib (de_body B) (JObj es) = Inr (inner s)"
    using survives_wire [of lib "inner s" "de_body B" "ser_body B"] body_survives assms(2,4)
    by (simp add: survives_def sendable_def)
  have v: "verify_value fl lib (sk_verifying_key fl sk) (JObj es) (se_signature s) = Inr ()"
      "sig_from_b64url fl (sig_to_b64url fl (se_signature s)) = Inr (se_signature s)"
    using signed_value_verifies [OF assms(1) sg] by blast+
  show ?thesis
    using assms(2) f w v r
    by (simp add: signed_decode_value_def map_of_ins_entry check_famp_None_iff [THEN iffD2] sendable_def)
qed

lemma parse_encoded:
  assumes "writer_faithful fl lib" "sendable lib B ok (inner s)" "signed_encode fl lib B s = Inr b"
  obtains es where "ser_wire lib (ser_body B) (inner s) = JObj es"
    "parse_value lib b = Inr (JObj (ins_entry SIGNATURE_FIELD (JStr (sig_to_b64url fl (se_signature s))) es))"
    "jget_str (JObj (ins_entry SIGNATURE_FIELD (JStr (sig_to_b64url fl (se_signature s))) es)) ''class'' =
       Some (class_str (CLASS B))"
proof -
  obtain es where es: "ser_wire lib (ser_body B) (inner s) = JObj es"
      "map_of es ''class'' = Some (ser_enum class_wire (w_class (inner s)))"
    using ser_wire_fields [of lib "ser_body B" "inner s"] by blast
  let ?v = "JObj (ins_entry SIGNATURE_FIELD (JStr (sig_to_b64url fl (se_signature s))) es)"
  have wf: "json_wf ?v"
    using assms(2) es(1) fold_ins_entry_props [of es json_wf "[(SIGNATURE_FIELD, JStr (sig_to_b64url fl (se_signature s)))]"]
    by (simp add: sendable_def)
  have "json_to_vec fl ?v = Inr b" using assms(3) es(1) by (simp add: signed_encode_def)
  then have "lex lib b = json_events ?v" using assms(1) by (simp add: writer_faithful_def)
  then have "parse_value lib b = Inr ?v"
    using strict_tree_events [of ?v ?v] json_wf_dup_free [OF wf] json_norm_wf [OF wf]
    by (simp add: from_slice_strict_def)
  moreover have "jget_str ?v ''class'' = Some (class_str (CLASS B))"
    using es(2) assms(2)
    by (simp add: jget_str_def map_of_ins_entry SIGNATURE_FIELD_def ser_class sendable_def)
  ultimately show thesis using es(1) by (intro that)
qed

lemma decode_encoded:
  assumes "honest_signer fl sk" "writer_faithful fl lib" "sendable lib B ok (inner s)"
    and "sign_envelope fl lib B sk (inner s) = Inr s" "signed_encode fl lib B s = Inr b"
  obtains v where "parse_value lib b = Inr v" "jget_str v ''class'' = Some (class_str (CLASS B))"
    "signed_decode_value fl lib B v (sk_verifying_key fl sk) = Inr s"
  using assms(2,3,5)
  by (rule parse_encoded) (rule that, assumption+, rule decode_signed_value [OF assms(1,3,4)])

end

interpretation request_codec: body_codec request_schema request_ok
  by unfold_locales (simp add: request_schema_def survives_request)

interpretation commit_codec: body_codec commit_schema commit_ok
  by unfold_locales (simp add: commit_schema_def survives_commit)

interpretation deliver_codec: body_codec deliver_schema deliver_ok
  by unfold_locales (simp add: deliver_schema_def survives_deliver)

interpretation ack_codec: body_codec ack_schema "\<lambda>_. True"
  by unfold_locales (simp add: ack_schema_def survives_ack)

interpretation control_codec: body_codec control_schema "\<lambda>_. True"
  by unfold_locales (simp add: control_schema_def survives_control)

interpretation audit_log_codec: body_codec audit_log_schema audit_log_ok
  by unfold_locales (simp add: audit_log_schema_def survives_audit_log)

text \<open>Writing, signing and being fit for the wire, for the dispatching type.\<close>

fun any_encode :: "fed_lib \<Rightarrow> ext_lib \<Rightarrow> any_signed_envelope \<Rightarrow> envelope_decode_error + bytes" where
  "any_encode fl lib (SignedRequest e) = signed_encode fl lib request_schema e"
| "any_encode fl lib (SignedCommit e) = signed_encode fl lib commit_schema e"
| "any_encode fl lib (SignedDeliver e) = signed_encode fl lib deliver_schema e"
| "any_encode fl lib (SignedAck e) = signed_encode fl lib ack_schema e"
| "any_encode fl lib (SignedControl e) = signed_encode fl lib control_schema e"
| "any_encode fl lib (SignedAuditLog e) = signed_encode fl lib audit_log_schema e"

fun any_signed_by :: "fed_lib \<Rightarrow> ext_lib \<Rightarrow> signing_key \<Rightarrow> any_signed_envelope \<Rightarrow> bool" where
  "any_signed_by fl lib sk (SignedRequest e) =
     (sign_envelope fl lib request_schema sk (inner e) = Inr e)"
| "any_signed_by fl lib sk (SignedCommit e) =
     (sign_envelope fl lib commit_schema sk (inner e) = Inr e)"
| "any_signed_by fl lib sk (SignedDeliver e) =
     (sign_envelope fl lib deliver_schema sk (inner e) = Inr e)"
| "any_signed_by fl lib sk (SignedAck e) =
     (sign_envelope fl lib ack_schema sk (inner e) = Inr e)"
| "any_signed_by fl lib sk (SignedControl e) =
     (sign_envelope fl lib control_schema sk (inner e) = Inr e)"
| "any_signed_by fl lib sk (SignedAuditLog e) =
     (sign_envelope fl lib audit_log_schema sk (inner e) = Inr e)"

fun any_sendable :: "ext_lib \<Rightarrow> any_signed_envelope \<Rightarrow> bool" where
  "any_sendable lib (SignedRequest e) = sendable lib request_schema request_ok (inner e)"
| "any_sendable lib (SignedCommit e) = sendable lib commit_schema commit_ok (inner e)"
| "any_sendable lib (SignedDeliver e) = sendable lib deliver_schema deliver_ok (inner e)"
| "any_sendable lib (SignedAck e) = sendable lib ack_schema (\<lambda>_. True) (inner e)"
| "any_sendable lib (SignedControl e) = sendable lib control_schema (\<lambda>_. True) (inner e)"
| "any_sendable lib (SignedAuditLog e) = sendable lib audit_log_schema audit_log_ok (inner e)"

lemmas body_class_simps =
  request_schema_def [THEN arg_cong [of _ _ CLASS], simplified]
  commit_schema_def [THEN arg_cong [of _ _ CLASS], simplified]
  deliver_schema_def [THEN arg_cong [of _ _ CLASS], simplified]
  ack_schema_def [THEN arg_cong [of _ _ CLASS], simplified]
  control_schema_def [THEN arg_cong [of _ _ CLASS], simplified]
  audit_log_schema_def [THEN arg_cong [of _ _ CLASS], simplified]

lemma any_signed_round_trip:
  assumes "honest_signer fl sk" "writer_faithful fl lib"
    and "any_signed_by fl lib sk e" "any_sendable lib e" "any_encode fl lib e = Inr b"
  shows "any_signed_decode fl lib b (sk_verifying_key fl sk) = Inr e"
proof (cases e)
  case (SignedRequest s)
  obtain v where "parse_value lib b = Inr v" "jget_str v ''class'' = Some (class_str (CLASS request_schema))"
      "signed_decode_value fl lib request_schema v (sk_verifying_key fl sk) = Inr s"
    by (rule request_codec.decode_encoded [of fl sk lib s b]) (use assms SignedRequest in simp_all)
  then show ?thesis by (simp add: any_signed_decode_def body_class_simps SignedRequest)
next
  case (SignedCommit s)
  obtain v where "parse_value lib b = Inr v" "jget_str v ''class'' = Some (class_str (CLASS commit_schema))"
      "signed_decode_value fl lib commit_schema v (sk_verifying_key fl sk) = Inr s"
    by (rule commit_codec.decode_encoded [of fl sk lib s b]) (use assms SignedCommit in simp_all)
  then show ?thesis by (simp add: any_signed_decode_def body_class_simps SignedCommit)
next
  case (SignedDeliver s)
  obtain v where "parse_value lib b = Inr v" "jget_str v ''class'' = Some (class_str (CLASS deliver_schema))"
      "signed_decode_value fl lib deliver_schema v (sk_verifying_key fl sk) = Inr s"
    by (rule deliver_codec.decode_encoded [of fl sk lib s b]) (use assms SignedDeliver in simp_all)
  then show ?thesis by (simp add: any_signed_decode_def body_class_simps SignedDeliver)
next
  case (SignedAck s)
  obtain v where "parse_value lib b = Inr v" "jget_str v ''class'' = Some (class_str (CLASS ack_schema))"
      "signed_decode_value fl lib ack_schema v (sk_verifying_key fl sk) = Inr s"
    by (rule ack_codec.decode_encoded [of fl sk lib s b]) (use assms SignedAck in simp_all)
  then show ?thesis by (simp add: any_signed_decode_def body_class_simps SignedAck)
next
  case (SignedControl s)
  obtain v where "parse_value lib b = Inr v" "jget_str v ''class'' = Some (class_str (CLASS control_schema))"
      "signed_decode_value fl lib control_schema v (sk_verifying_key fl sk) = Inr s"
    by (rule control_codec.decode_encoded [of fl sk lib s b]) (use assms SignedControl in simp_all)
  then show ?thesis by (simp add: any_signed_decode_def body_class_simps SignedControl)
next
  case (SignedAuditLog s)
  obtain v where "parse_value lib b = Inr v" "jget_str v ''class'' = Some (class_str (CLASS audit_log_schema))"
      "signed_decode_value fl lib audit_log_schema v (sk_verifying_key fl sk) = Inr s"
    by (rule audit_log_codec.decode_encoded [of fl sk lib s b]) (use assms SignedAuditLog in simp_all)
  then show ?thesis by (simp add: any_signed_decode_def body_class_simps SignedAuditLog)
qed

end
