(* ===== verification/FedScenario.thy ===== *)
theory FedScenario
  imports UtcTime Signed
begin

text \<open>
  A concrete instance of the third-party code around signatures, used to show that the hypotheses
  of the federation theorems can hold: bytes are written as pairs of letters, a key is its own
  public key and a signature is a checksum of key and message. Two peers with three keys use it.
\<close>

definition demo_encode :: "bytes \<Rightarrow> string" where
  "demo_encode b = concat (map (\<lambda>w. [char_of (97 + unat w div 16), char_of (97 + unat w mod 16)]) b)"

fun demo_decode :: "string \<Rightarrow> bytes option" where
  "demo_decode [] = Some []"
| "demo_decode [c] = None"
| "demo_decode (c # d # cs) =
     map_option (\<lambda>b. word_of_nat ((of_char c - 97) * 16 + (of_char d - 97)) # b) (demo_decode cs)"

definition demo_sum :: "bytes \<Rightarrow> 8 word" where
  "demo_sum b = fold (\<lambda>x a. 3 * a + x) b 7"

definition demo_sign :: "bytes \<Rightarrow> bytes \<Rightarrow> bytes" where
  "demo_sign k m = replicate 64 (demo_sum (k @ m))"

definition demo_writer :: "(json \<times> bytes) list \<Rightarrow> json \<Rightarrow> string + bytes" where
  "demo_writer tbl v = ok_or ''unknown value'' (map_of tbl v)"

definition demo_fed :: "(json \<times> bytes) list \<Rightarrow> fed_lib" where
  "demo_fed tbl =
     \<lparr>b64_encode = demo_encode, b64_decode = demo_decode, ed_public = (\<lambda>k. k),
      ed_point = (\<lambda>k. length k = 32), ed_weak = (\<lambda>k. k = replicate 32 0), ed_sign = demo_sign,
      ed_verify_strict = (\<lambda>k m s. s = demo_sign k m), sha256 = (\<lambda>b. take 32 (b @ replicate 32 0)),
      json_to_vec = demo_writer tbl\<rparr>"

definition key_a :: verifying_key where "key_a = replicate 32 1"
definition key_b :: verifying_key where "key_b = replicate 32 2"
definition key_c :: verifying_key where "key_c = replicate 32 3"

definition alice :: principal where "alice = \<lparr>authority = ''one.example'', pname = ''alice''\<rparr>"
definition bob :: principal where "bob = \<lparr>authority = ''two.example'', pname = ''bob''\<rparr>"

definition noon :: string where "noon = ''2026-04-27T12:00:00Z''"
definition later :: string where "later = ''2026-04-27T12:03:00Z''"

lemma demo_decode_encode: "demo_decode (demo_encode b) = Some b"
proof (induction b)
  case (Cons w b)
  have w: "unat w < 256" using unsigned_less [of w, where 'a = nat] by simp
  then have "97 + unat w div 16 < 256" "97 + unat w mod 16 < 256" by auto
  then have "(of_char (char_of (97 + unat w div 16) :: char) :: nat) = 97 + unat w div 16"
      "(of_char (char_of (97 + unat w mod 16) :: char) :: nat) = 97 + unat w mod 16"
    by (simp_all add: take_bit_nat_eq_self)
  moreover have "word_of_nat (unat w div 16 * 16 + unat w mod 16) = w" by simp
  ultimately show ?case using Cons by (simp add: demo_encode_def del: of_char_of)
qed (simp add: demo_encode_def)

lemma demo_honest: "honest_signer (demo_fed tbl) sk"
  by (simp add: honest_signer_def demo_fed_def demo_sign_def demo_decode_encode)

text \<open>A file with two peers, and the store it loads to.\<close>

definition demo_file :: string where
  "demo_file = ''# peers'' @ [CHR 0x0A] @ serialize_entry (demo_fed []) alice (ke_legacy key_a) @
     serialize_entry (demo_fed []) bob (ke_new key_b KsActive (Some ''2026-05-01T00:00:00Z'') (Some noon) None)"

definition demo_keyring :: keyring where
  "demo_keyring = bt_insert alice [ke_legacy key_a]
     (bt_insert bob [ke_new key_b KsActive (Some ''2026-05-01T00:00:00Z'') (Some noon) None] bt_empty)"

lemma demo_file_loads: "kr_load (demo_fed []) demo_file = Inr demo_keyring"
  by code_simp

end
