(* ===== verification/KeyringProps.thy ===== *)
theory KeyringProps
  imports FedScenario
begin

text \<open>
  What the trust store promises: the life cycle of a pinned key, what the time-aware lookup
  trusts, that a revoked key stays revoked, and when a saved file can be loaded again.
\<close>

subsection \<open>The life cycle\<close>

text \<open>
  C24: The keyring implements the life cycle of pinned keys. Whatever operation is applied, at
  most one principal's key list changes, and by one step: a key is pinned where none is active, the
  active key is retired in favour of a new one that was never revoked there, a retired key is
  forgotten, or a key is revoked. An operation that fails leaves the store exactly as it was.
\<close>

theorem keyring_refines_key_life:
  "(snd (kr_apply fl lib op kr) = kr \<or>
    (\<exists>p es'. key_step (kr_entries kr p) es' \<and>
       snd (kr_apply fl lib op kr) = (if es' = [] then bt_remove p kr else bt_insert p es' kr))) \<and>
   (fst (kr_apply fl lib op kr) = Inl e \<longrightarrow> snd (kr_apply fl lib op kr) = kr)"
  using kr_apply_moves [of kr fl lib op] kr_apply_error [of fl lib op kr e]
  unfolding kr_moves_def by blast

definition demo_lib0 :: ext_lib where
  "demo_lib0 = \<lparr>lex = (\<lambda>_. []), jcs = (\<lambda>_. Inr []), uuid_parse = (\<lambda>_. None), uuid_show = (\<lambda>_. [])\<rparr>"

theorem keyring_refines_key_life_witness:
  "fst (kr_apply (demo_fed []) demo_lib0 (OpRotate alice key_c noon None False) demo_keyring) =
     Inl (KeyChangeRequiresConfirmation alice (key_id (demo_fed []) key_a) (key_id (demo_fed []) key_c)) \<and>
   snd (kr_apply (demo_fed []) demo_lib0 (OpRotate alice key_c noon None False) demo_keyring) = demo_keyring"
proof -
  have "fst (kr_apply (demo_fed []) demo_lib0 (OpRotate alice key_c noon None False) demo_keyring) =
     Inl (KeyChangeRequiresConfirmation alice (key_id (demo_fed []) key_a) (key_id (demo_fed []) key_c))"
    by code_simp
  then show ?thesis using keyring_refines_key_life by blast
qed

subsection \<open>Lookup\<close>

lemma find_active_Some:
  assumes "length (filter active es) \<le> 1"
  shows "find active es = Some a \<longleftrightarrow> a \<in> set es \<and> active a"
proof
  assume "a \<in> set es \<and> active a"
  then have "a \<in> set (filter active es)" by simp
  then have f: "filter active es = [a]" using assms by (cases "filter active es") auto
  obtain b where b: "find active es = Some b"
    using \<open>a \<in> set es \<and> active a\<close> by (cases "find active es") (auto simp: find_None_iff)
  then have "b \<in> set (filter active es)" using find_Some_iff2 [OF b] by simp
  then show "find active es = Some a" using f b by simp
qed (auto dest: find_Some_iff2)

lemma active_key_iff:
  assumes "kr_ok kr"
  shows "active_key kr p now = KlActive k \<longleftrightarrow>
    is_canonical_utc now \<and>
    (\<exists>a \<in> set (kr_entries kr p). active a \<and> ke_key a = k \<and> (\<forall>vu. valid_until a = Some vu \<longrightarrow> now < vu))"
proof (cases "is_canonical_utc now")
  case True
  have one: "length (filter active (kr_entries kr p)) \<le> 1"
    using kr_ok_entries [OF assms] by (simp add: list_ok_def)
  show ?thesis
  proof (cases "find active (kr_entries kr p)")
    case None
    then have "\<not> (\<exists>a \<in> set (kr_entries kr p). active a)" by (auto simp: find_None_iff)
    then show ?thesis
      using True None by (auto simp: active_key_def kr_entries_def split: option.splits if_splits)
  next
    case (Some a)
    then have u: "\<And>x. x \<in> set (kr_entries kr p) \<and> active x \<longleftrightarrow> x = a" using find_active_Some [OF one] by (metis option.inject)
    have "active_key kr p now = (case valid_until a of
        Some vu \<Rightarrow> if vu \<le> now then KlExpired vu else KlActive (ke_key a) | None \<Rightarrow> KlActive (ke_key a))"
      using True Some by (auto simp: active_key_def kr_entries_def split: option.splits)
    then have "active_key kr p now = KlActive k \<longleftrightarrow> ke_key a = k \<and> (\<forall>vu. valid_until a = Some vu \<longrightarrow> now < vu)"
      by (auto split: option.splits)
    moreover have "a \<in> set (kr_entries kr p)" "active a" using u [of a] by simp_all
    ultimately show ?thesis using True u by metis
  qed
qed (simp add: active_key_def)

lemma active_stamp: "kr_ok kr \<Longrightarrow> a \<in> set (kr_entries kr p) \<Longrightarrow> valid_until a = Some vu \<Longrightarrow> is_canonical_utc vu"
  using kr_ok_entries [of kr p] by (fastforce simp: list_ok_def list_all_iff stamps_ok_def)

text \<open>
  C25: From a loaded file and through any operations, the lookup trusts a key at a time exactly
  when the time is canonical and the principal has an active entry for that key whose expiry, read
  as a calendar time, lies after it; and a principal never has two active entries.
\<close>

theorem lookup_trusts_exactly_the_active_key:
  assumes "kr_load fl content = Inr kr"
  shows "(active_key (kr_run fl lib os kr) p now = KlActive k \<longleftrightarrow>
      is_canonical_utc now \<and>
      (\<exists>a \<in> set (kr_entries (kr_run fl lib os kr) p). ke_state a = KsActive \<and> ke_key a = k \<and>
         (\<forall>vu. valid_until a = Some vu \<longrightarrow> utc_fields now < utc_fields vu))) \<and>
    length (filter (\<lambda>a. ke_state a = KsActive) (kr_entries (kr_run fl lib os kr) p)) \<le> 1"
proof -
  have ok: "kr_ok (kr_run fl lib os kr)" using kr_load_ok [OF assms] kr_run_ok by blast
  have "(\<forall>vu. valid_until a = Some vu \<longrightarrow> now < vu) \<longleftrightarrow> (\<forall>vu. valid_until a = Some vu \<longrightarrow> utc_fields now < utc_fields vu)"
    if "is_canonical_utc now" "a \<in> set (kr_entries (kr_run fl lib os kr) p)" for a
    using canonical_utc_order [OF that(1)] active_stamp [OF ok that(2)] by blast
  then show ?thesis
    using active_key_iff [OF ok] kr_ok_entries [OF ok] unfolding list_ok_def by blast
qed

theorem lookup_trusts_exactly_the_active_key_witness:
  "active_key demo_keyring bob noon = KlActive key_b \<and>
   active_key demo_keyring bob ''2026-05-01T00:00:00Z'' \<noteq> KlActive key_b"
proof -
  have r: "kr_run (demo_fed []) demo_lib0 [] demo_keyring = demo_keyring" by simp
  have e: "kr_entries demo_keyring bob =
      [ke_new key_b KsActive (Some ''2026-05-01T00:00:00Z'') (Some noon) None]"
    by code_simp
  have c: "is_canonical_utc noon" "utc_fields noon < utc_fields ''2026-05-01T00:00:00Z''" by code_simp+
  note t = lookup_trusts_exactly_the_active_key [OF demo_file_loads, of demo_lib0 "[]" bob _ key_b, unfolded r e]
  show ?thesis using t [of noon] t [of "''2026-05-01T00:00:00Z''"] c by (simp add: ke_new_def)
qed

subsection \<open>Revocation\<close>

lemma distinct_concatD: "distinct (concat xss) \<Longrightarrow> xs \<in> set xss \<Longrightarrow> distinct xs"
  by (induction xss) auto

lemma pinned_distinct_entries:
  assumes "distinct (pinned_keys kr)"
  shows "distinct (map ke_key (kr_entries kr p))"
proof (cases "bt_get kr p")
  case (Some es)
  then have "p \<in> set (bt_keys kr)" by (simp add: bt_keys_iff)
  then have "map ke_key (kr_entries kr p) \<in> set (map (\<lambda>p. map ke_key (kr_entries kr p)) (bt_keys kr))" by simp
  then show ?thesis using assms unfolding pinned_keys_def by (rule distinct_concatD [rotated])
qed (simp add: kr_entries_def)

lemma revoke_kills:
  assumes "fst (Keyring.revoke fl p kid now kr) = Inr ()" "distinct (map ke_key (kr_entries kr p))"
    and "\<forall>e \<in> set (kr_entries kr p). ke_key_id fl e = kid \<longrightarrow> ke_key e = k"
  shows "key_dead (kr_entries (snd (Keyring.revoke fl p kid now kr)) p) k"
proof -
  obtain es i where es: "bt_get kr p = Some es" "position (\<lambda>e. ke_key_id fl e = kid) es = Some i"
    using assms(1) by (auto simp: revoke_def split: if_splits option.splits)
  have i: "i < length es" "ke_key_id fl (es ! i) = kid" using es(2) by (auto simp: position_Some_iff)
  then have k: "ke_key (es ! i) = k" using assms(3) es(1) by (auto simp: kr_entries_def)
  let ?es = "if ke_state (es ! i) = KsRevoked then es else es[i := restate KsRevoked now (es ! i)]"
  have s: "kr_entries (snd (Keyring.revoke fl p kid now kr)) p = ?es"
    using assms(1) es by (auto simp: revoke_def kr_entries_def split: if_splits)
  have "length ?es = length es" "map ke_key ?es = map ke_key es" "ke_state (?es ! i) = KsRevoked"
    using i(1) by (auto simp: map_update list_update_same_conv)
  then have e: "i < length ?es" "ke_key (?es ! i) = k" "distinct (map ke_key ?es)"
    using i(1) k assms(2) es(1) by (auto simp: kr_entries_def)
  have "\<not> active (?es ! j)" if "j < length ?es" "ke_key (?es ! j) = k" for j
    using that e \<open>ke_state (?es ! i) = KsRevoked\<close> nth_eq_iff_index_eq [of "map ke_key ?es" i j]
    by (metis key_state.distinct(3) length_map nth_map)
  then have "\<not> (\<exists>x \<in> set ?es. active x \<and> ke_key x = k)" by (metis in_set_conv_nth)
  moreover have "revoked_here ?es k"
    unfolding revoked_here_def using e(1,2) \<open>ke_state (?es ! i) = KsRevoked\<close> nth_mem by blast
  ultimately show ?thesis unfolding s key_dead_def by blast
qed

text \<open>
  C26: Revocation is final for the principal it is made for. Once a key of a principal of a loaded keyring has been
  revoked, no sequence of pins, rotations, retirements and further revocations makes the lookup trust it for that
  principal again, at any time. No other key the principal has pinned is assumed to have the same key id, by which a
  revocation names the key. What other principals have pinned is independent of it.
\<close>

theorem revoked_key_never_trusted_again:
  assumes "kr_load fl content = Inr kr"
    and "\<forall>e \<in> set (kr_entries kr p). key_id fl (ke_key e) = key_id fl k \<longrightarrow> ke_key e = k"
    and "fst (Keyring.revoke fl p (key_id fl k) now kr) = Inr ()"
  shows "active_key (kr_run fl lib os (snd (Keyring.revoke fl p (key_id fl k) now kr))) p t \<noteq> KlActive k"
proof -
  let ?kr = "snd (Keyring.revoke fl p (key_id fl k) now kr)"
  have "key_dead (kr_entries ?kr p) k"
    using revoke_kills [OF assms(3)] pinned_distinct_entries kr_load_ok [OF assms(1)] assms(2)
    by (simp add: ke_key_id_def)
  then have "key_dead (kr_entries (kr_run fl lib os ?kr) p) k" by (rule kr_run_dead)
  moreover have "kr_ok (kr_run fl lib os ?kr)"
    using kr_load_ok [OF assms(1)] kr_run_ok kr_moves_ok [OF revoke_moves] by blast
  ultimately show ?thesis using active_key_iff unfolding key_dead_def by blast
qed

theorem revoked_key_never_trusted_again_witness:
  "active_key (kr_run (demo_fed []) demo_lib0 [OpPin alice key_c, OpRotate alice key_a later None True]
     (snd (Keyring.revoke (demo_fed []) alice (key_id (demo_fed []) key_a) noon demo_keyring))) alice later \<noteq> KlActive key_a"
proof -
  have "fst (Keyring.revoke (demo_fed []) alice (key_id (demo_fed []) key_a) noon demo_keyring) = Inr ()"
    "\<forall>e \<in> set (kr_entries demo_keyring alice). key_id (demo_fed []) (ke_key e) = key_id (demo_fed []) key_a \<longrightarrow> ke_key e = key_a"
    by code_simp+
  from revoked_key_never_trusted_again [OF demo_file_loads this(2,1)] show ?thesis .
qed

subsection \<open>The file\<close>

lemma saveable_iff:
  "saveable fl kr \<longleftrightarrow> kr_ok kr \<and>
     (\<forall>p es. bt_get kr p = Some es \<longrightarrow> wf_principal p \<and> (\<forall>e \<in> set es. key_text_ok fl (ke_key e)))"
  by (simp add: saveable_def list_all_iff [of _ "bt_entries kr"] split_paired_all split_beta Ball_def bt_entries_iff)
    (auto simp: list_all_iff)

text \<open>
  C27: Saving and loading. A store whose keys and principals have a faithful text form loads back
  from the file it is saved to exactly when no public key is pinned twice, in one principal's list
  or in two; and then every principal has the entries it had, in the order of their keys' text.
\<close>

theorem keyring_file_round_trip:
  assumes "saveable fl kr"
  shows "(is_ok (kr_load fl (kr_save fl kr)) \<longleftrightarrow> distinct (pinned_keys kr)) \<and>
    (\<forall>kr' q. kr_load fl (kr_save fl kr) = Inr kr' \<longrightarrow>
       kr_entries kr' q = sort_key (\<lambda>e. vk_to_b64url fl (ke_key e)) (kr_entries kr q))"
  using load_saved [OF assms] load_saved_entries [of fl kr] by (auto simp: is_ok_iff)

definition texts_ok :: "fed_lib \<Rightarrow> keyring \<Rightarrow> bool" where
  "texts_ok fl kr \<longleftrightarrow>
     list_all (\<lambda>(p, es). wf_principal p \<and> list_all (\<lambda>e. key_text_ok fl (ke_key e)) es) (bt_entries kr)"

lemma saveableI: "kr_ok kr \<Longrightarrow> texts_ok fl kr \<Longrightarrow> saveable fl kr"
  by (simp add: saveable_def texts_ok_def)

lemma demo_ok: "kr_ok demo_keyring"
  using kr_load_ok [OF demo_file_loads] by simp

lemma demo_saveable: "saveable (demo_fed []) demo_keyring"
proof (rule saveableI [OF demo_ok])
  show "texts_ok (demo_fed []) demo_keyring" by code_simp
qed

theorem keyring_file_round_trip_witness:
  "is_ok (kr_load (demo_fed []) (kr_save (demo_fed []) demo_keyring)) \<and>
   \<not> is_ok (kr_load (demo_fed []) (kr_save (demo_fed [])
       (snd (rotate_to (demo_fed []) alice key_b noon None True demo_keyring))))"
proof -
  let ?kr = "snd (rotate_to (demo_fed []) alice key_b noon None True demo_keyring)"
  have "texts_ok (demo_fed []) ?kr" by code_simp
  then have "saveable (demo_fed []) ?kr" by (rule saveableI [OF kr_moves_ok [OF rotate_to_moves demo_ok]])
  moreover have "distinct (pinned_keys demo_keyring)" "\<not> distinct (pinned_keys ?kr)" by code_simp+
  ultimately show ?thesis
    using keyring_file_round_trip [OF demo_saveable] keyring_file_round_trip [of "demo_fed []" ?kr] by simp
qed

subsection \<open>Rotating back\<close>

lemma bt_insert_insert: "bt_insert k v (bt_insert k w m) = bt_insert k v m"
  by (rule bt_ext) simp

lemma rotate_to_active:
  assumes "bt_get kr p = Some es" "position active es = Some i" "ke_key (es ! i) \<noteq> k"
    "is_canonical_utc now" "pred_option is_canonical_utc vu" "\<not> revoked_here es k"
  shows "snd (rotate_to fl p k now vu True kr) =
    bt_insert p (es[i := restate KsRetired now (es ! i)] @ [ke_new k KsActive vu (Some now) None]) kr"
  using assms by (simp add: rotate_to_def or_default_def kr_entries_def Let_def)

text \<open>
  C28: Rotating back to a retired key pins it a second time. After a rotation from the only key to
  another and back, revoking that key reports success and changes only its retired entry: the lookup
  goes on trusting it. And the store, saved in between, no longer loads.
\<close>

theorem rotating_back_defeats_revocation:
  assumes "saveable fl kr" and "bt_get kr p = Some [e]" and "ke_state e = KsActive"
    and "k \<noteq> ke_key e" and "key_text_ok fl k"
    and "is_canonical_utc t1" and "is_canonical_utc t2" and "is_canonical_utc t3" and "is_canonical_utc now"
  defines "kr1 \<equiv> snd (rotate_to fl p k t1 None True kr)"
  defines "kr2 \<equiv> snd (rotate_to fl p (ke_key e) t2 None True kr1)"
  defines "r \<equiv> Keyring.revoke fl p (key_id fl (ke_key e)) t3 kr2"
  shows "fst r = Inr () \<and> active_key (snd r) p now = KlActive (ke_key e) \<and>
    \<not> is_ok (kr_load fl (kr_save fl kr2))"
proof -
  let ?old = "restate KsRetired t1 e" and ?new = "ke_new k KsActive None (Some t1) None"
  let ?es = "[?old, restate KsRetired t2 ?new, ke_new (ke_key e) KsActive None (Some t2) None]"
  have 1: "kr1 = bt_insert p [?old, ?new] kr"
    unfolding kr1_def using assms(2-6) by (simp add: rotate_to_active revoked_here_def)
  have 2: "kr2 = bt_insert p ?es kr"
    unfolding kr2_def using assms(4,7)
    by (subst rotate_to_active [where es = "[?old, ?new]" and i = 1])
      (auto simp: 1 revoked_here_def restate_def ke_new_def bt_insert_insert)
  have "kr_ok kr2"
    unfolding kr2_def kr1_def using assms(1) kr_moves_ok [OF rotate_to_moves] unfolding saveable_def by blast
  moreover have "wf_principal p" "key_text_ok fl (ke_key e)" using assms(1,2) by (auto simp: saveable_iff)
  ultimately have "saveable fl kr2"
    using assms(1,5) by (auto simp: 2 saveable_iff restate_def ke_new_def)
  moreover have "kr_entries kr2 p = ?es" by (simp add: 2 kr_entries_def)
  then have "\<not> distinct (pinned_keys kr2)"
    using pinned_distinct_entries [of kr2 p] by (auto simp: restate_def ke_new_def)
  ultimately have "\<not> is_ok (kr_load fl (kr_save fl kr2))" by (auto simp: is_ok_iff load_saved)
  moreover have "fst r = Inr () \<and> active_key (snd r) p now = KlActive (ke_key e)"
    using assms(8,9) by (simp add: r_def 2 revoke_def active_key_def restate_def ke_new_def ke_key_id_def)
  ultimately show ?thesis by blast
qed

theorem rotating_back_defeats_revocation_witness:
  "active_key (snd (Keyring.revoke (demo_fed []) alice (key_id (demo_fed []) key_a) later
     (snd (rotate_to (demo_fed []) alice key_a later None True
       (snd (rotate_to (demo_fed []) alice key_c noon None True demo_keyring)))))) alice later = KlActive key_a"
proof -
  have g: "bt_get demo_keyring alice = Some [ke_legacy key_a]" "ke_state (ke_legacy key_a) = KsActive"
    "key_c \<noteq> ke_key (ke_legacy key_a)" "key_text_ok (demo_fed []) key_c"
    "is_canonical_utc noon" "is_canonical_utc later" "ke_key (ke_legacy key_a) = key_a"
    by code_simp+
  show ?thesis
    using rotating_back_defeats_revocation [OF demo_saveable g(1-5) g(6) g(6) g(6)] by (simp add: g(7))
qed

end
