(* ===== verification/Client.thy ===== *)
theory Client
  imports Codec
begin

text \<open>
  The bus client (\<open>famp/src/bus_client/mod.rs\<close>) and the gateway's connections
  (\<open>famp-gateway/src/principal.rs\<close>, \<open>registry.rs\<close>). The socket is a parameter: a \<open>link\<close> opens a
  connection and exchanges one message for one reply, in a world \<open>'w\<close> that the calls change. So are
  the system calls that start a broker process (\<open>bus_client/spawn.rs\<close>), the \<open>launcher\<close>. A connection
  that is only opened to see whether it can be is dropped at once.
\<close>

datatype io_kind = IoNotFound | IoConnectionRefused | IoOther

datatype spawn_error =
    SpIo io_kind
  | SandboxEperm
  | SpCurrentExe io_kind
  | SpBrokerDidNotStart
  | SocketPathNotUtf8

datatype bus_client_error =
    BcIo io_kind
  | BcFrame frame_error
  | BcDecode canonical_error
  | BcHelloFailed bus_error_kind string
  | BcProtocolMismatch string
  | BcUnexpectedReply string
  | BcBrokerDidNotStart spawn_error

type_synonym conn = nat

text \<open>A bind that is refused with \<open>EPERM\<close> or \<open>EACCES\<close>, or for another reason.\<close>

datatype bind_error = BindForbidden | BindOther

record 'w launcher =
  ln_has_parent :: bool
  ln_path_utf8 :: bool
  ln_create_dir :: "'w \<Rightarrow> (io_kind + unit) \<times> 'w"
  ln_bind_probe :: "'w \<Rightarrow> (bind_error + unit) \<times> 'w"
  ln_remove_probe :: "'w \<Rightarrow> (io_kind + unit) \<times> 'w"
  ln_open_log :: "'w \<Rightarrow> (io_kind + unit) \<times> 'w"
  ln_current_exe :: "'w \<Rightarrow> (io_kind + unit) \<times> 'w"
  ln_start :: "'w \<Rightarrow> (io_kind + unit) \<times> 'w"

record 'w link =
  lk_launcher :: "'w launcher"
  lk_open :: "'w \<Rightarrow> (io_kind + conn) \<times> 'w"
  lk_sleep :: "nat \<Rightarrow> 'w \<Rightarrow> 'w"
  lk_exchange :: "conn \<Rightarrow> bus_message \<Rightarrow> 'w \<Rightarrow> (bus_client_error + bus_reply) \<times> 'w"

record bus_client =
  bc_stream :: conn
  bc_bind_as :: "string option"

definition classify_hello_reply :: "bus_reply \<Rightarrow> bus_client_error + unit" where
  "classify_hello_reply r =
     (case r of
        HelloOk _ \<Rightarrow> Inr ()
      | HelloErr k m \<Rightarrow>
          if k = BrokerProtoMismatch then Inl (BcProtocolMismatch m) else Inl (BcHelloFailed k m)
      | ErrReply k m \<Rightarrow> Inl (BcHelloFailed k m)
      | _ \<Rightarrow> Inl (BcUnexpectedReply (variant_name r)))"

definition client_send_recv ::
  "'w link \<Rightarrow> bus_client \<Rightarrow> bus_message \<Rightarrow> 'w \<Rightarrow> (bus_client_error + bus_reply) \<times> 'w" where
  "client_send_recv lk c msg w = lk_exchange lk (bc_stream c) msg w"

subsection \<open>Starting a broker\<close>

fun io_then :: "('e + unit) \<times> 'w \<Rightarrow> ('w \<Rightarrow> ('e + unit) \<times> 'w) \<Rightarrow> ('e + unit) \<times> 'w" where
  "io_then (Inl e, w) f = (Inl e, w)"
| "io_then (Inr _, w) f = f w"

definition preflight_bind_probe :: "'w launcher \<Rightarrow> 'w \<Rightarrow> (spawn_error + unit) \<times> 'w" where
  "preflight_bind_probe la w =
     (case ln_bind_probe la w of
        (Inr _, w') \<Rightarrow> apfst (map_err SpIo) (ln_remove_probe la w')
      | (Inl BindForbidden, w') \<Rightarrow> (Inl SandboxEperm, w')
      | (Inl BindOther, w') \<Rightarrow> (Inr (), w'))"

text \<open>Everything between the first look at the socket and the polling.\<close>

definition launch_broker :: "'w launcher \<Rightarrow> 'w \<Rightarrow> (spawn_error + unit) \<times> 'w" where
  "launch_broker la w =
     (if \<not> ln_has_parent la then (Inl (SpIo IoOther), w)
      else
        io_then (apfst (map_err SpIo) (ln_create_dir la w)) (\<lambda>w1.
        io_then (preflight_bind_probe la w1) (\<lambda>w2.
        io_then (apfst (map_err SpIo) (ln_open_log la w2)) (\<lambda>w3.
        io_then (apfst (map_err SpCurrentExe) (ln_current_exe la w3)) (\<lambda>w4.
        if \<not> ln_path_utf8 la then (Inl SocketPathNotUtf8, w4)
        else apfst (map_err SpIo) (ln_start la w4))))))"

fun spawn_poll :: "'w link \<Rightarrow> nat \<Rightarrow> 'w \<Rightarrow> (spawn_error + unit) \<times> 'w" where
  "spawn_poll lk 0 w = (Inl SpBrokerDidNotStart, w)"
| "spawn_poll lk (Suc n) w =
     (case lk_open lk (lk_sleep lk 200 w) of
        (Inr _, w') \<Rightarrow> (Inr (), w')
      | (Inl _, w') \<Rightarrow> spawn_poll lk n w')"

definition spawn_broker_if_absent :: "'w link \<Rightarrow> 'w \<Rightarrow> (spawn_error + unit) \<times> 'w" where
  "spawn_broker_if_absent lk w =
     (case lk_open lk w of
        (Inr _, w') \<Rightarrow> (Inr (), w')
      | (Inl _, w') \<Rightarrow> io_then (launch_broker (lk_launcher lk) w') (spawn_poll lk 10))"

subsection \<open>Connecting\<close>

text \<open>The retries of \<open>connect\<close>: only a missing or refusing socket is tried again, and at most 20 times.\<close>

function connect_loop :: "'w link \<Rightarrow> nat \<Rightarrow> 'w \<Rightarrow> (bus_client_error + conn) \<times> 'w" where
  "connect_loop lk attempts w =
     (case lk_open lk w of
        (Inr s, w') \<Rightarrow> (Inr s, w')
      | (Inl e, w') \<Rightarrow>
          if e = IoNotFound \<or> e = IoConnectionRefused
          then (if attempts + 1 \<ge> 20 then (Inl (BcIo e), w')
                else connect_loop lk (attempts + 1) (lk_sleep lk 100 w'))
          else (Inl (BcIo e), w'))"
  by pat_completeness auto
termination
  by (relation "measure (\<lambda>(lk, attempts, w). 20 - attempts)") auto

declare connect_loop.simps [simp del]

text \<open>The handshake that follows; \<open>version\<close> is the package version the build fixes.\<close>

definition greet ::
  "'w link \<Rightarrow> string \<Rightarrow> conn \<Rightarrow> string option \<Rightarrow> 'w \<Rightarrow> (bus_client_error + bus_client) \<times> 'w" where
  "greet lk agent s who w =
     (let c = \<lparr>bc_stream = s, bc_bind_as = who\<rparr> in
      case client_send_recv lk c (Hello BUS_PROTO_VERSION agent who) w of
        (Inl e, w') \<Rightarrow> (Inl e, w')
      | (Inr reply, w') \<Rightarrow> (map_sum id (\<lambda>_. c) (classify_hello_reply reply), w'))"

definition connect ::
  "'w link \<Rightarrow> string \<Rightarrow> string option \<Rightarrow> 'w \<Rightarrow> (bus_client_error + bus_client) \<times> 'w" where
  "connect lk version who w =
     (case spawn_broker_if_absent lk w of
        (Inl e, w') \<Rightarrow> (Inl (BcBrokerDidNotStart e), w')
      | (Inr _, w') \<Rightarrow>
          (case connect_loop lk 0 w' of
             (Inl e, w'') \<Rightarrow> (Inl e, w'')
           | (Inr s, w'') \<Rightarrow> greet lk (''famp-cli/'' @ version) s who w''))"

definition connect_no_spawn ::
  "'w link \<Rightarrow> string \<Rightarrow> string option \<Rightarrow> 'w \<Rightarrow> (bus_client_error + bus_client) \<times> 'w" where
  "connect_no_spawn lk version who w =
     (case lk_open lk w of
        (Inl e, w') \<Rightarrow> (Inl (BcIo e), w')
      | (Inr s, w') \<Rightarrow> greet lk (''famp-gateway/'' @ version) s who w')"

subsection \<open>The gateway's connections\<close>

datatype gateway_error =
    GeIo io_kind
  | GeBrokerUnreachable
  | GeHelloFailed bus_error_kind string
  | GeRegisterFailed bus_error_kind string
  | GeUnexpectedReply string
  | GeDuplicatePrincipal string

text \<open>The errors of the codec are reported by their fixed text.\<close>

fun map_bus_client_err :: "bus_client_error \<Rightarrow> gateway_error" where
  "map_bus_client_err (BcIo e) = GeBrokerUnreachable"
| "map_bus_client_err (BcBrokerDidNotStart e) = GeBrokerUnreachable"
| "map_bus_client_err (BcFrame e) = GeUnexpectedReply ''frame codec error''"
| "map_bus_client_err (BcDecode e) = GeUnexpectedReply ''canonical-JSON strict-parse failed''"
| "map_bus_client_err (BcHelloFailed k m) = GeHelloFailed k m"
| "map_bus_client_err (BcProtocolMismatch m) = GeHelloFailed BrokerProtoMismatch m"
| "map_bus_client_err (BcUnexpectedReply m) = GeUnexpectedReply m"

record proxied_principal =
  pp_client :: bus_client
  pp_name :: string

definition pp_send_recv ::
  "'w link \<Rightarrow> proxied_principal \<Rightarrow> bus_message \<Rightarrow> 'w \<Rightarrow> (gateway_error + bus_reply) \<times> 'w" where
  "pp_send_recv lk p msg w = apfst (map_err map_bus_client_err) (client_send_recv lk (pp_client p) msg w)"

definition pp_register ::
  "'w link \<Rightarrow> string \<Rightarrow> u32 \<Rightarrow> string \<Rightarrow> 'w \<Rightarrow> (gateway_error + proxied_principal) \<times> 'w" where
  "pp_register lk version pid name w =
     (case connect_no_spawn lk version None w of
        (Inl e, w') \<Rightarrow> (Inl (map_bus_client_err e), w')
      | (Inr c, w') \<Rightarrow>
          (case client_send_recv lk c (Register name pid None False (Some Gateway)) w' of
             (Inl e, w'') \<Rightarrow> (Inl (map_bus_client_err e), w'')
           | (Inr reply, w'') \<Rightarrow>
               ((case reply of
                   RegisterOk _ _ _ \<Rightarrow> Inr \<lparr>pp_client = c, pp_name = name\<rparr>
                 | ErrReply k m \<Rightarrow> Inl (GeRegisterFailed k m)
                 | _ \<Rightarrow> Inl (GeUnexpectedReply (variant_name reply))), w'')))"

type_synonym gateway_registry = "(string, proxied_principal) btree"

definition gr_back ::
  "'w link \<Rightarrow> string \<Rightarrow> u32 \<Rightarrow> string \<Rightarrow> gateway_registry \<Rightarrow> 'w \<Rightarrow>
   (gateway_error + unit) \<times> gateway_registry \<times> 'w" where
  "gr_back lk version pid name reg w =
     (if bt_get reg name \<noteq> None then (Inl (GeDuplicatePrincipal name), reg, w)
      else (case pp_register lk version pid name w of
          (Inl e, w') \<Rightarrow> (Inl e, reg, w')
        | (Inr p, w') \<Rightarrow> (Inr (), bt_insert name p reg, w')))"

definition gr_get :: "gateway_registry \<Rightarrow> string \<Rightarrow> proxied_principal option" where
  "gr_get reg name = bt_get reg name"

definition gr_names :: "gateway_registry \<Rightarrow> string list" where
  "gr_names reg = bt_keys reg"

end
