(* ===== verification/Guard.thy ===== *)
theory Guard
  imports Signed "HOL-Library.Signed_Division"
begin

text \<open>
  The gateway's guard before signature verification (\<open>famp-gateway/src/ingress_guard.rs\<close>): the
  unverified peek, the audience and freshness gates, the replay cache and the rate limiter. An
  \<open>OffsetDateTime\<close> is its number of nanoseconds since the epoch; reading RFC 3339 text is done by the
  \<open>time\<close> crate and is the parameter \<open>rfc\<close>. A gate that rejects also returns the state it leaves.
\<close>

type_synonym instant = int
type_synonym rfc3339 = "string \<Rightarrow> instant option"

text \<open>\<open>(a - b).whole_seconds()\<close>: truncation towards zero.\<close>

definition whole_seconds :: "int \<Rightarrow> int" where
  "whole_seconds d = d sdiv 1000000000"

definition CLOCK_SKEW_WINDOW_SECS :: int where "CLOCK_SKEW_WINDOW_SECS = 300"
definition REPLAY_CACHE_TTL_SECS :: int where "REPLAY_CACHE_TTL_SECS = 600"
definition REPLAY_CACHE_MAX_PER_SENDER :: nat where "REPLAY_CACHE_MAX_PER_SENDER = 4096"
definition RATE_LIMIT_MAX_PER_WINDOW :: nat where "RATE_LIMIT_MAX_PER_WINDOW = 120"
definition RATE_LIMIT_WINDOW_SECS :: int where "RATE_LIMIT_WINDOW_SECS = 60"

datatype guard_reject =
    GrBadEnvelopeShape
  | GrStaleTimestamp string string int
  | GrReplayedNonce string string
  | GrMissingNonce string
  | GrForeignDomain string string
  | GrSenderNotBacked string
  | GrRateLimited string nat int

subsection \<open>The unverified peek\<close>

record peeked_fields =
  pk_from :: principal
  pk_to :: principal
  pk_ts :: string
  pk_nonce :: "string option"
  pk_expiry :: "string option"

definition required_string :: "(string \<times> json) list \<Rightarrow> string \<Rightarrow> guard_reject + string" where
  "required_string obj field = ok_or GrBadEnvelopeShape (Option.bind (map_of obj field) as_str)"

definition required_principal :: "(string \<times> json) list \<Rightarrow> string \<Rightarrow> guard_reject + principal" where
  "required_principal obj field =
     res_bind (required_string obj field) (\<lambda>raw.
     map_err (\<lambda>_. GrBadEnvelopeShape) (principal_from_str raw))"

definition optional_string :: "(string \<times> json) list \<Rightarrow> string \<Rightarrow> guard_reject + string option" where
  "optional_string obj field =
     (case map_of obj field of
        None \<Rightarrow> Inr None
      | Some (JStr s) \<Rightarrow> Inr (Some s)
      | Some _ \<Rightarrow> Inl GrBadEnvelopeShape)"

definition peek_guard_fields :: "ext_lib \<Rightarrow> bytes \<Rightarrow> guard_reject + peeked_fields" where
  "peek_guard_fields lib b =
     res_bind (map_err (\<lambda>_. GrBadEnvelopeShape) (parse_value lib b)) (\<lambda>v.
     res_bind (ok_or GrBadEnvelopeShape (as_object v)) (\<lambda>obj.
     res_bind (required_principal obj ''from'') (\<lambda>from.
     res_bind (required_principal obj ''to'') (\<lambda>to.
     res_bind (required_string obj ''ts'') (\<lambda>ts.
     res_bind (optional_string obj ''nonce'') (\<lambda>nonce.
     res_bind (optional_string obj ''expiry'') (\<lambda>expiry.
     Inr \<lparr>pk_from = from, pk_to = to, pk_ts = ts, pk_nonce = nonce, pk_expiry = expiry\<rparr>)))))))"

subsection \<open>Freshness\<close>

definition freshness_check :: "rfc3339 \<Rightarrow> string \<Rightarrow> string \<Rightarrow> int \<Rightarrow> guard_reject + unit" where
  "freshness_check rfc ts now skew_secs =
     res_bind (ok_or GrBadEnvelopeShape (rfc ts)) (\<lambda>ts_instant.
     res_bind (ok_or GrBadEnvelopeShape (rfc now)) (\<lambda>now_instant.
     if \<bar>whole_seconds (now_instant - ts_instant)\<bar> \<le> skew_secs then Inr ()
     else Inl (GrStaleTimestamp ts now skew_secs)))"

text \<open>
  The relation between the five constants. The product is taken at 128 bits and cannot overflow;
  \<open>2 * skew_secs\<close> is taken at 64 bits, and \<open>None\<close> is its overflow, an error of the compiler's
  evaluation.
\<close>

definition replay_bounds_ok :: "int \<Rightarrow> int \<Rightarrow> nat \<Rightarrow> nat \<Rightarrow> int \<Rightarrow> bool option" where
  "replay_bounds_ok skew_secs ttl_secs max_per_sender rate_max rate_window_secs =
     (if rate_window_secs \<le> 0 then Some False
      else if 2 * skew_secs < - (2 ^ 63) \<or> 2 ^ 63 \<le> 2 * skew_secs then None
      else
        (let relation_a = ttl_secs \<ge> 2 * skew_secs;
             max_nonces_within_ttl = (ttl_secs * int rate_max) sdiv rate_window_secs;
             relation_b = int max_per_sender \<ge> max_nonces_within_ttl
         in Some (relation_a \<and> relation_b)))"

definition SHIPPED_BOUNDS_OK :: "bool option" where
  "SHIPPED_BOUNDS_OK =
     replay_bounds_ok CLOCK_SKEW_WINDOW_SECS REPLAY_CACHE_TTL_SECS REPLAY_CACHE_MAX_PER_SENDER
       RATE_LIMIT_MAX_PER_WINDOW RATE_LIMIT_WINDOW_SECS"

subsection \<open>The replay cache\<close>

type_synonym nonce_map = "(string, instant) btree"
type_synonym replay_cache = "(string, nonce_map) btree"

definition replay_new :: replay_cache where "replay_new = bt_empty"

definition live :: "instant \<Rightarrow> instant \<Rightarrow> bool" where
  "live now recorded_at \<longleftrightarrow> whole_seconds (now - recorded_at) < REPLAY_CACHE_TTL_SECS"

text \<open>\<open>min_by\<close> on the instant, then the nonce.\<close>

fun oldest :: "(string \<times> instant) list \<Rightarrow> (string \<times> instant) option" where
  "oldest [] = None"
| "oldest ((k, t) # es) =
     (case oldest es of
        None \<Rightarrow> Some (k, t)
      | Some (j, u) \<Rightarrow> if t < u \<or> t = u \<and> k \<le> j then Some (k, t) else Some (j, u))"

definition evict :: "nonce_map \<Rightarrow> nonce_map" where
  "evict seen =
     (if REPLAY_CACHE_MAX_PER_SENDER \<le> length (bt_entries seen)
      then (case oldest (bt_entries seen) of Some (k, _) \<Rightarrow> bt_remove k seen | None \<Rightarrow> seen)
      else seen)"

definition nonces :: "replay_cache \<Rightarrow> string \<Rightarrow> nonce_map" where
  "nonces c sender = (case bt_get c sender of None \<Rightarrow> bt_empty | Some m \<Rightarrow> m)"

definition record_nonce ::
  "string \<Rightarrow> string \<Rightarrow> instant \<Rightarrow> replay_cache \<Rightarrow> (guard_reject + unit) \<times> replay_cache" where
  "record_nonce sender nonce now c =
     (if nonce = [] then (Inl (GrMissingNonce sender), c)
      else
        (let seen = bt_retain (\<lambda>_ recorded_at. live now recorded_at) (nonces c sender) in
         if bt_get seen nonce \<noteq> None
         then (Inl (GrReplayedNonce sender nonce), bt_insert sender seen c)
         else (Inr (), bt_insert sender (bt_insert nonce now (evict seen)) c)))"

definition sweep :: "instant \<Rightarrow> replay_cache \<Rightarrow> replay_cache" where
  "sweep now c =
     bt_retain (\<lambda>_ seen. bt_entries seen \<noteq> [])
       (bt_map (\<lambda>_ seen. bt_retain (\<lambda>_ recorded_at. live now recorded_at) seen) c)"

definition len_for :: "replay_cache \<Rightarrow> string \<Rightarrow> nat" where
  "len_for c sender = (case bt_get c sender of None \<Rightarrow> 0 | Some m \<Rightarrow> length (bt_entries m))"

subsection \<open>The rate limiter\<close>

type_synonym rate_limiter = "(string, instant \<times> nat) btree"

definition rate_new :: rate_limiter where "rate_new = bt_empty"

text \<open>The counter stops at the limit, so its 32 bits suffice.\<close>

definition admit :: "string \<Rightarrow> instant \<Rightarrow> rate_limiter \<Rightarrow> (guard_reject + unit) \<times> rate_limiter" where
  "admit sender now l =
     (let bucket = (case bt_get l sender of None \<Rightarrow> (now, 0) | Some b \<Rightarrow> b) in
      if whole_seconds (now - fst bucket) \<ge> RATE_LIMIT_WINDOW_SECS
      then (Inr (), bt_insert sender (now, 1) l)
      else if snd bucket < RATE_LIMIT_MAX_PER_WINDOW
      then (Inr (), bt_insert sender (fst bucket, snd bucket + 1) l)
      else (Inl (GrRateLimited sender RATE_LIMIT_MAX_PER_WINDOW RATE_LIMIT_WINDOW_SECS),
            bt_insert sender bucket l))"

subsection \<open>The chain\<close>

record ingress_guard =
  started_at :: instant
  replay :: replay_cache
  rate :: rate_limiter

definition guard_new :: "instant \<Rightarrow> ingress_guard" where
  "guard_new now = \<lparr>started_at = now, replay = replay_new, rate = rate_new\<rparr>"

record guard_input =
  peeked :: peeked_fields
  gi_now :: string
  gi_own_domain :: string
  sender_is_backed :: bool

definition audience_check :: "guard_input \<Rightarrow> guard_reject + unit" where
  "audience_check i =
     (let got = authority (pk_to (peeked i)) in
      if got \<noteq> gi_own_domain i then Inl (GrForeignDomain (gi_own_domain i) got)
      else if \<not> sender_is_backed i then Inl (GrSenderNotBacked (pname (pk_from (peeked i))))
      else Inr ())"

definition run_cheap_gates ::
  "rfc3339 \<Rightarrow> guard_input \<Rightarrow> ingress_guard \<Rightarrow> (guard_reject + unit) \<times> ingress_guard" where
  "run_cheap_gates rfc i g =
     (case audience_check i of Inl e \<Rightarrow> (Inl e, g) | Inr _ \<Rightarrow>
     (case freshness_check rfc (pk_ts (peeked i)) (gi_now i) CLOCK_SKEW_WINDOW_SECS of Inl e \<Rightarrow> (Inl e, g) | Inr _ \<Rightarrow>
     (case pk_nonce (peeked i) of None \<Rightarrow> (Inl (GrMissingNonce (pname (pk_from (peeked i)))), g) | Some nonce \<Rightarrow>
     (case rfc (gi_now i) of None \<Rightarrow> (Inl GrBadEnvelopeShape, g) | Some parsed_now \<Rightarrow>
     (case record_nonce (pname (pk_from (peeked i))) nonce parsed_now (replay g) of
        (Inl e, c) \<Rightarrow> (Inl e, g\<lparr>replay := c\<rparr>)
      | (Inr _, c) \<Rightarrow>
          (case admit (pname (pk_from (peeked i))) parsed_now (rate g) of
             (r, l) \<Rightarrow> (r, g\<lparr>replay := c, rate := l\<rparr>)))))))"

end
