(* ===== verification/Egress.thy ===== *)
theory Egress
  imports Client Keyring UtcTime Guard
begin

text \<open>
  Messages to other hosts (\<open>famp-gateway/src/egress.rs\<close>, \<open>HttpTransport::send\<close> of
  \<open>famp-transport-http\<close>): stamping a drained envelope with the gateway's federation fields and
  signing it, posting it to the peer, and telling the sender when that failed. Parameters are the
  \<open>time\<close> crate (\<open>time_lib\<close>), URLs and the HTTP client (\<open>http_lib\<close>, over the same world as the bus
  connections), and \<open>debug_of\<close>, the derived \<open>Debug\<close> text of an error, which ends in texts of those
  crates. What a call draws from the clock and the random source is the record \<open>egress_draw\<close>;
  adding five minutes to the clock is taken not to leave the range of dates.
\<close>

subsection \<open>The transport\<close>

datatype http_transport_error =
    HtUnknownRecipient principal
  | HtReqwestFailed string
  | HtServerStatus nat string
  | HtInboxClosed principal
  | HtInvalidUrl string
  | HtTlsConfig string

record transport_message =
  tm_sender :: principal
  tm_recipient :: principal
  tm_bytes :: bytes

text \<open>
  \<open>hl_segments base segs\<close> is \<open>base\<close> with its path replaced by the segments, \<open>None\<close> if it cannot be a
  base; \<open>hl_post\<close> answers with a failure, or the status and the text of the body where it can be read.
\<close>

record ('u, 'w) http_lib =
  hl_segments :: "'u \<Rightarrow> string list \<Rightarrow> 'u option"
  hl_post :: "'u \<Rightarrow> (string \<times> string) list \<Rightarrow> bytes \<Rightarrow> 'w \<Rightarrow> (string + nat \<times> string option) \<times> 'w"

type_synonym 'u addr_map = "(principal, 'u) btree"

definition add_peer :: "principal \<Rightarrow> 'u \<Rightarrow> 'u addr_map \<Rightarrow> 'u addr_map" where
  "add_peer p url peers = bt_insert p url peers"

definition transport_send ::
  "('u, 'w) http_lib \<Rightarrow> 'u addr_map \<Rightarrow> transport_message \<Rightarrow> 'w \<Rightarrow> (http_transport_error + unit) \<times> 'w" where
  "transport_send hl peers msg w =
     (case bt_get peers (tm_recipient msg) of
        None \<Rightarrow> (Inl (HtUnknownRecipient (tm_recipient msg)), w)
      | Some base \<Rightarrow>
          (case hl_segments hl base [''famp'', ''v0.5.1'', ''inbox'', principal_display (tm_recipient msg)] of
             None \<Rightarrow> (Inl (HtInvalidUrl ''relative URL without a base''), w)
           | Some inbox_url \<Rightarrow>
               (case hl_post hl inbox_url [(''content-type'', ''application/famp+json'')] (tm_bytes msg) w of
                  (Inl e, w') \<Rightarrow> (Inl (HtReqwestFailed e), w')
                | (Inr (code, body), w') \<Rightarrow>
                    (if code = 202 then Inr ()
                     else Inl (HtServerStatus code (case body of None \<Rightarrow> [] | Some t \<Rightarrow> t)), w'))))"

subsection \<open>Stamping and signing\<close>

definition EGRESS_AWAIT_TIMEOUT_MS :: nat where "EGRESS_AWAIT_TIMEOUT_MS = 1000"
definition EXPIRY_WINDOW_MINUTES :: int where "EXPIRY_WINDOW_MINUTES = 5"

definition FEDERATION_OWNED_FIELDS :: "string list" where
  "FEDERATION_OWNED_FIELDS =
     [''from_domain'', ''to_domain'', ''sender_key_id'', ''nonce'', ''expiry'', ''capability'', ''approval'']"

definition RELAY_FAILURE_REASON_PREFIX :: string where
  "RELAY_FAILURE_REASON_PREFIX = ''famp-gateway relay failed:''"

fun principal_error_display :: "principal_error \<Rightarrow> string" where
  "principal_error_display MissingScheme = ''principal must start with '' @ quoted ''agent:''"
| "principal_error_display UnexpectedInstanceTail = ''principal must not carry an instance tail '' @ quoted ''#...''"
| "principal_error_display (InvalidAuthority e) = ''authority is empty or malformed: '' @ e"
| "principal_error_display (InvalidName e) = ''name is empty or malformed: '' @ e"
| "principal_error_display MissingNameSeparator = ''missing '' @ quoted ''/'' @ '' between authority and name''"

datatype egress_error =
    EgNotAnObject
  | EgExpiryFormat string
  | EgSign crypto_error
  | EgMissingField string
  | EgBadPrincipal string string

text \<open>\<open>format(&Rfc3339)\<close> and the calendar fields of an instant.\<close>

record time_lib =
  tl_format :: "instant \<Rightarrow> string + string"
  tl_civil :: "instant \<Rightarrow> nat \<times> nat \<times> nat \<times> nat \<times> nat \<times> nat"

definition now_canonical_utc :: "time_lib \<Rightarrow> instant \<Rightarrow> string" where
  "now_canonical_utc tm now = (case tl_civil tm now of (y, mo, d, h, mi, s) \<Rightarrow> format_utc y mo d h mi s)"

record egress_draw =
  dr_now :: instant
  dr_nonce :: uuid
  dr_notify_now :: instant
  dr_id :: uuid

definition federation_expiry :: "time_lib \<Rightarrow> instant \<Rightarrow> egress_error + string" where
  "federation_expiry tm now =
     map_sum EgExpiryFormat strip_subseconds (tl_format tm (now + EXPIRY_WINDOW_MINUTES * 60 * 1000000000))"

text \<open>The value is changed in place: the result comes with what the value then is.\<close>

definition sign_federation_fields ::
  "fed_lib \<Rightarrow> ext_lib \<Rightarrow> time_lib \<Rightarrow> egress_draw \<Rightarrow> json \<Rightarrow> principal \<Rightarrow> principal \<Rightarrow> signing_key \<Rightarrow>
   verifying_key \<Rightarrow> (egress_error + unit) \<times> json" where
  "sign_federation_fields fl lib tm dr v from to sk vk =
     (case as_object v of
        None \<Rightarrow> (Inl EgNotAnObject, v)
      | Some obj \<Rightarrow>
          if map_of obj ''signature'' \<noteq> None then (Inr (), v)
          else (case federation_expiry tm (dr_now dr) of
              Inl e \<Rightarrow> (Inl e, v)
            | Inr expiry \<Rightarrow>
                (let obj = ins_entry ''from_domain'' (JStr (authority from)) obj;
                     obj = ins_entry ''to_domain'' (JStr (authority to)) obj;
                     obj = ins_entry ''sender_key_id'' (JStr (key_id fl vk)) obj;
                     obj = ins_entry ''nonce'' (JStr (uuid_show lib (dr_nonce dr))) obj;
                     obj = ins_entry ''expiry'' (JStr expiry) obj
                 in case sign_value fl lib sk (JObj obj) of
                      Inl e \<Rightarrow> (Inl (EgSign e), JObj obj)
                    | Inr signature \<Rightarrow>
                        (Inr (), JObj (ins_entry ''signature'' (JStr (sig_to_b64url fl signature)) obj)))))"

subsection \<open>Relaying one envelope\<close>

datatype relay_error =
    ReMissingField string
  | ReBadPrincipal string string
  | ReSign egress_error
  | ReEncode string
  | ReTransport http_transport_error
  | ReFromDomainMismatch string string
  | ReClientSuppliedFederationField string

definition parse_principal_field :: "json \<Rightarrow> string \<Rightarrow> relay_error + principal" where
  "parse_principal_field envelope field =
     res_bind (ok_or (ReMissingField field) (jget_str envelope field)) (\<lambda>raw.
     map_err (\<lambda>e. ReBadPrincipal field (principal_error_display e)) (principal_from_str raw))"

fun join_comma :: "string list \<Rightarrow> string" where
  "join_comma [] = []"
| "join_comma [f] = f"
| "join_comma (f # fs) = f @ '', '' @ join_comma fs"

definition owned_fields_present :: "json \<Rightarrow> string list" where
  "owned_fields_present envelope =
     (case as_object envelope of
        None \<Rightarrow> []
      | Some obj \<Rightarrow> filter (\<lambda>field. map_of obj field \<noteq> None) FEDERATION_OWNED_FIELDS)"

definition relay_one ::
  "fed_lib \<Rightarrow> ext_lib \<Rightarrow> time_lib \<Rightarrow> ('u, 'w) http_lib \<Rightarrow> 'u addr_map \<Rightarrow> egress_draw \<Rightarrow> json \<Rightarrow> string \<Rightarrow>
   signing_key \<Rightarrow> verifying_key \<Rightarrow> 'w \<Rightarrow> (relay_error + unit) \<times> json \<times> 'w" where
  "relay_one fl lib tm hl peers dr envelope own_domain sk vk w =
     (case parse_principal_field envelope ''from'' of Inl e \<Rightarrow> (Inl e, envelope, w) | Inr from \<Rightarrow>
     (case parse_principal_field envelope ''to'' of Inl e \<Rightarrow> (Inl e, envelope, w) | Inr to \<Rightarrow>
      if authority from \<noteq> own_domain
      then (Inl (ReFromDomainMismatch own_domain (authority from)), envelope, w)
      else if owned_fields_present envelope \<noteq> []
      then (Inl (ReClientSuppliedFederationField (join_comma (owned_fields_present envelope))), envelope, w)
      else
        (case sign_federation_fields fl lib tm dr envelope from to sk vk of
           (Inl e, envelope') \<Rightarrow> (Inl (ReSign e), envelope', w)
         | (Inr _, envelope') \<Rightarrow>
             (case json_to_vec fl envelope' of
                Inl e \<Rightarrow> (Inl (ReEncode e), envelope', w)
              | Inr b \<Rightarrow>
                  (case transport_send hl peers \<lparr>tm_sender = from, tm_recipient = to, tm_bytes = b\<rparr> w of
                     (r, w') \<Rightarrow> (map_err ReTransport r, envelope', w'))))))"

subsection \<open>Telling the sender\<close>

definition build_relay_failure_ack ::
  "ext_lib \<Rightarrow> uuid \<Rightarrow> json \<Rightarrow> string \<Rightarrow> string \<Rightarrow> string \<Rightarrow> egress_error + json" where
  "build_relay_failure_ack lib i original own_domain detail now =
     res_bind (ok_or (EgMissingField ''from'') (jget_str original ''from'')) (\<lambda>f.
     res_bind (map_err (\<lambda>e. EgBadPrincipal ''from'' (principal_error_display e)) (principal_from_str f)) (\<lambda>original_from.
     res_bind (ok_or (EgMissingField ''to'') (jget_str original ''to'')) (\<lambda>t.
     res_bind (map_err (\<lambda>e. EgBadPrincipal ''to'' (principal_error_display e)) (principal_from_str t)) (\<lambda>original_to.
     (let from = ''agent:'' @ own_domain @ ''/'' @ pname original_to;
          reason = RELAY_FAILURE_REASON_PREFIX @ '' could not relay to '' @ principal_display original_to @ '': '' @ detail
      in Inr (ser_struct
           [(''famp'', Some (JStr FAMP_SPEC_VERSION)), (''id'', Some (JStr (uuid_show lib i))),
            (''from'', Some (JStr from)), (''to'', Some (JStr (principal_display original_from))),
            (''scope'', Some (JStr ''standalone'')), (''class'', Some (JStr ''ack'')),
            (''authority'', Some (JStr ''advisory'')), (''ts'', Some (JStr now)),
            (''body'', Some (ser_struct
              [(''disposition'', Some (JStr ''failed'')), (''reason'', Some (JStr reason))]))]))))))"

definition sender_is_itself_backed :: "string \<Rightarrow> string list \<Rightarrow> bool" where
  "sender_is_itself_backed sender_name backed_names = list_ex (\<lambda>n. n = sender_name) backed_names"

definition notify_relay_failure ::
  "ext_lib \<Rightarrow> time_lib \<Rightarrow> 'w link \<Rightarrow> egress_draw \<Rightarrow> string \<Rightarrow> gateway_registry \<Rightarrow> json \<Rightarrow> string \<Rightarrow> string \<Rightarrow> 'w \<Rightarrow> 'w" where
  "notify_relay_failure lib tm lk dr name reg original own_domain detail w =
     (case jget_str original ''from'' of None \<Rightarrow> w | Some raw \<Rightarrow>
     (case principal_from_str raw of Inl _ \<Rightarrow> w | Inr p \<Rightarrow>
      if sender_is_itself_backed (pname p) (gr_names reg) then w
      else
        (case build_relay_failure_ack lib (dr_id dr) original own_domain detail
                (now_canonical_utc tm (dr_notify_now dr)) of
           Inl _ \<Rightarrow> w
         | Inr ack \<Rightarrow>
             (case gr_get reg name of
                None \<Rightarrow> w
              | Some pp \<Rightarrow> snd (pp_send_recv lk pp (Send (ToAgent (pname p)) ack) w)))))"

subsection \<open>The drain loop\<close>

fun relay_all ::
  "fed_lib \<Rightarrow> ext_lib \<Rightarrow> time_lib \<Rightarrow> ('u, 'w) http_lib \<Rightarrow> 'u addr_map \<Rightarrow> 'w link \<Rightarrow> (relay_error \<Rightarrow> string) \<Rightarrow>
   string \<Rightarrow> gateway_registry \<Rightarrow> string \<Rightarrow> signing_key \<Rightarrow> verifying_key \<Rightarrow> (egress_draw \<times> json) list \<Rightarrow> 'w \<Rightarrow> 'w" where
  "relay_all fl lib tm hl peers lk debug_of name reg own_domain sk vk [] w = w"
| "relay_all fl lib tm hl peers lk debug_of name reg own_domain sk vk ((dr, envelope) # es) w =
     (case relay_one fl lib tm hl peers dr envelope own_domain sk vk w of
        (Inr _, _, w') \<Rightarrow> relay_all fl lib tm hl peers lk debug_of name reg own_domain sk vk es w'
      | (Inl e, envelope', w') \<Rightarrow>
          relay_all fl lib tm hl peers lk debug_of name reg own_domain sk vk es
            (notify_relay_failure lib tm lk dr name reg envelope' own_domain (debug_of e) w'))"

text \<open>One round of \<open>run_egress\<close>, with what its envelopes draw; \<open>None\<close> ends the loop.\<close>

definition egress_round ::
  "fed_lib \<Rightarrow> ext_lib \<Rightarrow> time_lib \<Rightarrow> ('u, 'w) http_lib \<Rightarrow> 'u addr_map \<Rightarrow> 'w link \<Rightarrow> (relay_error \<Rightarrow> string) \<Rightarrow>
   (nat \<Rightarrow> egress_draw) \<Rightarrow> string \<Rightarrow> gateway_registry \<Rightarrow> string \<Rightarrow> signing_key \<Rightarrow> verifying_key \<Rightarrow> 'w \<Rightarrow> 'w option" where
  "egress_round fl lib tm hl peers lk debug_of draws name reg own_domain sk vk w =
     (case gr_get reg name of
        None \<Rightarrow> None
      | Some pp \<Rightarrow>
          (case pp_send_recv lk pp (Await EGRESS_AWAIT_TIMEOUT_MS None) w of
             (reply, w') \<Rightarrow>
               (let envelopes = (case reply of Inr (AwaitOk es _ _) \<Rightarrow> map st_envelope es | _ \<Rightarrow> [])
                in Some (relay_all fl lib tm hl peers lk debug_of name reg own_domain sk vk
                     (zip (map draws [0..<length envelopes]) envelopes) w'))))"

end
