(* ===== verification/Ingress.thy ===== *)
theory Ingress
  imports Guard Keyring Client
begin

text \<open>
  Messages from other hosts (\<open>famp-gateway/src/verify.rs\<close>, \<open>ingress.rs\<close>): verification against the
  pinned keys, the ingest core with its order of checks, the delivery onto the local bus, and the
  HTTP answers of the inbox route. Locks are held for single steps and the requests are modelled
  one after the other.
\<close>

subsection \<open>Verification\<close>

datatype reject_reason =
    RrInvalidSignature
  | RrUnpinnedKey principal
  | RrExpiredKey principal string
  | RrRevokedKey principal "string option"

text \<open>The arm for an active key is \<open>unreachable!\<close> and has no equation: both callers take it first.\<close>

fun reject_for_outcome :: "principal \<Rightarrow> key_lookup_outcome \<Rightarrow> reject_reason" where
  "reject_for_outcome from KlUnpinned = RrUnpinnedKey from"
| "reject_for_outcome from (KlRetired since) = RrUnpinnedKey from"
| "reject_for_outcome from (KlExpired vu) = RrExpiredKey from vu"
| "reject_for_outcome from (KlRevoked since) = RrRevokedKey from since"
| "reject_for_outcome from KlNonCanonicalNow = RrUnpinnedKey from"

definition verify_inbound ::
  "fed_lib \<Rightarrow> ext_lib \<Rightarrow> 'b body_schema \<Rightarrow> bytes \<Rightarrow> keyring \<Rightarrow> string \<Rightarrow>
   reject_reason + 'b signed_envelope" where
  "verify_inbound fl lib B b kr now =
     (case peek_sender lib b of
        Inl _ \<Rightarrow> Inl RrInvalidSignature
      | Inr from \<Rightarrow>
          (case active_key kr from now of
             KlActive vk \<Rightarrow> map_err (\<lambda>_. RrInvalidSignature) (signed_decode fl lib B b vk)
           | outcome \<Rightarrow> Inl (reject_for_outcome from outcome)))"

definition verify_inbound_any ::
  "fed_lib \<Rightarrow> ext_lib \<Rightarrow> bytes \<Rightarrow> keyring \<Rightarrow> string \<Rightarrow> reject_reason + any_signed_envelope" where
  "verify_inbound_any fl lib b kr now =
     (case peek_sender lib b of
        Inl _ \<Rightarrow> Inl RrInvalidSignature
      | Inr from \<Rightarrow>
          (case active_key kr from now of
             KlActive vk \<Rightarrow> map_err (\<lambda>_. RrInvalidSignature) (any_signed_decode fl lib b vk)
           | outcome \<Rightarrow> Inl (reject_for_outcome from outcome)))"

subsection \<open>Accessors\<close>

fun envelope_sender :: "any_signed_envelope \<Rightarrow> principal" where
  "envelope_sender (SignedRequest e) = w_from (inner e)"
| "envelope_sender (SignedCommit e) = w_from (inner e)"
| "envelope_sender (SignedDeliver e) = w_from (inner e)"
| "envelope_sender (SignedAck e) = w_from (inner e)"
| "envelope_sender (SignedControl e) = w_from (inner e)"
| "envelope_sender (SignedAuditLog e) = w_from (inner e)"

fun envelope_recipient :: "any_signed_envelope \<Rightarrow> principal" where
  "envelope_recipient (SignedRequest e) = w_to (inner e)"
| "envelope_recipient (SignedCommit e) = w_to (inner e)"
| "envelope_recipient (SignedDeliver e) = w_to (inner e)"
| "envelope_recipient (SignedAck e) = w_to (inner e)"
| "envelope_recipient (SignedControl e) = w_to (inner e)"
| "envelope_recipient (SignedAuditLog e) = w_to (inner e)"

fun envelope_federation_format_ok :: "any_signed_envelope \<Rightarrow> bool" where
  "envelope_federation_format_ok (SignedRequest e) = federation_format_ok e"
| "envelope_federation_format_ok (SignedCommit e) = federation_format_ok e"
| "envelope_federation_format_ok (SignedDeliver e) = federation_format_ok e"
| "envelope_federation_format_ok (SignedAck e) = federation_format_ok e"
| "envelope_federation_format_ok (SignedControl e) = federation_format_ok e"
| "envelope_federation_format_ok (SignedAuditLog e) = federation_format_ok e"

definition RELAY_WRAPPER_FIELDS :: "string list" where
  "RELAY_WRAPPER_FIELDS =
     [''signature'', ''from_domain'', ''to_domain'', ''sender_key_id'', ''nonce'', ''expiry'',
      ''capability'', ''approval'']"

fun strip_relay_fields :: "json \<Rightarrow> json" where
  "strip_relay_fields (JObj es) = JObj (fold obj_remove RELAY_WRAPPER_FIELDS es)"
| "strip_relay_fields v = v"

subsection \<open>Errors\<close>

datatype ingress_error =
    IeBadPrincipal
  | IeInvalidSignature
  | IeUnpinnedKey principal
  | IeExpiredKey principal string
  | IeRevokedKey principal
  | IeSenderNotBacked
  | IeMisaddressedRecipient principal principal
  | IeForeignDomain string string
  | IeMalformedFederationFields
  | IeBadEnvelopeShape
  | IeStaleTimestamp string string int
  | IeReplayedNonce string string
  | IeMissingNonce string
  | IeRateLimited string nat int
  | IeInternal

definition show_int :: "int \<Rightarrow> string" where
  "show_int k = (if k < 0 then CHR ''-'' # show_nat (nat (- k)) else show_nat (nat k))"

fun ingress_error_display :: "ingress_error \<Rightarrow> string" where
  "ingress_error_display IeBadPrincipal = ''bad principal in inbox path''"
| "ingress_error_display IeInvalidSignature = ''invalid or missing signature''"
| "ingress_error_display (IeUnpinnedKey p) = ''sender principal '' @ quoted (principal_display p) @ '' has no pinned key''"
| "ingress_error_display (IeExpiredKey p vu) = ''sender principal '' @ quoted (principal_display p) @ '' key expired at '' @ vu"
| "ingress_error_display (IeRevokedKey p) = ''sender principal '' @ quoted (principal_display p) @ '' key revoked''"
| "ingress_error_display IeSenderNotBacked = ''verified sender is not backed by this gateway''"
| "ingress_error_display (IeMisaddressedRecipient to r) =
     ''envelope '' @ quoted ''to'' @ '' ('' @ principal_display to @ '') does not match the requested recipient ('' @
     principal_display r @ '')''"
| "ingress_error_display (IeForeignDomain expected got) =
     ''this gateway is not authoritative for domain '' @ quoted got @ '' (configured own-domain: '' @ quoted expected @ '')''"
| "ingress_error_display IeMalformedFederationFields = ''envelope failed federation format validation (nonce/expiry)''"
| "ingress_error_display IeBadEnvelopeShape =
     ''envelope failed pre-verify shape check (malformed JSON, duplicate key, or missing/invalid from/to/ts)''"
| "ingress_error_display (IeStaleTimestamp ts now skew) =
     ''envelope timestamp '' @ ts @ '' is outside this gateway'' @ [CHR 0x27] @ ''s '' @ show_int skew @
     ''s clock-skew window of its own now ('' @ now @ '')''"
| "ingress_error_display (IeReplayedNonce p n) =
     ''nonce '' @ quoted n @ '' from sender '' @ quoted p @ '' was already seen within the replay window''"
| "ingress_error_display (IeMissingNonce p) =
     ''sender '' @ quoted p @ '' submitted an envelope with an absent or empty nonce''"
| "ingress_error_display (IeRateLimited p l w) =
     ''sender '' @ quoted p @ '' exceeded '' @ show_nat l @ '' requests per '' @ show_int w @ ''s''"
| "ingress_error_display IeInternal = ''internal error''"

text \<open>The status code and the JSON body of an answer.\<close>

fun status_and_slug :: "ingress_error \<Rightarrow> nat \<times> string" where
  "status_and_slug IeBadPrincipal = (400, ''bad_principal'')"
| "status_and_slug IeInvalidSignature = (400, ''invalid_signature'')"
| "status_and_slug (IeUnpinnedKey p) = (403, ''unpinned_key'')"
| "status_and_slug (IeExpiredKey p vu) = (403, ''expired_key'')"
| "status_and_slug (IeRevokedKey p) = (403, ''revoked_key'')"
| "status_and_slug IeSenderNotBacked = (502, ''sender_not_backed'')"
| "status_and_slug (IeMisaddressedRecipient to r) = (400, ''misaddressed_recipient'')"
| "status_and_slug (IeForeignDomain e g) = (403, ''foreign_domain'')"
| "status_and_slug IeMalformedFederationFields = (400, ''malformed_federation_fields'')"
| "status_and_slug IeBadEnvelopeShape = (400, ''bad_envelope_shape'')"
| "status_and_slug (IeStaleTimestamp ts now k) = (400, ''stale_timestamp'')"
| "status_and_slug (IeReplayedNonce p n) = (400, ''replayed_nonce'')"
| "status_and_slug (IeMissingNonce p) = (400, ''missing_nonce'')"
| "status_and_slug (IeRateLimited p l w) = (429, ''rate_limited'')"
| "status_and_slug IeInternal = (500, ''internal'')"

definition into_response :: "ingress_error \<Rightarrow> nat \<times> json option" where
  "into_response e =
     (fst (status_and_slug e),
      Some (JObj [(''detail'', JStr (ingress_error_display e)), (''error'', JStr (snd (status_and_slug e)))]))"

fun ingress_error_for_reject :: "reject_reason \<Rightarrow> ingress_error" where
  "ingress_error_for_reject RrInvalidSignature = IeInvalidSignature"
| "ingress_error_for_reject (RrUnpinnedKey p) = IeUnpinnedKey p"
| "ingress_error_for_reject (RrExpiredKey p vu) = IeExpiredKey p vu"
| "ingress_error_for_reject (RrRevokedKey p since) = IeRevokedKey p"

fun ingress_error_for_guard :: "guard_reject \<Rightarrow> ingress_error" where
  "ingress_error_for_guard GrBadEnvelopeShape = IeBadEnvelopeShape"
| "ingress_error_for_guard (GrStaleTimestamp ts now k) = IeStaleTimestamp ts now k"
| "ingress_error_for_guard (GrReplayedNonce p n) = IeReplayedNonce p n"
| "ingress_error_for_guard (GrMissingNonce p) = IeMissingNonce p"
| "ingress_error_for_guard (GrForeignDomain e g) = IeForeignDomain e g"
| "ingress_error_for_guard (GrSenderNotBacked p) = IeSenderNotBacked"
| "ingress_error_for_guard (GrRateLimited p l w) = IeRateLimited p l w"

subsection \<open>The ingest core\<close>

record gateway_ingress_state =
  gw_registry :: gateway_registry
  gw_keyring :: keyring
  gw_own_domain :: string
  gw_guard :: ingress_guard

definition check_audience_and_format :: "any_signed_envelope \<Rightarrow> principal \<Rightarrow> ingress_error + unit" where
  "check_audience_and_format e recipient =
     (if envelope_recipient e \<noteq> recipient
      then Inl (IeMisaddressedRecipient (envelope_recipient e) recipient)
      else if \<not> envelope_federation_format_ok e then Inl IeMalformedFederationFields
      else Inr ())"

definition deliver ::
  "ext_lib \<Rightarrow> 'w link \<Rightarrow> principal \<Rightarrow> principal \<Rightarrow> bytes \<Rightarrow> gateway_registry \<Rightarrow> 'w \<Rightarrow>
   (ingress_error + unit) \<times> 'w" where
  "deliver lib lk sender recipient body reg w =
     (case from_slice lib body of
        Inl _ \<Rightarrow> (Inl IeInternal, w)
      | Inr value \<Rightarrow>
          (case gr_get reg (pname sender) of
             None \<Rightarrow> (Inl IeSenderNotBacked, w)
           | Some p \<Rightarrow>
               (case pp_send_recv lk p (Send (ToAgent (pname recipient)) (strip_relay_fields value)) w of
                  (Inr (SendOk _ _), w') \<Rightarrow> (Inr (), w')
                | (_, w') \<Rightarrow> (Inl IeInternal, w'))))"

definition ingest_inbound_at ::
  "fed_lib \<Rightarrow> ext_lib \<Rightarrow> rfc3339 \<Rightarrow> 'w link \<Rightarrow> principal \<Rightarrow> bytes \<Rightarrow> string \<Rightarrow>
   gateway_ingress_state \<Rightarrow> 'w \<Rightarrow> (ingress_error + unit) \<times> gateway_ingress_state \<times> 'w" where
  "ingest_inbound_at fl lib rfc lk recipient body now s w =
     (case peek_guard_fields lib body of
        Inl reject \<Rightarrow> (Inl (ingress_error_for_guard reject), s, w)
      | Inr pk \<Rightarrow>
          (let backed = (gr_get (gw_registry s) (pname (pk_from pk)) \<noteq> None);
               input = \<lparr>peeked = pk, gi_now = now, gi_own_domain = gw_own_domain s, sender_is_backed = backed\<rparr>
           in case run_cheap_gates rfc input (gw_guard s) of
                (Inl reject, g) \<Rightarrow> (Inl (ingress_error_for_guard reject), s\<lparr>gw_guard := g\<rparr>, w)
              | (Inr _, g) \<Rightarrow>
                  (let s' = s\<lparr>gw_guard := g\<rparr> in
                   case verify_inbound_any fl lib body (gw_keyring s) now of
                     Inl reason \<Rightarrow> (Inl (ingress_error_for_reject reason), s', w)
                   | Inr e \<Rightarrow>
                       (case check_audience_and_format e recipient of
                          Inl err \<Rightarrow> (Inl err, s', w)
                        | Inr _ \<Rightarrow>
                            (case deliver lib lk (envelope_sender e) recipient body (gw_registry s) w of
                               (r, w') \<Rightarrow> (r, s', w'))))))"

definition inbox_handler ::
  "fed_lib \<Rightarrow> ext_lib \<Rightarrow> rfc3339 \<Rightarrow> 'w link \<Rightarrow> string \<Rightarrow> bytes \<Rightarrow> string \<Rightarrow>
   gateway_ingress_state \<Rightarrow> 'w \<Rightarrow> (nat \<times> json option) \<times> gateway_ingress_state \<times> 'w" where
  "inbox_handler fl lib rfc lk principal_str body now s w =
     (case principal_from_str principal_str of
        Inl _ \<Rightarrow> (into_response IeBadPrincipal, s, w)
      | Inr recipient \<Rightarrow>
          (case ingest_inbound_at fl lib rfc lk recipient body now s w of
             (Inr _, s', w') \<Rightarrow> ((202, None), s', w')
           | (Inl e, s', w') \<Rightarrow> (into_response e, s', w')))"

end
