(* ===== verification/Relayed.thy ===== *)
theory Relayed
  imports Ingress
begin

text \<open>
  What happens to an envelope on its way from the wire to the local bus: which fields the gateway
  peeked, what a successful ingest has checked, and that the stripped envelope is one that the bus
  decodes, to the same sender and class.
\<close>

subsection \<open>Stripping the wrapper\<close>

lemma fold_obj_remove: "fold obj_remove ks es = filter (\<lambda>(k, v). k \<notin> set ks) es"
proof (induction ks arbitrary: es)
  case (Cons j ks)
  have "filter (\<lambda>(k, v). k \<notin> set ks) (obj_remove j es) = filter (\<lambda>(k, v). k \<notin> set (j # ks)) es"
    unfolding obj_remove_def filter_filter by (rule filter_cong) auto
  then show ?case using Cons by simp
qed simp

definition relay_stripped :: "(string \<times> json) list \<Rightarrow> (string \<times> json) list" where
  "relay_stripped es = filter (\<lambda>(k, v). k \<notin> set RELAY_WRAPPER_FIELDS) es"

lemma strip_relay_fields_JObj: "strip_relay_fields (JObj es) = JObj (relay_stripped es)"
  by (simp add: relay_stripped_def fold_obj_remove)

lemma map_of_filter_keys: "map_of (filter (\<lambda>(k, v). P k) es) n = (if P n then map_of es n else None)"
  by (induction es) auto

lemma check_entries_filter: "check_entries fs es = None \<Longrightarrow> check_entries fs (filter P es) = None"
  by (induction fs es rule: check_entries.induct) (auto split: option.splits prod.splits)

lemma missing_field_filter:
  "missing_field fs es = None \<Longrightarrow> (\<And>n chk. (n, False, chk) \<in> set fs \<Longrightarrow> P n) \<Longrightarrow>
   missing_field fs (filter (\<lambda>(k, v). P k) es) = None"
proof (induction fs es rule: missing_field.induct)
  case (2 n om chk fs es)
  then show ?case by (auto simp: map_of_filter_keys split: if_splits)
qed simp

lemma de_struct_filter:
  assumes "de_struct fs (JObj es) = Inr r" "\<And>n chk. (n, False, chk) \<in> set fs \<Longrightarrow> P n"
  shows "de_struct fs (JObj (filter (\<lambda>(k, v). P k) es)) = Inr (filter (\<lambda>(k, v). P k) es)"
proof -
  have "check_entries fs es = None" "missing_field fs es = None"
    using assms(1) by (auto split: option.splits)
  then show ?thesis using check_entries_filter missing_field_filter assms(2) by simp
qed

lemma req_filter: "P n \<Longrightarrow> req (filter (\<lambda>(k, v). P k) es) n d = req es n d"
  and opt_filter: "P n \<Longrightarrow> opt (filter (\<lambda>(k, v). P k) es) n d = opt es n d"
  and opt_gone: "\<not> P n \<Longrightarrow> opt (filter (\<lambda>(k, v). P k) es) n d = Inr None"
  by (simp_all add: req_def opt_def map_of_filter_keys)

lemma relay_required: "(n, False, chk) \<in> set (wire_fields lib d) \<Longrightarrow> n \<notin> set RELAY_WRAPPER_FIELDS"
  by (auto simp: wire_fields_def req_field_def opt_field_def RELAY_WRAPPER_FIELDS_def)

text \<open>The envelope without the fields a relay adds.\<close>

definition unwrapped :: "'b wire_envelope \<Rightarrow> 'b wire_envelope" where
  "unwrapped w = w\<lparr>w_from_domain := None, w_to_domain := None, w_sender_key_id := None, w_nonce := None,
     w_expiry := None, w_capability := None, w_approval := None\<rparr>"

lemma relay_stripped_signature:
  "relay_stripped es = filter (\<lambda>(k, v). k \<notin> set RELAY_WRAPPER_FIELDS) (obj_remove ''signature'' es)"
  unfolding relay_stripped_def obj_remove_def filter_filter
  by (rule filter_cong) (auto simp: RELAY_WRAPPER_FIELDS_def)

lemma req_stripped:
  "n \<notin> set RELAY_WRAPPER_FIELDS \<Longrightarrow> req (relay_stripped es) n d = req (obj_remove ''signature'' es) n d"
  unfolding relay_stripped_signature by (rule req_filter)

lemma opt_stripped:
  "opt (relay_stripped es) n d =
     (if n \<in> set RELAY_WRAPPER_FIELDS then Inr None else opt (obj_remove ''signature'' es) n d)"
  unfolding relay_stripped_signature by (simp add: opt_filter opt_gone)

lemma de_wire_stripped:
  assumes "de_wire lib d (JObj (obj_remove ''signature'' es)) = Inr w"
  shows "de_wire lib d (JObj (relay_stripped es)) = Inr (unwrapped w)"
proof -
  let ?es = "obj_remove ''signature'' es"
  obtain r where r: "de_struct (wire_fields lib d) (JObj ?es) = Inr r"
    using assms unfolding de_wire_def by (cases "de_struct (wire_fields lib d) (JObj ?es)") auto
  have re: "r = ?es" using de_struct_JObj_known(1) [OF r] .
  have s: "de_struct (wire_fields lib d) (JObj (relay_stripped es)) = Inr (relay_stripped es)"
    unfolding relay_stripped_signature by (rule de_struct_filter [OF r]) (rule relay_required)
  note w = assms [unfolded de_wire_def r re res_bind.simps res_bind_Inr_iff sum.inject]
  show ?thesis
    unfolding de_wire_def s res_bind.simps
    using w
    by (elim exE conjE, hypsubst) (simp add: req_stripped opt_stripped RELAY_WRAPPER_FIELDS_def unwrapped_def)
qed

lemma bus_decode_stripped:
  assumes "signed_decode_value fl lib B (JObj es) vk = Inr s" "parse_value lib line = Inr (JObj (relay_stripped es))"
  shows "bus_decode lib B line = Inr (unwrapped (inner s))"
  using assms(1)
proof (cases rule: signed_decode_value_InrE)
  case (1 obj sig_str)
  have "de_wire lib (de_body B) (JObj (relay_stripped es)) = Inr (unwrapped (inner s))"
    using 1(1,6) by (intro de_wire_stripped) (simp add: SIGNATURE_FIELD_def)
  moreover have "map_of (relay_stripped es) ''signature'' = None" "map_of (relay_stripped es) ''famp'' = map_of es ''famp''"
    by (simp_all add: relay_stripped_def map_of_filter_keys RELAY_WRAPPER_FIELDS_def)
  moreover have "map_of es ''famp'' = Some (JStr FAMP_SPEC_VERSION)"
    using 1(1,5) by (simp add: map_of_obj_remove SIGNATURE_FIELD_def)
  ultimately show ?thesis
    using assms(2) 1(7-9) by (simp add: bus_decode_def check_famp_def unwrapped_def)
qed

lemma relayed_decodes:
  assumes "any_signed_decode fl lib body vk = Inr e" "parse_value lib body = Inr (JObj es)"
    and "parse_value lib line = Inr (JObj (relay_stripped es))"
  obtains e' where "any_bus_decode lib line = Inr e'" "bus_from e' = any_from e" "bus_class e' = signed_class e"
proof -
  obtain c where c: "jget_str (JObj es) ''class'' = Some c"
    using assms(1,2) unfolding any_signed_decode_def by (cases "jget_str (JObj es) ''class''") auto
  have c': "jget_str (JObj (relay_stripped es)) ''class'' = Some c"
    using c by (simp add: jget_str_def relay_stripped_def map_of_filter_keys RELAY_WRAPPER_FIELDS_def)
  note b = bus_decode_stripped [OF _ assms(3)]
  have "\<exists>e'. any_bus_decode lib line = Inr e' \<and> bus_from e' = any_from e \<and> bus_class e' = signed_class e"
    using assms(1,2,3) c c'
    by (auto simp: any_signed_decode_def any_bus_decode_def map_sum_Inr_iff unwrapped_def
        split: if_splits dest!: b)
  then show thesis using that by blast
qed

end
