(* ===== verification/Stamped.thy ===== *)
theory Stamped
  imports Egress Relayed
begin

text \<open>
  What the fields that the gateway adds on the way out do to an envelope: the stamped and signed
  envelope decodes under the gateway's key, to the envelope that was drained from the bus with those
  fields, and stripping them on the other side gives the drained envelope back.
\<close>

definition stamp_fields :: "string \<Rightarrow> string \<Rightarrow> string \<Rightarrow> string \<Rightarrow> string \<Rightarrow> (string \<times> json) list \<Rightarrow> (string \<times> json) list" where
  "stamp_fields fd td kid nonce expiry es =
     ins_entry ''expiry'' (JStr expiry) (ins_entry ''nonce'' (JStr nonce) (ins_entry ''sender_key_id'' (JStr kid)
       (ins_entry ''to_domain'' (JStr td) (ins_entry ''from_domain'' (JStr fd) es))))"

definition stamped_wire :: "string \<Rightarrow> string \<Rightarrow> string \<Rightarrow> string \<Rightarrow> string \<Rightarrow> 'b wire_envelope \<Rightarrow> 'b wire_envelope" where
  "stamped_wire fd td kid nonce expiry w =
     w\<lparr>w_from_domain := Some fd, w_to_domain := Some td, w_sender_key_id := Some kid, w_nonce := Some nonce,
       w_expiry := Some expiry\<rparr>"

lemma set_ins_entry: "set (ins_entry k v es) \<subseteq> insert (k, v) (set es)"
  by (induction k v es rule: ins_entry.induct) auto

lemma check_entries_None_iff:
  "check_entries fs es = None \<longleftrightarrow> (\<forall>(k, v) \<in> set es. \<exists>om chk. map_of fs k = Some (om, chk) \<and> chk v = None)"
  by (induction fs es rule: check_entries.induct) (auto split: option.splits)

lemma check_entries_ins:
  "check_entries fs es = None \<Longrightarrow> map_of fs k = Some (om, chk) \<Longrightarrow> chk v = None \<Longrightarrow>
   check_entries fs (ins_entry k v es) = None"
  using set_ins_entry [of k v es] unfolding check_entries_None_iff by fastforce

lemma missing_field_ins: "missing_field fs es = None \<Longrightarrow> missing_field fs (ins_entry k v es) = None"
  by (induction fs es rule: missing_field.induct) (auto simp: map_of_ins_entry split: if_splits)

lemma de_struct_ins:
  assumes "de_struct fs (JObj es) = Inr es" "map_of fs k = Some (om, chk)" "chk v = None"
  shows "de_struct fs (JObj (ins_entry k v es)) = Inr (ins_entry k v es)"
  using assms check_entries_ins [OF _ assms(2,3)] missing_field_ins by (auto split: option.splits)

lemma wire_field_of:
  "map_of (wire_fields lib d) ''from_domain'' = Some (True, \<lambda>v. err_of (de_option de_string v))"
  "map_of (wire_fields lib d) ''to_domain'' = Some (True, \<lambda>v. err_of (de_option de_string v))"
  "map_of (wire_fields lib d) ''sender_key_id'' = Some (True, \<lambda>v. err_of (de_option de_string v))"
  "map_of (wire_fields lib d) ''nonce'' = Some (True, \<lambda>v. err_of (de_option de_string v))"
  "map_of (wire_fields lib d) ''expiry'' = Some (True, \<lambda>v. err_of (de_option de_timestamp v))"
  by (simp_all add: wire_fields_def req_field_def opt_field_def)

lemma de_struct_stamped:
  assumes "de_struct (wire_fields lib d) (JObj es) = Inr es" "shallow_validate expiry"
  shows "de_struct (wire_fields lib d) (JObj (stamp_fields fd td kid nonce expiry es)) =
    Inr (stamp_fields fd td kid nonce expiry es)"
  unfolding stamp_fields_def
  by (intro de_struct_ins [OF _ wire_field_of(5)] de_struct_ins [OF _ wire_field_of(4)]
      de_struct_ins [OF _ wire_field_of(3)] de_struct_ins [OF _ wire_field_of(2)]
      de_struct_ins [OF _ wire_field_of(1)] assms(1))
    (use assms(2) in \<open>simp_all add: de_timestamp_def de_parsed_def\<close>)

lemma req_stamped:
  "n \<notin> {''from_domain'', ''to_domain'', ''sender_key_id'', ''nonce'', ''expiry''} \<Longrightarrow>
   req (stamp_fields fd td kid nonce expiry es) n d = req es n d"
  by (simp add: req_def stamp_fields_def map_of_ins_entry)

lemma opt_stamped:
  "n \<notin> {''from_domain'', ''to_domain'', ''sender_key_id'', ''nonce'', ''expiry''} \<Longrightarrow>
   opt (stamp_fields fd td kid nonce expiry es) n d = opt es n d"
  by (simp add: opt_def stamp_fields_def map_of_ins_entry)

lemma opt_stamped_new:
  "opt (stamp_fields fd td kid nonce expiry es) ''from_domain'' de_string = Inr (Some fd)"
  "opt (stamp_fields fd td kid nonce expiry es) ''to_domain'' de_string = Inr (Some td)"
  "opt (stamp_fields fd td kid nonce expiry es) ''sender_key_id'' de_string = Inr (Some kid)"
  "opt (stamp_fields fd td kid nonce expiry es) ''nonce'' de_string = Inr (Some nonce)"
  "shallow_validate expiry \<Longrightarrow>
   opt (stamp_fields fd td kid nonce expiry es) ''expiry'' de_timestamp = Inr (Some expiry)"
  by (simp_all add: opt_def stamp_fields_def map_of_ins_entry de_timestamp_def de_parsed_def)

lemma de_wire_stamped:
  assumes "de_wire lib d (JObj es) = Inr w" "shallow_validate expiry"
  shows "de_wire lib d (JObj (stamp_fields fd td kid nonce expiry es)) = Inr (stamped_wire fd td kid nonce expiry w)"
proof -
  obtain r where r: "de_struct (wire_fields lib d) (JObj es) = Inr r"
    using assms unfolding de_wire_def by (cases "de_struct (wire_fields lib d) (JObj es)") auto
  have re: "r = es" using de_struct_JObj_known(1) [OF r] .
  note s = de_struct_stamped [OF r [unfolded re] assms(2)]
  note w = assms(1) [unfolded de_wire_def r re res_bind.simps res_bind_Inr_iff sum.inject]
  show ?thesis
    unfolding de_wire_def s res_bind.simps
    using w
    by (elim exE conjE, hypsubst) (simp add: req_stamped opt_stamped opt_stamped_new assms(2) stamped_wire_def)
qed

text \<open>The stamped object with its signature, as it is posted.\<close>

definition posted :: "fed_lib \<Rightarrow> signature \<Rightarrow> (string \<times> json) list \<Rightarrow> (string \<times> json) list" where
  "posted fl sig es = ins_entry ''signature'' (JStr (sig_to_b64url fl sig)) es"

lemma relay_stripped_ins:
  "k \<in> set RELAY_WRAPPER_FIELDS \<Longrightarrow> relay_stripped (ins_entry k v es) = relay_stripped es"
proof (induction k v es rule: ins_entry.induct)
  case (2 k v j w es)
  then show ?case by (auto simp: relay_stripped_def)
qed (simp add: relay_stripped_def)

lemma relay_stripped_posted:
  assumes "set (map fst es) \<inter> set RELAY_WRAPPER_FIELDS = {}"
  shows "relay_stripped (posted fl sig (stamp_fields fd td kid nonce expiry es)) = es"
proof -
  have "relay_stripped es = es"
    unfolding relay_stripped_def using assms by (intro filter_True) force
  then show ?thesis
    unfolding posted_def stamp_fields_def
    by (simp add: relay_stripped_ins RELAY_WRAPPER_FIELDS_def)
qed

lemma json_wf_ins: "json_wf (JObj es) \<Longrightarrow> json_wf v \<Longrightarrow> json_wf (JObj (ins_entry k v es))"
  using sorted_ins_entry [of es k v] set_ins_entry [of k v es] by (fastforce simp: list_all_iff)

lemma json_wf_posted: "json_wf (JObj es) \<Longrightarrow> json_wf (JObj (posted fl sig (stamp_fields fd td kid nonce expiry es)))"
  unfolding posted_def stamp_fields_def by (intro json_wf_ins) simp_all

lemma signed_decode_posted:
  assumes "bus_decode lib B line = Inr w" "parse_value lib line = Inr (JObj es)" "honest_signer fl sk"
    and "shallow_validate expiry" "sign_value fl lib sk (JObj (stamp_fields fd td kid nonce expiry es)) = Inr sig"
  shows "signed_decode_value fl lib B (JObj (posted fl sig (stamp_fields fd td kid nonce expiry es))) (sk_verifying_key fl sk) =
    Inr \<lparr>inner = stamped_wire fd td kid nonce expiry w, se_signature = sig\<rparr>"
proof -
  let ?es = "stamp_fields fd td kid nonce expiry es"
  obtain fs where "parse_value lib line = Inr (JObj fs)" and fs: "map_of fs ''signature'' = None"
    "map_of fs ''famp'' = Some (JStr FAMP_SPEC_VERSION)" "de_wire lib (de_body B) (JObj fs) = Inr w"
    "w_class w = CLASS B" "w_scope w = SCOPE B" "post_decode_validate B (w_body w) (w_terminal_status w) = Inr ()"
    using bus_decode_InrD [OF assms(1)] by blast
  then have f: "fs = es" using assms(2) by simp
  have "''signature'' \<notin> set (map fst ?es)"
    using fs(1) f by (simp only: stamp_fields_def keys_ins_entry) (simp add: map_of_eq_None_iff)
  then have r: "obj_remove ''signature'' (posted fl sig ?es) = ?es"
    unfolding posted_def by (rule obj_remove_ins_entry)
  have "check_famp ?es = None"
    using fs(2) f by (simp add: check_famp_None_iff stamp_fields_def map_of_ins_entry)
  moreover have "map_of (posted fl sig ?es) ''signature'' = Some (JStr (sig_to_b64url fl sig))"
    by (simp add: posted_def map_of_ins_entry)
  moreover note de_wire_stamped [OF fs(3) [unfolded f] assms(4), of fd td kid nonce]
  ultimately show ?thesis
    using signed_value_verifies [OF assms(3,5)] fs(4-) r
    by (simp add: signed_decode_value_def SIGNATURE_FIELD_def Let_def stamped_wire_def)
qed

lemma posted_decodes:
  assumes "any_bus_decode lib line = Inr e" "parse_value lib line = Inr (JObj es)" "honest_signer fl sk"
    and "shallow_validate expiry" "sign_value fl lib sk (JObj (stamp_fields fd td kid nonce expiry es)) = Inr sig"
    and "parse_value lib b = Inr (JObj (posted fl sig (stamp_fields fd td kid nonce expiry es)))"
  obtains e' where "any_signed_decode fl lib b (sk_verifying_key fl sk) = Inr e'" "any_from e' = bus_from e"
    "signed_class e' = bus_class e"
proof -
  obtain c where c: "jget_str (JObj es) ''class'' = Some c"
    using assms(1,2) unfolding any_bus_decode_def by (cases "jget_str (JObj es) ''class''") auto
  then have c': "jget_str (JObj (posted fl sig (stamp_fields fd td kid nonce expiry es))) ''class'' = Some c"
    by (simp add: jget_str_def posted_def stamp_fields_def map_of_ins_entry)
  note d = signed_decode_posted [OF _ assms(2-5)]
  have "\<exists>e'. any_signed_decode fl lib b (sk_verifying_key fl sk) = Inr e' \<and> any_from e' = bus_from e \<and>
      signed_class e' = bus_class e"
    using assms(1,2,6) c c'
    by (auto simp: any_signed_decode_def any_bus_decode_def map_sum_Inr_iff stamped_wire_def
        split: if_splits dest!: d)
  then show thesis using that by blast
qed

subsection \<open>What a relayed envelope has passed\<close>

lemma sign_federationE:
  assumes "sign_federation_fields fl lib tm dr v from to sk vk = (Inr (), v')"
  obtains (already) es where "v = JObj es" "map_of es ''signature'' \<noteq> None" "v' = v"
  | (signed) es expiry sig where "v = JObj es" "map_of es ''signature'' = None"
      "federation_expiry tm (dr_now dr) = Inr expiry"
      "sign_value fl lib sk (JObj (stamp_fields (authority from) (authority to) (key_id fl vk)
         (uuid_show lib (dr_nonce dr)) expiry es)) = Inr sig"
      "v' = JObj (posted fl sig (stamp_fields (authority from) (authority to) (key_id fl vk)
         (uuid_show lib (dr_nonce dr)) expiry es))"
proof (cases "as_object v")
  case None
  then show thesis using assms by (simp add: sign_federation_fields_def)
next
  case (Some es)
  then have v: "v = JObj es" by (cases v) simp_all
  show thesis
  proof (cases "map_of es ''signature'' = None")
    case False
    then show thesis using assms v by (intro already) (auto simp: sign_federation_fields_def)
  next
    case True
    then show thesis
      using assms v
      by (auto simp: sign_federation_fields_def Let_def stamp_fields_def posted_def
          split: sum.splits intro!: signed)
  qed
qed

lemma transport_sendE:
  assumes "transport_send hl peers msg w = (r, w')"
  obtains (unsent) e where "r = Inl e" "w' = w"
  | (sent) base url res where "bt_get peers (tm_recipient msg) = Some base"
      "hl_segments hl base [''famp'', ''v0.5.1'', ''inbox'', principal_display (tm_recipient msg)] = Some url"
      "hl_post hl url [(''content-type'', ''application/famp+json'')] (tm_bytes msg) w = (res, w')"
      "r = Inr () \<longleftrightarrow> (\<exists>t. res = Inr (202, t))"
proof (cases "bt_get peers (tm_recipient msg)")
  case None
  then show thesis using assms by (intro unsent) (auto simp: transport_send_def)
next
  case b: (Some base)
  show thesis
  proof (cases "hl_segments hl base [''famp'', ''v0.5.1'', ''inbox'', principal_display (tm_recipient msg)]")
    case None
    then show thesis using assms b by (intro unsent) (auto simp: transport_send_def)
  next
    case (Some url)
    then show thesis
      using assms b by (auto simp: transport_send_def split: prod.splits sum.splits if_splits intro!: sent)
  qed
qed

lemma parse_principal_field_Inr:
  "parse_principal_field v k = Inr p \<longleftrightarrow> jget_str v k = Some (principal_display p) \<and> wf_principal p"
  by (auto simp: parse_principal_field_def res_bind_Inr_iff principal_from_str_Inr_iff)

end
