(* ===== verification/GuardRun.thy ===== *)
theory GuardRun
  imports Guard
begin

text \<open>
  The guard over a sequence of requests: how each gate moves the state, how many requests of a
  sender a limiter can still admit, which entries of the replay cache stay, and what a flood of
  foreign nonces does to them.
\<close>

fun gate_run ::
  "rfc3339 \<Rightarrow> guard_input list \<Rightarrow> ingress_guard \<Rightarrow> (guard_reject + unit) list \<times> ingress_guard" where
  "gate_run rfc [] g = ([], g)"
| "gate_run rfc (i # is) g =
     (case run_cheap_gates rfc i g of (r, g') \<Rightarrow> (case gate_run rfc is g' of (rs, h) \<Rightarrow> (r # rs, h)))"

abbreviation claimed :: "guard_input \<Rightarrow> string" where
  "claimed i \<equiv> pname (pk_from (peeked i))"

lemma gate_run_append:
  "snd (gate_run rfc (xs @ ys) g) = snd (gate_run rfc ys (snd (gate_run rfc xs g)))"
  by (induction xs arbitrary: g) (auto simp: split_beta)

lemma int_div_less_iff:
  fixes d q k :: int
  assumes "0 < q"
  shows "d div q < k \<longleftrightarrow> d < k * q"
proof -
  have b: "d div q * q \<le> d" "d < (d div q + 1) * q"
    using pos_mod_bound [OF assms, of d] pos_mod_sign [OF assms, of d] div_mult_mod_eq [of d q]
    unfolding distrib_right mult_1 by linarith+
  show ?thesis
  proof
    assume "d div q < k"
    then have "(d div q + 1) * q \<le> k * q" using assms by (intro mult_right_mono) auto
    then show "d < k * q" using b by linarith
  next
    assume "d < k * q"
    then have "d div q * q < k * q" using b by linarith
    then show "d div q < k" using assms by simp
  qed
qed

lemma whole_seconds_less: "0 < k \<Longrightarrow> whole_seconds d < k \<longleftrightarrow> d < k * 1000000000"
proof (cases "0 \<le> d")
  case True
  assume "0 < k"
  have "whole_seconds d = d div 1000000000" using True by (simp add: whole_seconds_def signed_divide_int_def sgn_if)
  then show ?thesis by (simp add: int_div_less_iff)
next
  case False
  assume "0 < k"
  have "whole_seconds d \<le> 0"
    using False by (simp add: whole_seconds_def signed_divide_int_def pos_imp_zdiv_nonneg_iff)
  then show ?thesis using False \<open>0 < k\<close> by linarith
qed

lemma whole_seconds_ge: "0 < k \<Longrightarrow> k \<le> whole_seconds d \<longleftrightarrow> k * 1000000000 \<le> d"
  using whole_seconds_less [of k d] by linarith

lemma live_iff: "live now t \<longleftrightarrow> now - t < 600 * 1000000000"
  by (simp add: live_def REPLAY_CACHE_TTL_SECS_def whole_seconds_less)

text \<open>The effect of the chain on the state: nothing, or a recorded sighting and perhaps an admission.\<close>

lemma gates_cases:
  assumes "run_cheap_gates rfc i g = (r, g')"
  obtains (refused) e where "r = Inl e" "g' = g"
  | (replayed) e n t where "pk_nonce (peeked i) = Some n" "rfc (gi_now i) = Some t"
      "record_nonce (claimed i) n t (replay g) = (Inl e, replay g')" "r = Inl e" "rate g' = rate g"
  | (recorded) n t where "pk_nonce (peeked i) = Some n" "rfc (gi_now i) = Some t"
      "record_nonce (claimed i) n t (replay g) = (Inr (), replay g')"
      "admit (claimed i) t (rate g) = (r, rate g')"
proof (cases "audience_check i")
  case aud: (Inr u)
  show thesis
  proof (cases "freshness_check rfc (pk_ts (peeked i)) (gi_now i) CLOCK_SKEW_WINDOW_SECS")
    case (Inr v)
    with assms aud show thesis
      by (auto simp: run_cheap_gates_def intro: that split: sum.splits option.splits prod.splits)
  next
    case (Inl e)
    then show thesis using assms aud by (intro that(1) [of e]) (simp_all add: run_cheap_gates_def)
  qed
next
  case (Inl e)
  then show thesis using assms by (intro that(1) [of e]) (simp_all add: run_cheap_gates_def)
qed

subsection \<open>The rate limit\<close>

lemma admit_other: "s' \<noteq> s \<Longrightarrow> bt_get (snd (admit s t l)) s' = bt_get l s'"
  by (simp add: admit_def Let_def)

definition bucket :: "rate_limiter \<Rightarrow> string \<Rightarrow> instant \<Rightarrow> instant \<times> nat" where
  "bucket l s t = (case bt_get l s of None \<Rightarrow> (t, 0) | Some b \<Rightarrow> b)"

lemma admit_bucket:
  "admit s t l =
     (if fst (bucket l s t) + 60 * 1000000000 \<le> t then (Inr (), bt_insert s (t, 1) l)
      else if snd (bucket l s t) < 120 then (Inr (), bt_insert s (fst (bucket l s t), snd (bucket l s t) + 1) l)
      else (Inl (GrRateLimited s 120 60), bt_insert s (bucket l s t) l))"
  by (auto simp: admit_def bucket_def Let_def whole_seconds_ge RATE_LIMIT_WINDOW_SECS_def
      RATE_LIMIT_MAX_PER_WINDOW_def)

fun admissions :: "rfc3339 \<Rightarrow> string \<Rightarrow> guard_input list \<Rightarrow> ingress_guard \<Rightarrow> nat" where
  "admissions rfc s [] g = 0"
| "admissions rfc s (i # is) g =
     (case run_cheap_gates rfc i g of (r, g') \<Rightarrow>
        (if claimed i = s \<and> is_ok r then 1 else 0) + admissions rfc s is g')"

lemma gates_rate:
  assumes "run_cheap_gates rfc i g = (r, g')"
  obtains (other) "bt_get (rate g') s = bt_get (rate g) s" "\<not> (claimed i = s \<and> is_ok r)"
  | (tried) t where "claimed i = s" "rfc (gi_now i) = Some t" "(r, rate g') = admit s t (rate g)"
  using assms
proof (cases rule: gates_cases)
  case (recorded n t)
  show thesis
  proof (cases "claimed i = s")
    case True
    then show thesis using recorded by (auto intro: that(2))
  next
    case False
    then have "bt_get (rate g') s = bt_get (rate g) s" using recorded(4) by (metis admit_other snd_conv)
    then show thesis using False by (auto intro: that(1))
  qed
qed (auto intro: that(1))

lemma admit_cases:
  assumes "(r, l') = admit s t l" "bt_get l s = Some (w, c)"
  obtains (reset) "r = Inr ()" "bt_get l' s = Some (t, 1)" "w + 60000000000 \<le> t"
  | (count) "r = Inr ()" "bt_get l' s = Some (w, c + 1)" "c < 120"
  | (full) "\<not> is_ok r" "bt_get l' s = Some (w, c)"
proof -
  have b: "bucket l s t = (w, c)" using assms(2) by (simp add: bucket_def)
  show thesis
  proof (cases "w + 60000000000 \<le> t")
    case True
    then show thesis using assms(1) b by (intro that(1)) (simp_all add: admit_bucket)
  next
    case False
    then show thesis
      using assms(1) b by (cases "c < 120") (auto simp: admit_bucket intro: that(2,3))
  qed
qed

definition timely :: "rfc3339 \<Rightarrow> instant \<Rightarrow> instant \<Rightarrow> guard_input \<Rightarrow> bool" where
  "timely rfc t1 t2 i \<longleftrightarrow> (\<forall>t. rfc (gi_now i) = Some t \<longrightarrow> t1 \<le> t \<and> t \<le> t2)"

text \<open>
  How many requests of a sender with the bucket \<open>(w, c)\<close> can still be admitted until \<open>T\<close>, the
  window of the bucket being followed by others.
\<close>

definition windows :: "int \<Rightarrow> nat" where
  "windows d = nat (d div 60000000000)"

lemma windows_mono: "d \<le> e \<Longrightarrow> windows d \<le> windows e"
  unfolding windows_def by (intro nat_mono zdiv_mono1) simp_all

lemma windows_step: "0 \<le> d \<Longrightarrow> d + 60000000000 \<le> e \<Longrightarrow> Suc (windows d) \<le> windows e"
proof -
  assume "0 \<le> d" "d + 60000000000 \<le> e"
  then have "Suc (windows d) = windows (d + 60000000000)" by (simp add: windows_def nat_add_distrib pos_imp_zdiv_nonneg_iff)
  then show ?thesis using windows_mono [OF \<open>d + 60000000000 \<le> e\<close>] by simp
qed

definition headroom :: "instant \<Rightarrow> nat \<Rightarrow> instant \<Rightarrow> nat" where
  "headroom w c T = (120 - c) + 120 * windows (T - w)"

lemma headroom_reset: "w + 60000000000 \<le> t \<Longrightarrow> t \<le> T \<Longrightarrow> Suc (headroom t 1 T) \<le> headroom w c T"
  using windows_step [of "T - t" "T - w"] by (simp add: headroom_def)

lemma headroom_start: "t1 \<le> t \<Longrightarrow> Suc (headroom t 1 T) \<le> headroom t1 0 T"
  using windows_mono [of "T - t" "T - t1"] by (simp add: headroom_def)

lemma admissions_headroom:
  assumes "\<forall>i \<in> set is. timely rfc t1 T i" "bt_get (rate g) s = Some (w, c)"
  shows "admissions rfc s is g \<le> headroom w c T"
  using assms
proof (induction "is" arbitrary: g w c)
  case (Cons i "is")
  obtain r g' where g': "run_cheap_gates rfc i g = (r, g')" by fastforce
  then show ?case
  proof (cases rule: gates_rate [of _ _ _ _ _ s])
    case other
    then show ?thesis using Cons g' by auto
  next
    case (tried t)
    have "t \<le> T" using Cons.prems(1) tried(2) by (simp add: timely_def)
    from tried(3) Cons.prems(2) show ?thesis
    proof (cases rule: admit_cases)
      case reset
      then show ?thesis
        using tried(1) g' Cons.IH [of g' t 1] Cons.prems(1) headroom_reset [OF reset(3) \<open>t \<le> T\<close>, of c] by simp
    next
      case count
      then have "Suc (headroom w (c + 1) T) = headroom w c T" by (simp add: headroom_def)
      with count show ?thesis using tried(1) g' Cons.IH [of g' w "c + 1"] Cons.prems(1) by simp
    next
      case full
      then show ?thesis using tried(1) g' Cons.IH [of g' w c] Cons.prems(1) by simp
    qed
  qed
qed simp

lemma admissions_any:
  assumes "\<forall>i \<in> set is. timely rfc t1 T i"
  shows "admissions rfc s is g \<le> (case bt_get (rate g) s of None \<Rightarrow> 0 | Some (w, c) \<Rightarrow> 120 - c) + headroom t1 0 T"
  using assms
proof (induction "is" arbitrary: g)
  case (Cons i "is")
  obtain r g' where g': "run_cheap_gates rfc i g = (r, g')" by fastforce
  then show ?case
  proof (cases rule: gates_rate [of _ _ _ _ _ s])
    case other
    then show ?thesis using Cons.IH [of g'] Cons.prems g' by auto
  next
    case (tried t)
    have "t1 \<le> t" using Cons.prems tried(2) by (simp add: timely_def)
    then have start: "Suc (headroom t 1 T) \<le> headroom t1 0 T" by (rule headroom_start)
    have new: "admissions rfc s is g' \<le> headroom t 1 T" if "bt_get (rate g') s = Some (t, 1)"
      using Cons.prems that by (intro admissions_headroom [of "is" rfc t1]) auto
    have old: "admissions rfc s is g' \<le> (case bt_get (rate g') s of None \<Rightarrow> 0 | Some (w, c) \<Rightarrow> 120 - c) + headroom t1 0 T"
      using Cons by simp
    show ?thesis
    proof (cases "bt_get (rate g) s")
      case None
      then have "r = Inr ()" "bt_get (rate g') s = Some (t, 1)"
        using tried(3) by (auto simp: admit_bucket bucket_def)
      then show ?thesis using start new tried(1) g' None by simp
    next
      case (Some wc)
      then obtain w c where wc: "bt_get (rate g) s = Some (w, c)" by (cases wc) auto
      with tried(3) show ?thesis
        by (cases rule: admit_cases) (use start new old tried(1) g' wc in simp_all)
    qed
  qed
qed simp

subsection \<open>The replay cache\<close>

lemma nonces_insert: "nonces (bt_insert s m c) s' = (if s' = s then m else nonces c s')"
  by (simp add: nonces_def)

lemma record_nonce_cases:
  assumes "record_nonce s n t c = (r, c')"
  obtains (missing) "n = []" "r = Inl (GrMissingNonce s)" "c' = c"
  | (seen) u where "n \<noteq> []" "bt_get (nonces c s) n = Some u" "live t u" "r = Inl (GrReplayedNonce s n)"
      "c' = bt_insert s (bt_retain (\<lambda>_. live t) (nonces c s)) c"
  | (new) "n \<noteq> []" "bt_get (bt_retain (\<lambda>_. live t) (nonces c s)) n = None" "r = Inr ()"
      "c' = bt_insert s (bt_insert n t (evict (bt_retain (\<lambda>_. live t) (nonces c s)))) c"
proof (cases "n = []")
  case False
  show thesis
  proof (cases "bt_get (bt_retain (\<lambda>_. live t) (nonces c s)) n")
    case None
    then show thesis
      using assms False by (intro that(3)) (simp_all add: record_nonce_def Let_def del: bt_get_retain not_None_eq)
  next
    case (Some u)
    then show thesis
      using assms False by (intro that(2) [of u]) (simp_all add: record_nonce_def Let_def)
  qed
qed (use assms that(1) in \<open>simp add: record_nonce_def\<close>)

text \<open>The entries of a sender recorded at or after a given instant.\<close>

definition late :: "nonce_map \<Rightarrow> instant \<Rightarrow> string set" where
  "late m t0 = {k. \<exists>u. bt_get m k = Some u \<and> t0 \<le> u}"

lemma finite_late: "finite (late m t0)"
  by (rule finite_subset [of _ "set (bt_keys m)"]) (auto simp: late_def bt_keys_iff)

lemma late_retain: "late (bt_retain P m) t0 \<subseteq> late m t0"
  by (auto simp: late_def)

lemma late_evict: "late (evict m) t0 \<subseteq> late m t0"
  by (auto simp: late_def evict_def split: option.splits if_splits)

lemma late_insert: "late (bt_insert n t m) t0 \<subseteq> (if t0 \<le> t then insert n (late m t0) else late m t0)"
  by (auto simp: late_def)

lemma oldest_Some:
  "oldest es = Some (k, t) \<Longrightarrow> (k, t) \<in> set es \<and> (\<forall>(j, u) \<in> set es. t \<le> u)"
proof (induction es arbitrary: k t)
  case (Cons e es)
  obtain j u where e: "e = (j, u)" by (cases e)
  show ?case
  proof (cases "oldest es")
    case None
    then have "es = []" by (cases es) (auto split: option.splits if_splits)
    then show ?thesis using Cons.prems e None by simp
  next
    case (Some a)
    then obtain j' u' where a: "oldest es = Some (j', u')" by (cases a) auto
    then show ?thesis using Cons.IH [OF a] Cons.prems e by (fastforce split: if_splits)
  qed
qed simp

lemma oldest_None: "oldest es = None \<longleftrightarrow> es = []"
  by (cases es) (auto split: option.splits)

lemma evict_keeps:
  assumes "bt_get m n = Some t0" "card (late m t0) < REPLAY_CACHE_MAX_PER_SENDER"
  shows "bt_get (evict m) n = Some t0"
proof (rule ccontr)
  assume "bt_get (evict m) n \<noteq> Some t0"
  then obtain u where full: "REPLAY_CACHE_MAX_PER_SENDER \<le> length (bt_entries m)"
      and o: "oldest (bt_entries m) = Some (n, u)"
    using assms(1) by (auto simp: evict_def split: option.splits if_splits)
  then have "u = t0" using oldest_Some [OF o] assms(1) by (simp add: bt_entries_iff)
  then have "set (bt_keys m) \<subseteq> late m t0"
    using oldest_Some [OF o] by (force simp: late_def bt_keys_iff bt_entries_iff)
  then have "card (set (bt_keys m)) \<le> card (late m t0)" by (rule card_mono [OF finite_late])
  moreover have "card (set (bt_keys m)) = length (bt_entries m)"
    using bt_distinct [of m] by (simp add: bt_keys_def distinct_card del: set_map)
  ultimately show False using full assms(2) by simp
qed

definition at_or_after :: "rfc3339 \<Rightarrow> string \<Rightarrow> instant \<Rightarrow> guard_input \<Rightarrow> bool" where
  "at_or_after rfc s t0 i \<longleftrightarrow> claimed i = s \<and> (case rfc (gi_now i) of None \<Rightarrow> False | Some t \<Rightarrow> t0 \<le> t)"

abbreviation sighted :: "ingress_guard \<Rightarrow> string \<Rightarrow> nonce_map" where
  "sighted g s \<equiv> nonces (replay g) s"

lemma record_late:
  assumes "record_nonce s n t c = (r, c')"
  shows "card (late (nonces c' s) t0) \<le> card (late (nonces c s) t0) + of_bool (t0 \<le> t)"
  using assms
proof (cases rule: record_nonce_cases)
  case (seen u)
  have "late (nonces c' s) t0 \<subseteq> late (nonces c s) t0" using late_retain by (simp add: seen nonces_insert)
  then show ?thesis using card_mono [OF finite_late] by (simp add: trans_le_add1)
next
  case new
  let ?m = "late (nonces c s) t0"
  have "late (nonces c' s) t0 \<subseteq> (if t0 \<le> t then insert n ?m else ?m)"
    using late_insert [of n t _ t0] late_evict late_retain unfolding new(4) nonces_insert
    by (smt (verit, best) insert_mono order_trans)
  then have "card (late (nonces c' s) t0) \<le> card (if t0 \<le> t then insert n ?m else ?m)"
    by (rule card_mono [rotated]) (simp add: finite_late)
  also have "\<dots> \<le> card ?m + of_bool (t0 \<le> t)" by (simp add: card_insert_if finite_late)
  finally show ?thesis .
qed simp

lemma record_other: "record_nonce s n t c = (r, c') \<Longrightarrow> s' \<noteq> s \<Longrightarrow> nonces c' s' = nonces c s'"
  by (erule record_nonce_cases) (simp_all add: nonces_insert)

lemma record_keep:
  assumes "record_nonce s m t c = (r, c')" "bt_get (nonces c s) n = Some t0" "live t t0"
    and "card (late (nonces c s) t0) < REPLAY_CACHE_MAX_PER_SENDER"
  shows "bt_get (nonces c' s) n = Some t0"
  using assms(1)
proof (cases rule: record_nonce_cases)
  case new
  let ?m = "bt_retain (\<lambda>_. live t) (nonces c s)"
  have n: "bt_get ?m n = Some t0" using assms(2,3) by simp
  then have "m \<noteq> n" using new(2) by auto
  moreover have "card (late ?m t0) < REPLAY_CACHE_MAX_PER_SENDER"
    using assms(4) card_mono [OF finite_late late_retain, of "\<lambda>_. live t" "nonces c s" t0] by simp
  then have "bt_get (evict ?m) n = Some t0" by (rule evict_keeps [OF n])
  ultimately show ?thesis by (simp add: new nonces_insert)
qed (use assms in \<open>simp_all add: nonces_insert\<close>)

lemma gates_late:
  assumes "run_cheap_gates rfc i g = (r, g')"
  shows "card (late (sighted g' s) t0) \<le> card (late (sighted g s) t0) + of_bool (at_or_after rfc s t0 i)"
  using assms
proof (cases rule: gates_cases)
  case (replayed e n t)
  then show ?thesis
    using record_late [OF replayed(3), of t0] record_other [OF replayed(3), of s]
    by (cases "claimed i = s") (simp_all add: at_or_after_def)
next
  case (recorded n t)
  then show ?thesis
    using record_late [OF recorded(3), of t0] record_other [OF recorded(3), of s]
    by (cases "claimed i = s") (simp_all add: at_or_after_def)
qed simp

lemma run_late:
  "card (late (sighted (snd (gate_run rfc is g)) s) t0) \<le>
   card (late (sighted g s) t0) + length (filter (at_or_after rfc s t0) is)"
proof (induction "is" arbitrary: g)
  case (Cons i "is")
  obtain r g' where g': "run_cheap_gates rfc i g = (r, g')" by fastforce
  show ?case
    using Cons [of g'] gates_late [OF g', of s t0] g'
    by (cases "at_or_after rfc s t0 i") (simp_all add: split_beta)
qed simp

lemma gates_keep:
  assumes "run_cheap_gates rfc i g = (r, g')" "bt_get (sighted g s) n = Some t0"
    and "card (late (sighted g s) t0) < REPLAY_CACHE_MAX_PER_SENDER"
    and "\<And>t. rfc (gi_now i) = Some t \<Longrightarrow> live t t0"
  shows "bt_get (sighted g' s) n = Some t0"
  using assms(1)
proof (cases rule: gates_cases)
  case (replayed e m t)
  then show ?thesis
    using record_keep [OF replayed(3), of n t0] record_other [OF replayed(3), of s] assms(2-4)
    by (cases "claimed i = s") simp_all
next
  case (recorded m t)
  then show ?thesis
    using record_keep [OF recorded(3), of n t0] record_other [OF recorded(3), of s] assms(2-4)
    by (cases "claimed i = s") simp_all
qed (simp add: assms(2))

lemma run_keep:
  assumes "bt_get (sighted g s) n = Some t0"
    and "card (late (sighted g s) t0) + length (filter (at_or_after rfc s t0) is) < REPLAY_CACHE_MAX_PER_SENDER"
    and "\<forall>i \<in> set is. \<forall>t. rfc (gi_now i) = Some t \<longrightarrow> live t t0"
  shows "bt_get (sighted (snd (gate_run rfc is g)) s) n = Some t0"
  using assms
proof (induction "is" arbitrary: g)
  case (Cons i "is")
  obtain r g' where g': "run_cheap_gates rfc i g = (r, g')" by fastforce
  have "bt_get (sighted g' s) n = Some t0"
    using Cons.prems by (intro gates_keep [OF g']) simp_all
  then show ?case
    using Cons.IH [of g'] Cons.prems gates_late [OF g', of s t0] g'
    by (cases "at_or_after rfc s t0 i") (simp_all add: split_beta)
qed simp

lemma not_again:
  assumes "bt_get (sighted g (claimed j)) n = Some t0" "pk_nonce (peeked j) = Some n"
    "rfc (gi_now j) = Some t1" "live t1 t0"
  shows "\<not> is_ok (fst (run_cheap_gates rfc j g))"
proof -
  obtain r g' where g': "run_cheap_gates rfc j g = (r, g')" by fastforce
  then have "\<not> is_ok r"
    by (cases rule: gates_cases) (use assms in \<open>auto elim!: record_nonce_cases\<close>)
  then show ?thesis using g' by simp
qed

subsection \<open>Forgetting too early\<close>

text \<open>A request that passes the two stateless gates and carries a nonce.\<close>

definition plausible :: "rfc3339 \<Rightarrow> guard_input \<Rightarrow> bool" where
  "plausible rfc i \<longleftrightarrow>
     audience_check i = Inr () \<and>
     freshness_check rfc (pk_ts (peeked i)) (gi_now i) CLOCK_SKEW_WINDOW_SECS = Inr () \<and>
     (case pk_nonce (peeked i) of None \<Rightarrow> False | Some n \<Rightarrow> n \<noteq> [])"

lemma plausible_gates:
  assumes "plausible rfc i" "pk_nonce (peeked i) = Some n" "rfc (gi_now i) = Some t"
  shows "run_cheap_gates rfc i g =
    (case record_nonce (claimed i) n t (replay g) of
       (Inl e, c) \<Rightarrow> (Inl e, g\<lparr>replay := c\<rparr>)
     | (Inr _, c) \<Rightarrow> (case admit (claimed i) t (rate g) of (r, l) \<Rightarrow> (r, g\<lparr>replay := c, rate := l\<rparr>)))"
  using assms by (simp add: plausible_def run_cheap_gates_def)

lemma plausible_new:
  assumes "plausible rfc i" "pk_nonce (peeked i) = Some n" "rfc (gi_now i) = Some t"
    and "\<And>u. bt_get (sighted g (claimed i)) n = Some u \<Longrightarrow> \<not> live t u"
  shows "run_cheap_gates rfc i g =
    (case admit (claimed i) t (rate g) of (r, l) \<Rightarrow>
       (r, g\<lparr>replay := bt_insert (claimed i)
               (bt_insert n t (evict (bt_retain (\<lambda>_. live t) (sighted g (claimed i))))) (replay g), rate := l\<rparr>))"
proof -
  have "bt_get (bt_retain (\<lambda>_. live t) (sighted g (claimed i))) n = None"
    using assms(4) by (cases "bt_get (sighted g (claimed i)) n") auto
  moreover have "n \<noteq> []" using assms(1,2) by (simp add: plausible_def)
  ultimately show ?thesis
    unfolding plausible_gates [OF assms(1-3)] record_nonce_def Let_def by (simp del: bt_get_retain)
qed

lemma first_request:
  assumes "plausible rfc i" "pk_nonce (peeked i) = Some n" "rfc (gi_now i) = Some t"
  obtains g where "run_cheap_gates rfc i (guard_new u) = (Inr (), g)"
    "sighted g (claimed i) = bt_insert n t bt_empty" "bt_get (rate g) (claimed i) = Some (t, 1)"
proof -
  have e: "evict (bt_retain P bt_empty) = bt_empty" for P
    by (simp add: evict_def REPLAY_CACHE_MAX_PER_SENDER_def bt_eq_iff)
  let ?g = "\<lparr>started_at = u, replay = bt_insert (claimed i) (bt_insert n t bt_empty) bt_empty,
      rate = bt_insert (claimed i) (t, 1) bt_empty\<rparr>"
  have "run_cheap_gates rfc i (guard_new u) = (Inr (), ?g)"
    by (subst plausible_new [OF assms])
      (simp_all add: guard_new_def replay_new_def rate_new_def nonces_def admit_bucket bucket_def e)
  then show thesis by (rule that) (simp_all add: nonces_def)
qed

lemma audience_same: "audience_check (i\<lparr>gi_now := x\<rparr>) = audience_check i"
  "audience_check (i\<lparr>peeked := (peeked i)\<lparr>pk_nonce := y\<rparr>\<rparr>) = audience_check i"
  "audience_check (i\<lparr>peeked := (peeked i)\<lparr>pk_nonce := y\<rparr>, gi_now := x\<rparr>) = audience_check i"
  by (simp_all add: audience_check_def Let_def)

text \<open>A flood of requests under other nonces, all at one instant.\<close>

definition with_fresh_nonce :: "guard_input \<Rightarrow> string \<Rightarrow> string \<Rightarrow> guard_input" where
  "with_fresh_nonce i now m = i\<lparr>peeked := (peeked i)\<lparr>pk_nonce := Some m\<rparr>, gi_now := now\<rparr>"

definition flooded :: "string \<Rightarrow> instant \<Rightarrow> instant \<Rightarrow> string list \<Rightarrow> nonce_map \<Rightarrow> bool" where
  "flooded n t0 t1 xs m \<longleftrightarrow>
     bt_get m n = None \<or>
     bt_get m n = Some t0 \<and> length xs < REPLAY_CACHE_MAX_PER_SENDER \<and> set (bt_keys m) = insert n (set xs) \<and>
     (\<forall>x \<in> set xs. bt_get m x = Some t1)"

lemma flooded_step:
  assumes "flooded n t0 t1 xs m" "t0 < t1" "n \<notin> set (x # xs)" "distinct (x # xs)"
  shows "flooded n t0 t1 (x # xs) (bt_insert x t1 (evict (bt_retain (\<lambda>_. live t1) m)))"
proof (cases "bt_get (evict (bt_retain (\<lambda>_. live t1) m)) n")
  case None
  then show ?thesis using assms(3) by (simp add: flooded_def)
next
  case (Some u)
  let ?m = "bt_retain (\<lambda>_. live t1) m"
  have sub: "bt_get (evict ?m) k = Some v \<Longrightarrow> bt_get m k = Some v \<and> live t1 v" for k v
    by (auto simp: evict_def split: if_splits option.splits)
  then have u: "bt_get m n = Some u" "live t1 u" using Some by auto
  then have j: "u = t0" "set (bt_keys m) = insert n (set xs)" "\<forall>x \<in> set xs. bt_get m x = Some t1"
    using assms(1) by (auto simp: flooded_def)
  have "live t1 v" if "bt_get m k = Some v" for k v
  proof (cases "k = n")
    case False
    then have "k \<in> set xs" using that j(2) bt_keys_iff [of k m] by auto
    then show ?thesis using that j(3) by (simp add: live_iff)
  qed (use that u in simp)
  then have "bt_get ?m k = bt_get m k" for k by (cases "bt_get m k") auto
  then have m: "?m = m" by (rule bt_ext)
  have len: "length (bt_entries m) = Suc (length xs)"
    using assms(3,4) j(2) bt_distinct [of m] distinct_card [of "bt_keys m"] distinct_card [of xs]
    by (simp add: bt_keys_def del: set_map)
  have "length (bt_entries m) < REPLAY_CACHE_MAX_PER_SENDER"
  proof (rule ccontr)
    assume full: "\<not> length (bt_entries m) < REPLAY_CACHE_MAX_PER_SENDER"
    obtain k v where o: "oldest (bt_entries m) = Some (k, v)" using len oldest_None by (cases "oldest (bt_entries m)") auto
    have k: "bt_get m k = Some v" using oldest_Some [OF o] by (simp add: bt_entries_iff)
    have "(n, t0) \<in> set (bt_entries m)" using u(1) j(1) by (simp add: bt_entries_iff)
    then have "v \<le> t0" using oldest_Some [OF o] by blast
    then have "bt_get m k \<noteq> Some t1" using k assms(2) by simp
    then have "k \<notin> set xs" using j(3) by blast
    moreover have "k \<in> set (bt_keys m)" using k by (simp add: bt_keys_iff)
    ultimately have "k = n" using j(2) by simp
    then show False using Some full o by (simp add: m evict_def)
  qed
  then have e: "evict ?m = m" "length (x # xs) < REPLAY_CACHE_MAX_PER_SENDER"
    using m len by (simp_all add: evict_def)
  have "set (bt_keys (bt_insert x t1 m)) = insert x (set (bt_keys m))"
    by (simp add: set_eq_iff bt_keys_iff)
  then have "set (bt_keys (bt_insert x t1 m)) = insert n (set (x # xs))" by (simp add: j(2) insert_commute)
  moreover have "n \<noteq> x" using assms(3) by simp
  ultimately show ?thesis unfolding e(1) flooded_def using e(2) u(1) j(1,3) by simp
qed

lemma record_absent:
  assumes "record_nonce s y t c = (r, c')" "y \<noteq> n" "bt_get (nonces c s) n = None"
  shows "bt_get (nonces c' s) n = None"
proof -
  have "bt_get (evict m) n = None" if "bt_get m n = None" for m
    using that by (auto simp: evict_def split: option.splits)
  with assms show ?thesis by (elim record_nonce_cases) (simp_all add: nonces_insert)
qed

lemma flooded_record:
  assumes "record_nonce s y t1 c = (r, c')" "y \<noteq> []" "flooded n t0 t1 xs (nonces c s)" "t0 < t1"
    and "n \<notin> set (y # xs)" "distinct (y # xs)"
  shows "flooded n t0 t1 (y # xs) (nonces c' s)"
proof (cases "bt_get (nonces c s) n")
  case None
  then show ?thesis using record_absent [OF assms(1)] assms(5) by (auto simp: flooded_def)
next
  case (Some u)
  then have "set (bt_keys (nonces c s)) = insert n (set xs)" using assms(3) by (simp add: flooded_def)
  then have y: "bt_get (nonces c s) y = None" using assms(5,6) bt_keys_iff [of y "nonces c s"] by auto
  from assms(1) show ?thesis
    by (cases rule: record_nonce_cases)
      (use assms(2-6) y in \<open>simp_all add: nonces_insert flooded_step del: set_simps\<close>)
qed

lemma flood_run:
  assumes "\<forall>m \<in> set ys. plausible rfc (with_fresh_nonce i now m)" "rfc now = Some t1" "t0 < t1"
    and "n \<notin> set ys" "n \<notin> set xs" "distinct (ys @ xs)"
    and "flooded n t0 t1 xs (sighted g (claimed i))"
    and "bt_get (rate g) (claimed i) = Some (w, c)" "w \<le> t1"
  shows "flooded n t0 t1 (rev ys @ xs) (sighted (snd (gate_run rfc (map (with_fresh_nonce i now) ys) g)) (claimed i)) \<and>
    (\<exists>w c. bt_get (rate (snd (gate_run rfc (map (with_fresh_nonce i now) ys) g))) (claimed i) = Some (w, c) \<and> w \<le> t1)"
  using assms
proof (induction ys arbitrary: xs g w c)
  case (Cons y ys)
  let ?i = "with_fresh_nonce i now y"
  have i: "pk_nonce (peeked ?i) = Some y" "rfc (gi_now ?i) = Some t1" "claimed ?i = claimed i" "y \<noteq> []"
    using Cons.prems(1,2) by (simp_all add: with_fresh_nonce_def plausible_def)
  obtain r h where h: "run_cheap_gates rfc ?i g = (r, h)" by fastforce
  obtain rr c' where c': "record_nonce (claimed i) y t1 (replay g) = (rr, c')" by fastforce
  have p: "plausible rfc ?i" using Cons.prems(1) by simp
  have "flooded n t0 t1 (y # xs) (nonces c' (claimed i))"
    by (rule flooded_record [OF c' i(4) Cons.prems(7,3)]) (use Cons.prems(4-6) in auto)
  moreover have "replay h = c'"
    using h c' by (auto simp: plausible_gates [OF p i(1,2)] i(3) split: sum.splits prod.splits)
  ultimately have f: "flooded n t0 t1 (y # xs) (sighted h (claimed i))" by simp
  obtain w' k where w: "bt_get (rate h) (claimed i) = Some (w', k)" "w' \<le> t1"
    using h
  proof (cases rule: gates_rate [of _ _ _ _ _ "claimed i"])
    case (tried t)
    from tried(3) Cons.prems(8) show thesis
      by (cases rule: admit_cases) (use that tried(2) i(2) Cons.prems(9) in auto)
  qed (use that Cons.prems(8,9) in auto)
  have "flooded n t0 t1 (rev ys @ y # xs) (sighted (snd (gate_run rfc (map (with_fresh_nonce i now) ys) h)) (claimed i)) \<and>
    (\<exists>w c. bt_get (rate (snd (gate_run rfc (map (with_fresh_nonce i now) ys) h))) (claimed i) = Some (w, c) \<and> w \<le> t1)"
    by (rule Cons.IH [OF _ _ _ _ _ _ f w]) (use Cons.prems in auto)
  then show ?case using h by (simp add: split_beta)
qed auto

end
