(* ===== verification/GuardProps.thy ===== *)
theory GuardProps
  imports GuardRun FedScenario
begin

text \<open>
  What the guard before signature verification promises over any sequence of requests, and the two
  ways in which it forgets a nonce too early.
\<close>

subsection \<open>A concrete request\<close>

definition demo_clock :: rfc3339 where
  "demo_clock s =
     (if is_canonical_utc s
      then (case utc_fields s of (y, mo, d, h, mi, sec) \<Rightarrow>
        Some (int (sec + 60 * mi + 3600 * h + 86400 * d) * 1000000000))
      else None)"

definition demo_noon :: int where "demo_noon = 12 * 3600 + 27 * 86400"

definition demo_input :: guard_input where
  "demo_input =
     \<lparr>peeked = \<lparr>pk_from = alice, pk_to = bob, pk_ts = noon, pk_nonce = Some ''n1'', pk_expiry = None\<rparr>,
      gi_now = noon, gi_own_domain = ''two.example'', sender_is_backed = True\<rparr>"

definition demo_early :: guard_input where
  "demo_early = demo_input\<lparr>peeked := (peeked demo_input)\<lparr>pk_ts := ''2026-04-27T12:05:00Z''\<rparr>\<rparr>"

subsection \<open>Properties\<close>

text \<open>
  C29: The rate limit. Whatever the guard's state and whatever requests arrive between two instants,
  the number of them admitted under one sender's name is at most 120 for each full minute between
  the instants, plus 240: twice the nominal rate over a single window, and never more.
\<close>

theorem rate_limit_bound:
  assumes "\<forall>i \<in> set is. timely rfc t1 t2 i"
  shows "admissions rfc s is g \<le>
    RATE_LIMIT_MAX_PER_WINDOW * (2 + nat ((t2 - t1) div (RATE_LIMIT_WINDOW_SECS * 1000000000)))"
  using admissions_any [OF assms, of s g]
  by (auto simp: headroom_def windows_def RATE_LIMIT_MAX_PER_WINDOW_def RATE_LIMIT_WINDOW_SECS_def
      split: option.splits)

theorem rate_limit_bound_witness:
  "admissions demo_clock ''alice'' (replicate 500 demo_input) (guard_new 0) \<le> 240"
proof -
  have "demo_clock (gi_now demo_input) = Some (demo_noon * 1000000000)" by code_simp
  then have "\<forall>i \<in> set (replicate 500 demo_input). timely demo_clock (demo_noon * 1000000000) (demo_noon * 1000000000) i"
    by (simp add: timely_def)
  from rate_limit_bound [OF this, of "''alice''" "guard_new 0"] show ?thesis
    by (simp add: RATE_LIMIT_MAX_PER_WINDOW_def)
qed

text \<open>
  C30: A nonce is honoured once. After a request has been admitted, another request that claims the
  same sender and carries the same nonce is refused for the next 600 seconds, whatever else arrives
  in between, as long as that sender is claimed by fewer than 4095 other requests since the second
  of the first one.
\<close>

theorem nonce_admitted_once:
  assumes "fst (run_cheap_gates rfc i (snd (gate_run rfc pre (guard_new t)))) = Inr ()"
    and "rfc (gi_now i) = Some t0"
    and "claimed j = claimed i" "pk_nonce (peeked j) = pk_nonce (peeked i)"
    and "rfc (gi_now j) = Some t1" "whole_seconds (t1 - t0) < 600"
    and "\<forall>x \<in> set mid. case rfc (gi_now x) of None \<Rightarrow> True | Some t \<Rightarrow> t \<le> t1"
    and "length (filter (at_or_after rfc (claimed i) t0) (pre @ mid)) < 4095"
  shows "\<not> is_ok (fst (run_cheap_gates rfc j (snd (gate_run rfc (pre @ i # mid) (guard_new t)))))"
proof -
  let ?g = "snd (gate_run rfc pre (guard_new t))" and ?s = "claimed i"
  obtain g' where g': "run_cheap_gates rfc i ?g = (Inr (), g')" using assms(1) by (metis prod.collapse)
  obtain n where n: "pk_nonce (peeked i) = Some n" "n \<noteq> []" "bt_get (sighted g' ?s) n = Some t0"
    using g' assms(2) by (cases rule: gates_cases) (auto elim!: record_nonce_cases simp: nonces_insert)
  have "late (sighted (guard_new t) ?s) t0 = {}"
    by (simp add: guard_new_def replay_new_def nonces_def late_def)
  then have "card (late (sighted ?g ?s) t0) \<le> length (filter (at_or_after rfc ?s t0) pre)"
    using run_late [of rfc pre "guard_new t" ?s t0] by simp
  moreover have "at_or_after rfc ?s t0 i" using assms(2) by (simp add: at_or_after_def)
  ultimately have "card (late (sighted g' ?s) t0) + length (filter (at_or_after rfc ?s t0) mid) < REPLAY_CACHE_MAX_PER_SENDER"
    using gates_late [OF g', of ?s t0] assms(8) by (simp add: REPLAY_CACHE_MAX_PER_SENDER_def)
  moreover have "\<forall>x \<in> set mid. \<forall>u. rfc (gi_now x) = Some u \<longrightarrow> live u t0"
    using assms(6,7) by (fastforce simp: live_iff whole_seconds_less)
  ultimately have k: "bt_get (sighted (snd (gate_run rfc mid g')) ?s) n = Some t0"
    by (intro run_keep n(3)) simp_all
  have "snd (gate_run rfc (pre @ i # mid) (guard_new t)) = snd (gate_run rfc mid g')"
    using g' by (simp add: gate_run_append split_beta)
  moreover have "live t1 t0" using assms(6) by (simp add: live_def REPLAY_CACHE_TTL_SECS_def)
  ultimately show ?thesis
    using k n(1) assms(3-5) not_again by simp
qed

theorem nonce_admitted_once_witness:
  "\<not> is_ok (fst (run_cheap_gates demo_clock (demo_input\<lparr>gi_now := later\<rparr>)
     (snd (gate_run demo_clock ([] @ demo_input # []) (guard_new 0)))))"
proof -
  have "fst (run_cheap_gates demo_clock demo_input (snd (gate_run demo_clock [] (guard_new 0)))) = Inr ()"
      "demo_clock (gi_now demo_input) = Some (demo_noon * 1000000000)"
      "demo_clock (gi_now (demo_input\<lparr>gi_now := later\<rparr>)) = Some ((demo_noon + 180) * 1000000000)"
      "whole_seconds ((demo_noon + 180) * 1000000000 - demo_noon * 1000000000) < 600"
    by code_simp+
  note t = this
  show ?thesis by (rule nonce_admitted_once [OF t(1,2) _ _ t(3,4)]) simp_all
qed

text \<open>
  C31: The cache forgets a nonce one second too early. An envelope first admitted 300 seconds before its
  own timestamp is admitted a second time 300 seconds after it, both instants being inside the
  freshness window, on a gateway that saw nothing else.
\<close>

theorem replay_at_the_window_edge:
  assumes "audience_check i = Inr ()" "pk_nonce (peeked i) = Some n" "n \<noteq> []"
    and "rfc (pk_ts (peeked i)) = Some ts"
    and "rfc (gi_now i) = Some (ts - 300 * 1000000000)" "rfc now = Some (ts + 300 * 1000000000)"
  shows "fst (gate_run rfc [i, i\<lparr>gi_now := now\<rparr>] (guard_new t)) = [Inr (), Inr ()]"
proof -
  let ?j = "i\<lparr>gi_now := now\<rparr>"
  have p: "plausible rfc i" "plausible rfc ?j"
    using assms by (simp_all add: plausible_def freshness_check_def whole_seconds_def signed_divide_int_def
        CLOCK_SKEW_WINDOW_SECS_def audience_same)
  obtain g where g: "run_cheap_gates rfc i (guard_new t) = (Inr (), g)"
      "sighted g (claimed i) = bt_insert n (ts - 300 * 1000000000) bt_empty"
      "bt_get (rate g) (claimed i) = Some (ts - 300 * 1000000000, 1)"
    by (rule first_request [OF p(1) assms(2,5)])
  have "fst (run_cheap_gates rfc ?j g) = Inr ()"
    by (subst plausible_new [OF p(2)])
      (use assms g in \<open>auto simp: live_iff admit_bucket bucket_def\<close>)
  then show ?thesis using g(1) by (simp add: split_beta)
qed

theorem replay_at_the_window_edge_witness:
  "fst (gate_run demo_clock
     [demo_early, demo_early\<lparr>gi_now := ''2026-04-27T12:10:00Z''\<rparr>] (guard_new 0)) = [Inr (), Inr ()]"
proof (rule replay_at_the_window_edge)
  show "audience_check demo_early = Inr ()" "pk_nonce (peeked demo_early) = Some ''n1''" "''n1'' \<noteq> []"
    "demo_clock (pk_ts (peeked demo_early)) = Some ((demo_noon + 300) * 1000000000)"
    "demo_clock (gi_now demo_early) = Some ((demo_noon + 300) * 1000000000 - 300 * 1000000000)"
    "demo_clock ''2026-04-27T12:10:00Z'' = Some ((demo_noon + 300) * 1000000000 + 300 * 1000000000)"
    by code_simp+
qed

text \<open>
  C32: Refused requests push admitted nonces out of the cache. After an envelope has been admitted,
  4096 further requests that merely claim the same sender, carry other nonces and need no valid
  signature (all but 120 of a window are refused by the rate limit, but only after their nonce was
  recorded) make the gateway forget the first nonce: a minute later the same envelope is
  admitted again.
\<close>

theorem flood_reopens_replay:
  assumes "plausible rfc i" "pk_nonce (peeked i) = Some n" "rfc (gi_now i) = Some t0"
    and "\<forall>m \<in> set ms. plausible rfc (with_fresh_nonce i now m)" "rfc now = Some t1" "t0 < t1"
    and "distinct ms" "n \<notin> set ms" "length ms = 4096"
    and "plausible rfc (i\<lparr>gi_now := now'\<rparr>)" "rfc now' = Some t2" "t1 + 60 * 1000000000 \<le> t2"
  shows "fst (run_cheap_gates rfc (i\<lparr>gi_now := now'\<rparr>)
    (snd (gate_run rfc (i # map (with_fresh_nonce i now) ms) (guard_new t)))) = Inr ()"
proof -
  obtain g where g: "run_cheap_gates rfc i (guard_new t) = (Inr (), g)"
      "sighted g (claimed i) = bt_insert n t0 bt_empty" "bt_get (rate g) (claimed i) = Some (t0, 1)"
    by (rule first_request [OF assms(1-3)])
  let ?h = "snd (gate_run rfc (map (with_fresh_nonce i now) ms) g)"
  have "flooded n t0 t1 [] (sighted g (claimed i))"
    by (auto simp: g(2) flooded_def bt_keys_iff set_eq_iff REPLAY_CACHE_MAX_PER_SENDER_def)
  then have h: "flooded n t0 t1 (rev ms) (sighted ?h (claimed i))"
      "\<exists>w c. bt_get (rate ?h) (claimed i) = Some (w, c) \<and> w \<le> t1"
    using flood_run [where xs = "[]" and g = g and w = t0 and c = 1, OF assms(4-6,8)] assms(6,7) g(3) by auto
  then obtain w c where w: "bt_get (rate ?h) (claimed i) = Some (w, c)" "w \<le> t1" by blast
  have "bt_get (sighted ?h (claimed i)) n = None"
    using h(1) assms(9) by (simp add: flooded_def REPLAY_CACHE_MAX_PER_SENDER_def)
  moreover have "fst (admit (claimed i) t2 (rate ?h)) = Inr ()"
    using w assms(12) by (simp add: admit_bucket bucket_def)
  ultimately have "fst (run_cheap_gates rfc (i\<lparr>gi_now := now'\<rparr>) ?h) = Inr ()"
    by (subst plausible_new [OF assms(10)]) (use assms(2,11) in \<open>auto simp: split_beta\<close>)
  then show ?thesis using g(1) by (simp add: split_beta)
qed

definition demo_nonces :: "string list" where
  "demo_nonces = map (\<lambda>k. replicate (Suc k) (CHR ''x'')) [0..<4096]"

theorem flood_reopens_replay_witness:
  "fst (run_cheap_gates demo_clock (demo_input\<lparr>gi_now := ''2026-04-27T12:01:01Z''\<rparr>)
     (snd (gate_run demo_clock
       (demo_input # map (with_fresh_nonce demo_input ''2026-04-27T12:00:01Z'') demo_nonces) (guard_new 0)))) = Inr ()"
proof (rule flood_reopens_replay)
  let ?i = "with_fresh_nonce demo_input ''2026-04-27T12:00:01Z''"
  have "audience_check demo_input = Inr ()"
      "freshness_check demo_clock (pk_ts (peeked demo_input)) ''2026-04-27T12:00:01Z'' CLOCK_SKEW_WINDOW_SECS = Inr ()"
    by code_simp+
  then have "plausible demo_clock (?i m) \<longleftrightarrow> m \<noteq> []" for m
    by (simp add: plausible_def with_fresh_nonce_def audience_same)
  then show "\<forall>m \<in> set demo_nonces. plausible demo_clock (?i m)" by (auto simp: demo_nonces_def)
  show "plausible demo_clock demo_input" "pk_nonce (peeked demo_input) = Some ''n1''"
    "demo_clock (gi_now demo_input) = Some (demo_noon * 1000000000)"
    "demo_clock ''2026-04-27T12:00:01Z'' = Some ((demo_noon + 1) * 1000000000)"
    "plausible demo_clock (demo_input\<lparr>gi_now := ''2026-04-27T12:01:01Z''\<rparr>)"
    "demo_clock ''2026-04-27T12:01:01Z'' = Some ((demo_noon + 61) * 1000000000)"
    by code_simp+
  show "demo_noon * 1000000000 < (demo_noon + 1) * 1000000000"
    "(demo_noon + 1) * 1000000000 + 60 * 1000000000 \<le> (demo_noon + 61) * 1000000000" by simp_all
  show "distinct demo_nonces" "length demo_nonces = 4096"
    by (auto simp: demo_nonces_def distinct_map inj_on_def replicate_eq_replicate)
  show "''n1'' \<notin> set demo_nonces" by (auto simp: demo_nonces_def)
qed

end
