(* ===== verification/IngressProps.thy ===== *)
theory IngressProps
  imports Relayed GuardProps Scenario BrokerProps
begin

text \<open>
  What the gateway's inbound path promises: an accepted message was signed by the pinned key of a
  backed sender, addressed to this host and fresh; a refused one leaves the bus alone; and, with the
  broker at the other end of the socket, an accepted message is appended to its recipient's mailbox
  in a form that the bus decodes.
\<close>

subsection \<open>What an accepted message has passed\<close>

lemma any_to_recipient: "envelope_recipient e = any_to e"
  by (cases e) simp_all

lemma any_from_sender: "envelope_sender e = any_from e"
  by (cases e) simp_all

lemma ingestE:
  assumes "ingest_inbound_at fl lib rfc lk recipient body now s w = (Inr (), s', w')"
  obtains pk g e v p task rows where "peek_guard_fields lib body = Inr pk"
    "run_cheap_gates rfc \<lparr>peeked = pk, gi_now = now, gi_own_domain = gw_own_domain s,
       sender_is_backed = (gr_get (gw_registry s) (pname (pk_from pk)) \<noteq> None)\<rparr> (gw_guard s) = (Inr (), g)"
    "s' = s\<lparr>gw_guard := g\<rparr>" "verify_inbound_any fl lib body (gw_keyring s) now = Inr e"
    "any_to e = recipient" "from_slice lib body = Inr v"
    "gr_get (gw_registry s) (pname (any_from e)) = Some p"
    "pp_send_recv lk p (Send (ToAgent (pname recipient)) (strip_relay_fields v)) w = (Inr (SendOk task rows), w')"
proof -
  let ?i = "\<lambda>pk. \<lparr>peeked = pk, gi_now = now, gi_own_domain = gw_own_domain s,
       sender_is_backed = (gr_get (gw_registry s) (pname (pk_from pk)) \<noteq> None)\<rparr>"
  obtain pk where pk: "peek_guard_fields lib body = Inr pk"
    using assms by (cases "peek_guard_fields lib body") (auto simp: ingest_inbound_at_def)
  obtain g where g: "run_cheap_gates rfc (?i pk) (gw_guard s) = (Inr (), g)"
    using assms pk by (cases "run_cheap_gates rfc (?i pk) (gw_guard s)")
      (auto simp: ingest_inbound_at_def Let_def split: sum.splits)
  obtain e where e: "verify_inbound_any fl lib body (gw_keyring s) now = Inr e"
    using assms pk g by (cases "verify_inbound_any fl lib body (gw_keyring s) now")
      (auto simp: ingest_inbound_at_def Let_def)
  have a: "check_audience_and_format e recipient = Inr ()"
    using assms pk g e by (cases "check_audience_and_format e recipient")
      (auto simp: ingest_inbound_at_def Let_def)
  have d: "deliver lib lk (any_from e) recipient body (gw_registry s) w = (Inr (), w')" "s' = s\<lparr>gw_guard := g\<rparr>"
    using assms pk g e a by (auto simp: ingest_inbound_at_def Let_def any_from_sender split: prod.splits)
  have t: "any_to e = recipient"
    using a by (simp add: check_audience_and_format_def any_to_recipient split: if_splits)
  obtain v where v: "from_slice lib body = Inr v" using d(1) by (cases "from_slice lib body") (auto simp: deliver_def)
  obtain p where p: "gr_get (gw_registry s) (pname (any_from e)) = Some p"
    using d(1) v by (cases "gr_get (gw_registry s) (pname (any_from e))") (auto simp: deliver_def)
  obtain task rows where
    "pp_send_recv lk p (Send (ToAgent (pname recipient)) (strip_relay_fields v)) w = (Inr (SendOk task rows), w')"
    using d(1) v p by (auto simp: deliver_def split: prod.splits sum.splits bus_reply.splits)
  from that [OF pk g d(2) e t v p this] show thesis .
qed

lemma res_bind_Inl_iff: "res_bind r f = Inl e \<longleftrightarrow> r = Inl e \<or> (\<exists>x. r = Inr x \<and> f x = Inl e)"
  by (cases r) auto

lemma map_err_Inl_iff: "map_err f r = Inl e \<longleftrightarrow> (\<exists>x. r = Inl x \<and> e = f x)"
  by (cases r) auto

lemma ok_or_Inl_iff: "ok_or e v = Inl x \<longleftrightarrow> v = None \<and> x = e"
  by (cases v) auto

lemma principal_display_inj:
  "principal_display p = principal_display q \<Longrightarrow> wf_principal p \<Longrightarrow> wf_principal q \<Longrightarrow> p = q"
  by (metis principal_from_str_Inr_iff sum.inject(2))

lemma required_string_Inl: "required_string obj k = Inl r \<Longrightarrow> r = GrBadEnvelopeShape"
  by (simp add: required_string_def ok_or_Inl_iff)

lemma required_principal_Inl: "required_principal obj k = Inl r \<Longrightarrow> r = GrBadEnvelopeShape"
  by (auto simp: required_principal_def res_bind_Inl_iff map_err_Inl_iff dest: required_string_Inl)

lemma optional_string_Inl: "optional_string obj k = Inl r \<Longrightarrow> r = GrBadEnvelopeShape"
  by (auto simp: optional_string_def split: option.splits json.splits)

lemma peek_shape: "peek_guard_fields lib b = Inl r \<Longrightarrow> r = GrBadEnvelopeShape"
  by (auto simp: peek_guard_fields_def res_bind_Inl_iff map_err_Inl_iff ok_or_Inl_iff
      dest: required_string_Inl required_principal_Inl optional_string_Inl)

lemma deliver_frame:
  assumes "deliver lib lk sender recipient body reg w = (r, w')" "r \<noteq> Inr ()" "r \<noteq> Inl IeInternal"
  shows "w' = w"
  using assms by (auto simp: deliver_def split: sum.splits option.splits prod.splits bus_reply.splits)

lemma ingest_frame:
  assumes "ingest_inbound_at fl lib rfc lk recipient body now s w = (r, s', w')"
  shows "s' = s\<lparr>gw_guard := gw_guard s'\<rparr>" "r \<noteq> Inr () \<Longrightarrow> r \<noteq> Inl IeInternal \<Longrightarrow> w' = w"
  using assms
  by (auto simp: ingest_inbound_at_def Let_def split: sum.splits prod.splits dest: deliver_frame)

lemma verify_anyE:
  assumes "verify_inbound_any fl lib b kr now = Inr e"
  obtains obj vk where "parse_value lib b = Inr (JObj obj)" "active_key kr (any_from e) now = KlActive vk"
    "any_signed_decode fl lib b vk = Inr e"
    "signed_ok fl lib (JObj obj) vk (signed_class e) (any_from e) (any_to e) (any_signature e)"
proof -
  obtain who where f: "peek_sender lib b = Inr who"
    using assms by (cases "peek_sender lib b") (auto simp: verify_inbound_any_def)
  obtain vk where vk: "active_key kr who now = KlActive vk"
    using assms f by (cases "active_key kr who now") (auto simp: verify_inbound_any_def)
  have e: "any_signed_decode fl lib b vk = Inr e"
    using assms f vk by (cases "any_signed_decode fl lib b vk") (auto simp: verify_inbound_any_def)
  obtain v where v: "parse_value lib b = Inr v"
      "signed_ok fl lib v vk (signed_class e) (any_from e) (any_to e) (any_signature e)"
    using any_signed_decode_ok [OF e] by blast
  obtain obj where o: "v = JObj obj" "map_of obj ''from'' = Some (JStr (principal_display (any_from e)))"
      "wf_principal (any_from e)"
    using v(2) by (auto simp: signed_ok_def)
  have "who = any_from e"
    using f v(1) o principal_from_str_Inr_iff [of "principal_display (any_from e)" "any_from e"]
    by (auto simp: peek_sender_def view_parse_def view_from_def view_from_str_def jget_str_def ok_opt_def split: sum.splits)
  with that v e vk o show thesis by auto
qed

lemma gates_pass:
  assumes "run_cheap_gates rfc i g = (Inr (), g')"
  obtains n t0 t1 where "authority (pk_to (peeked i)) = gi_own_domain i" "pk_nonce (peeked i) = Some n" "n \<noteq> []"
    "rfc (pk_ts (peeked i)) = Some t0" "rfc (gi_now i) = Some t1" "\<bar>whole_seconds (t1 - t0)\<bar> \<le> CLOCK_SKEW_WINDOW_SECS"
proof -
  have a: "audience_check i = Inr ()"
    using assms by (cases "audience_check i") (auto simp: run_cheap_gates_def)
  have f: "freshness_check rfc (pk_ts (peeked i)) (gi_now i) CLOCK_SKEW_WINDOW_SECS = Inr ()"
    using assms a by (cases "freshness_check rfc (pk_ts (peeked i)) (gi_now i) CLOCK_SKEW_WINDOW_SECS")
      (auto simp: run_cheap_gates_def)
  obtain t0 t1 where t: "rfc (pk_ts (peeked i)) = Some t0" "rfc (gi_now i) = Some t1"
      "\<bar>whole_seconds (t1 - t0)\<bar> \<le> CLOCK_SKEW_WINDOW_SECS"
    using f by (cases "rfc (pk_ts (peeked i))"; cases "rfc (gi_now i)")
      (auto simp: freshness_check_def split: if_splits)
  obtain n where n: "pk_nonce (peeked i) = Some n"
    using assms a f by (cases "pk_nonce (peeked i)") (auto simp: run_cheap_gates_def)
  have "n \<noteq> []"
    using assms a f n t(2) by (auto simp: run_cheap_gates_def record_nonce_def)
  moreover have "authority (pk_to (peeked i)) = gi_own_domain i"
    using a by (simp add: audience_check_def Let_def split: if_splits)
  ultimately show thesis using that n t by blast
qed

lemma peeked_obj:
  assumes "peek_guard_fields lib b = Inr pk" "parse_value lib b = Inr (JObj obj)"
  shows "map_of obj ''to'' = Some (JStr (principal_display (pk_to pk)))" "map_of obj ''ts'' = Some (JStr (pk_ts pk))"
    "pk_nonce pk = Some n \<Longrightarrow> map_of obj ''nonce'' = Some (JStr n)" "wf_principal (pk_to pk)"
  using assms
  by (auto simp: peek_guard_fields_def required_principal_def required_string_def optional_string_def
      res_bind_Inr_iff map_err_Inr_iff ok_or_Inr_iff principal_from_str_Inr_iff as_str_Some_iff
      split: option.splits bind_splits json.splits)

subsection \<open>The broker at the other end\<close>

text \<open>
  A socket to the broker: a request on a connection is an input of the actor, and the answer is the
  first reply the actor addresses to the connection. The world is the actor's state and its effects
  so far.
\<close>

definition reply_to :: "client_id \<Rightarrow> out \<Rightarrow> bus_reply option" where
  "reply_to c x = (case x of Reply d r \<Rightarrow> if d = c then Some r else None | _ \<Rightarrow> None)"

definition bus_exchange ::
  "ext_lib \<Rightarrow> broker_env \<Rightarrow> nat \<Rightarrow> nat \<Rightarrow> conn \<Rightarrow> bus_message \<Rightarrow> broker_state \<times> out list \<Rightarrow>
   (bus_client_error + bus_reply) \<times> broker_state \<times> out list" where
  "bus_exchange lib env wall now c msg w =
     (case handle lib env wall (fst w) (Wire c msg) now of
        None \<Rightarrow> (Inl (BcIo IoOther), w)
      | Some (outs, st') \<Rightarrow>
          ((case List.map_filter (reply_to c) outs of r # _ \<Rightarrow> Inr r | [] \<Rightarrow> Inl (BcIo IoOther)),
           st', snd w @ outs))"

text \<open>The gateway never starts a broker.\<close>

definition idle_launcher :: "'w launcher" where
  "idle_launcher =
     \<lparr>ln_has_parent = False, ln_path_utf8 = True, ln_create_dir = Pair (Inr ()), ln_bind_probe = Pair (Inr ()),
      ln_remove_probe = Pair (Inr ()), ln_open_log = Pair (Inr ()), ln_current_exe = Pair (Inr ()),
      ln_start = Pair (Inr ())\<rparr>"

definition bus_link :: "ext_lib \<Rightarrow> broker_env \<Rightarrow> nat \<Rightarrow> nat \<Rightarrow> (broker_state \<times> out list) link" where
  "bus_link lib env wall now =
     \<lparr>lk_launcher = idle_launcher, lk_open = (\<lambda>w. (Inl IoNotFound, w)), lk_sleep = (\<lambda>_ w. w),
      lk_exchange = bus_exchange lib env wall now\<rparr>"

lemma bus_send_ok:
  assumes "pp_send_recv (bus_link lib env wall now) p (Send (ToAgent n) e) (st, os) = (Inr (SendOk task rows), w')"
    and "broker_reach lib st"
  obtains line rest where
    "w' = (fst w', os @ AppendMailbox (Agent n) line (client_origin st (bc_stream (pp_client p))) # rest)"
    "canonicalize lib e = Inr line" "\<forall>m l q. AppendMailbox m l q \<notin> set rest"
proof -
  let ?c = "bc_stream (pp_client p)"
  obtain outs st' where h: "handle lib env wall st (Wire ?c (Send (ToAgent n) e)) now = Some (outs, st')"
      and r: "\<exists>rs. List.map_filter (reply_to ?c) outs = SendOk task rows # rs" and w': "w' = (st', os @ outs)"
    using assms(1)
    by (auto simp: pp_send_recv_def client_send_recv_def bus_link_def bus_exchange_def map_err_Inr_iff
        simp del: handle.simps split: option.splits list.splits)
  have inv: "broker_inv st" using broker_reach_inv [OF assms(2)] .
  have o: "client_origin (touch_activity wall st ?c) ?c = client_origin st ?c"
    by (rule client_origin_core [OF touch_activity_core inv touch_activity_inv [OF inv]])
  have "send lib env (touch_activity wall st ?c) ?c (ToAgent n) e = (outs, st')"
    using h r by (auto simp: handle_wire_def mk_err_def reply_to_def map_filter_simps split: if_splits)
  then show thesis
  proof (cases rule: sendE)
    case (refused kind msg)
    then show thesis using r by (simp add: mk_err_def reply_to_def map_filter_simps)
  next
    case (sent k line stamped woken t rs)
    then show thesis
      using wake_target_no_append [OF sent(6)] w' o by (intro that) (auto simp: target_mailbox_def)
  qed
qed

subsection \<open>A concrete delivery\<close>

text \<open>Alice of \<open>one.example\<close> acknowledges something to Bob of \<open>two.example\<close>.\<close>

definition fed_plain :: "(string \<times> json) list" where
  "fed_plain =
     [(''authority'', JStr ''advisory''),
      (''body'', JObj [(''disposition'', JStr ''accepted'')]),
      (''class'', JStr ''ack''),
      (''famp'', JStr ''0.5.2''),
      (''from'', JStr ''agent:one.example/alice''),
      (''id'', JStr demo_id),
      (''scope'', JStr ''standalone''),
      (''to'', JStr ''agent:two.example/bob''),
      (''ts'', JStr noon)]"

definition fed_unsigned :: "(string \<times> json) list" where
  "fed_unsigned = ins_entry ''nonce'' (JStr ''n1'') fed_plain"

definition fed_signed :: "(string \<times> json) list" where
  "fed_signed = ins_entry ''signature'' (JStr ''sig'') fed_unsigned"

text \<open>The one signature of this run, and the one key that made it.\<close>

definition fed_fl :: fed_lib where
  "fed_fl = (demo_fed [])
     \<lparr>b64_decode := (\<lambda>t. if t = ''sig'' then Some (replicate 64 1) else None),
      ed_verify_strict := (\<lambda>k m t. k = key_a \<and> m = DOMAIN_PREFIX @ [11] \<and> t = replicate 64 1)\<rparr>"

definition fed_stamped :: json where
  "fed_stamped = JObj [(''envelope'', JObj fed_plain), (''origin'', JStr ''gateway'')]"

definition fed_ext :: ext_lib where
  "fed_ext =
     \<lparr>lex = (\<lambda>b. if b = [10] then json_events (JObj fed_signed) else if b = [12] then json_events (JObj fed_plain)
        else if b = [13] then json_events fed_stamped else [EvErr ''expected value'']),
      jcs = (\<lambda>v. Inr (if v = JObj fed_unsigned then [11] else if v = JObj fed_plain then [12]
        else if v = fed_stamped then [13] else [14])),
      uuid_parse = (\<lambda>t. if t = demo_id then Some 7 else None), uuid_show = (\<lambda>_. demo_id)\<rparr>"

definition fed_inputs :: "broker_input list" where
  "fed_inputs =
     [Wire 1 (Hello 3 ''famp-gateway/0'' None), Wire 1 (Register ''alice'' 11 None False (Some Gateway)),
      Wire 2 (Hello 3 ''cli'' None), Wire 2 (Register ''bob'' 12 None True (Some Local))]"

definition fed_bus :: broker_state where
  "fed_bus = snd (the (run fed_ext (demo_env bt_empty) fed_inputs (broker_new 0)))"

definition fed_gateway :: gateway_ingress_state where
  "fed_gateway =
     \<lparr>gw_registry = bt_insert ''alice'' \<lparr>pp_client = \<lparr>bc_stream = 1, bc_bind_as = None\<rparr>, pp_name = ''alice''\<rparr> bt_empty,
      gw_keyring = demo_keyring, gw_own_domain = ''two.example'', gw_guard = guard_new 0\<rparr>"

definition fed_ingest ::
  "bytes \<Rightarrow> string \<Rightarrow> (ingress_error + unit) \<times> gateway_ingress_state \<times> broker_state \<times> out list" where
  "fed_ingest body now =
     ingest_inbound_at fed_fl fed_ext demo_clock (bus_link fed_ext (demo_env bt_empty) 0 0) bob body now
       fed_gateway (fed_bus, [])"

lemma fed_reach: "broker_reach fed_ext fed_bus"
proof -
  have "run fed_ext (demo_env bt_empty) fed_inputs (broker_new 0) \<noteq> None" by code_simp
  then show ?thesis
    using run_reach [OF _ broker_reach.start] unfolding fed_bus_def by (metis option.collapse prod.collapse)
qed

lemma fed_ingest_ok: "fst (fed_ingest [10] noon) = Inr ()"
  by code_simp

lemma fed_parse: "parse_value fed_ext [10] = Inr (JObj fed_signed)"
  by code_simp

lemma fed_ingested:
  obtains s' w' where "ingest_inbound_at fed_fl fed_ext demo_clock (bus_link fed_ext (demo_env bt_empty) 0 0) bob [10] noon
    fed_gateway (fed_bus, []) = (Inr (), s', w')"
  using fed_ingest_ok that unfolding fed_ingest_def by (metis prod.collapse)

subsection \<open>Properties\<close>

text \<open>
  C33: Only verified messages are delivered. When the gateway accepts a request, its body is an object
  that names a sender and the requested recipient, the recipient's domain is the gateway's own, the
  sender's name is backed, the sender has an active pinned key at the gateway's time, the signature in
  the body verifies under that key over the rest of the body, the timestamp is within 300 seconds of the
  gateway's time and the nonce is not empty; and what went onto the bus, on the connection that stands
  for that sender and to that recipient, is the body without the wrapper fields, for which the broker answered
  with success.
\<close>

theorem ingest_delivers_only_verified:
  assumes "ingest_inbound_at fl lib rfc lk recipient body now s w = (Inr (), s', w')"
  shows "\<exists>obj sender vk c sig ts t0 t1 n p task rows. parse_value lib body = Inr (JObj obj) \<and>
    active_key (gw_keyring s) sender now = KlActive vk \<and> signed_ok fl lib (JObj obj) vk c sender recipient sig \<and>
    authority recipient = gw_own_domain s \<and>
    map_of obj ''ts'' = Some (JStr ts) \<and> rfc ts = Some t0 \<and> rfc now = Some t1 \<and> \<bar>whole_seconds (t1 - t0)\<bar> \<le> 300 \<and>
    map_of obj ''nonce'' = Some (JStr n) \<and> n \<noteq> [] \<and> gr_get (gw_registry s) (pname sender) = Some p \<and>
    pp_send_recv lk p (Send (ToAgent (pname recipient)) (JObj (relay_stripped obj))) w = (Inr (SendOk task rows), w')"
proof -
  obtain pk g e v p task rows where i: "peek_guard_fields lib body = Inr pk"
    "run_cheap_gates rfc \<lparr>peeked = pk, gi_now = now, gi_own_domain = gw_own_domain s,
       sender_is_backed = (gr_get (gw_registry s) (pname (pk_from pk)) \<noteq> None)\<rparr> (gw_guard s) = (Inr (), g)"
    "verify_inbound_any fl lib body (gw_keyring s) now = Inr e" "any_to e = recipient" "from_slice lib body = Inr v"
    "gr_get (gw_registry s) (pname (any_from e)) = Some p"
    "pp_send_recv lk p (Send (ToAgent (pname recipient)) (strip_relay_fields v)) w = (Inr (SendOk task rows), w')"
    using ingestE [OF assms] by metis
  obtain obj vk where v: "parse_value lib body = Inr (JObj obj)" "active_key (gw_keyring s) (any_from e) now = KlActive vk"
      "signed_ok fl lib (JObj obj) vk (signed_class e) (any_from e) recipient (any_signature e)"
    using verify_anyE [OF i(3)] i(4) by metis
  obtain n t0 t1 where n: "authority (pk_to pk) = gw_own_domain s" "pk_nonce pk = Some n" "n \<noteq> []"
      "rfc (pk_ts pk) = Some t0" "rfc now = Some t1" "\<bar>whole_seconds (t1 - t0)\<bar> \<le> 300"
    using gates_pass [OF i(2)] by (auto simp: CLOCK_SKEW_WINDOW_SECS_def)
  note o = peeked_obj [OF i(1) v(1)]
  have "principal_display (pk_to pk) = principal_display recipient" "wf_principal recipient"
    using o(1) v(3) by (auto simp: signed_ok_def)
  then have "pk_to pk = recipient" using o(4) principal_display_inj by blast
  moreover have "v = JObj obj" using parse_value_from_slice [OF v(1)] i(5) by simp
  ultimately show ?thesis
    using v n o(2) o(3) [OF n(2)] i(6,7) strip_relay_fields_JObj by metis
qed

theorem ingest_delivers_only_verified_witness:
  "\<exists>sender vk c sig. active_key demo_keyring sender noon = KlActive vk \<and>
     signed_ok fed_fl fed_ext (JObj fed_signed) vk c sender bob sig \<and> authority bob = ''two.example''"
proof -
  obtain s' w' where "ingest_inbound_at fed_fl fed_ext demo_clock (bus_link fed_ext (demo_env bt_empty) 0 0) bob [10] noon
      fed_gateway (fed_bus, []) = (Inr (), s', w')" by (rule fed_ingested)
  from ingest_delivers_only_verified [OF this] show ?thesis
    by (auto simp: fed_parse fed_gateway_def)
qed

text \<open>
  C34: A refused request leaves the bus alone. Whatever arrives at the inbox route, the keyring, the
  registry and the domain of the gateway stay as they are, and unless the answer is 202 (accepted) or 500
  (the delivery itself failed) nothing was sent on any connection. A request whose path or envelope cannot
  be read does not even reach the replay cache and the rate limiter.
\<close>

theorem refused_request_leaves_bus_alone:
  assumes "inbox_handler fl lib rfc lk path body now s w = ((code, answer), s', w')"
  shows "s' = s\<lparr>gw_guard := gw_guard s'\<rparr> \<and> (code \<notin> {202, 500} \<longrightarrow> w' = w) \<and>
    (\<not> is_ok (principal_from_str path) \<or> \<not> is_ok (peek_guard_fields lib body) \<longrightarrow> code = 400 \<and> s' = s)"
proof (cases "principal_from_str path")
  case (Inl e)
  then show ?thesis using assms by (auto simp: inbox_handler_def into_response_def is_ok_iff)
next
  case (Inr recipient)
  obtain r where r: "ingest_inbound_at fl lib rfc lk recipient body now s w = (r, s', w')"
      "(code, answer) = (case r of Inr _ \<Rightarrow> (202, None) | Inl e \<Rightarrow> into_response e)"
    using assms Inr by (auto simp: inbox_handler_def split: prod.splits sum.splits)
  have c: "r \<noteq> Inr () \<and> r \<noteq> Inl IeInternal" if "code \<notin> {202, 500}"
    using that r(2) by (auto simp: into_response_def)
  have "\<not> is_ok (peek_guard_fields lib body) \<Longrightarrow> r = Inl IeBadEnvelopeShape \<and> s' = s"
    using r(1) peek_shape [of lib body]
    by (cases "peek_guard_fields lib body") (auto simp: ingest_inbound_at_def is_ok_iff)
  then show ?thesis
    using r(2) c ingest_frame [OF r(1)] Inr by (auto simp: into_response_def is_ok_iff)
qed

theorem refused_request_leaves_bus_alone_witness:
  "fst (fst (inbox_handler fed_fl fed_ext demo_clock (bus_link fed_ext (demo_env bt_empty) 0 0)
     ''agent:two.example/bob'' [10] ''2026-04-27T12:06:00Z'' fed_gateway (fed_bus, []))) = 400 \<and>
   snd (snd (inbox_handler fed_fl fed_ext demo_clock (bus_link fed_ext (demo_env bt_empty) 0 0)
     ''agent:two.example/bob'' [10] ''2026-04-27T12:06:00Z'' fed_gateway (fed_bus, []))) = (fed_bus, [])"
proof -
  let ?h = "inbox_handler fed_fl fed_ext demo_clock (bus_link fed_ext (demo_env bt_empty) 0 0)
     ''agent:two.example/bob'' [10] ''2026-04-27T12:06:00Z'' fed_gateway (fed_bus, [])"
  have c: "fst (fst ?h) = 400" by code_simp
  obtain code answer s' w' where h: "?h = ((code, answer), s', w')" by (metis prod.collapse)
  from refused_request_leaves_bus_alone [OF h] show ?thesis using c h by simp
qed

text \<open>
  C35: From the wire to the mailbox. With the broker at the other end of the gateway's connections, a
  request that the gateway accepts makes the broker append exactly one line to exactly one mailbox, the
  recipient's, stamped with the origin of the connection that stands for the sender; the line is one that the
  bus decodes, to an envelope of the class and from the sender that the signature was verified for.
\<close>

theorem accepted_request_reaches_mailbox:
  assumes "ingest_inbound_at fl lib rfc (bus_link lib env wall clk) recipient body now s (st, os) = (Inr (), s', w')"
    and "broker_reach lib st" "parse_value lib body = Inr (JObj obj)" "text_faithful lib (JObj (relay_stripped obj))"
  shows "\<exists>sender vk c sig p line e rest. active_key (gw_keyring s) sender now = KlActive vk \<and>
    signed_ok fl lib (JObj obj) vk c sender recipient sig \<and> gr_get (gw_registry s) (pname sender) = Some p \<and>
    snd w' = os @ AppendMailbox (Agent (pname recipient)) line (client_origin st (bc_stream (pp_client p))) # rest \<and>
    (\<forall>m l q. AppendMailbox m l q \<notin> set rest) \<and>
    any_bus_decode lib line = Inr e \<and> bus_from e = sender \<and> bus_class e = c"
proof -
  obtain e v p task rows where i: "verify_inbound_any fl lib body (gw_keyring s) now = Inr e" "any_to e = recipient"
    "from_slice lib body = Inr v" "gr_get (gw_registry s) (pname (any_from e)) = Some p"
    "pp_send_recv (bus_link lib env wall clk) p (Send (ToAgent (pname recipient)) (strip_relay_fields v)) (st, os) =
       (Inr (SendOk task rows), w')"
    using ingestE [OF assms(1)] by metis
  have v: "v = JObj obj" using parse_value_from_slice [OF assms(3)] i(3) by simp
  obtain vk where vk: "active_key (gw_keyring s) (any_from e) now = KlActive vk" "any_signed_decode fl lib body vk = Inr e"
      "signed_ok fl lib (JObj obj) vk (signed_class e) (any_from e) recipient (any_signature e)"
    using verify_anyE [OF i(1)] i(2) assms(3) by (metis json.inject(5) sum.inject(2))
  obtain line rest where l: "canonicalize lib (JObj (relay_stripped obj)) = Inr line"
      "snd w' = os @ AppendMailbox (Agent (pname recipient)) line (client_origin st (bc_stream (pp_client p))) # rest"
      "\<forall>m l q. AppendMailbox m l q \<notin> set rest"
    using bus_send_ok [OF i(5) assms(2)] v strip_relay_fields_JObj by (metis snd_conv)
  have "parse_value lib line = Inr (JObj (relay_stripped obj))"
    using text_faithful_parse [OF assms(4)] l(1) by (metis sum.inject(2))
  then obtain e' where "any_bus_decode lib line = Inr e'" "bus_from e' = any_from e" "bus_class e' = signed_class e"
    using relayed_decodes [OF vk(2) assms(3)] by metis
  then show ?thesis using vk i(4) l by blast
qed

theorem accepted_request_reaches_mailbox_witness:
  "\<exists>s' w' line p rest e. fed_ingest [10] noon = (Inr (), s', w') \<and>
     snd w' = AppendMailbox (Agent ''bob'') line (client_origin fed_bus p) # rest \<and> any_bus_decode fed_ext line = Inr e"
proof -
  obtain s' w' where i: "ingest_inbound_at fed_fl fed_ext demo_clock (bus_link fed_ext (demo_env bt_empty) 0 0) bob [10] noon
      fed_gateway (fed_bus, []) = (Inr (), s', w')" by (rule fed_ingested)
  have r: "relay_stripped fed_signed = fed_plain" by code_simp
  have t: "text_faithful fed_ext (JObj (relay_stripped fed_signed))"
    unfolding r by (rule text_faithful_sorted [of _ _ "[12]"]) code_simp+
  from accepted_request_reaches_mailbox [OF i fed_reach fed_parse t] show ?thesis
    using i by (auto simp: fed_ingest_def bob_def)
qed

end
