(* ===== verification/EgressProps.thy ===== *)
theory EgressProps
  imports Stamped IngressProps
begin

text \<open>
  What the gateway's outbound path promises: it posts nothing in another domain's name and nothing
  with fields a local client made up, and what it posts, the gateway of the other host verifies and
  turns back into the envelope that was drained.
\<close>

lemma relay_oneE:
  assumes "relay_one fl lib tm hl peers dr v own sk vk w = (r, v', w')"
  obtains (unsent) e where "r = Inl e" "w' = w"
  | (sent) src dst b base url res where "jget_str v ''from'' = Some (principal_display src)" "wf_principal src"
      "authority src = own" "jget_str v ''to'' = Some (principal_display dst)" "wf_principal dst"
      "owned_fields_present v = []" "sign_federation_fields fl lib tm dr v src dst sk vk = (Inr (), v')"
      "json_to_vec fl v' = Inr b" "bt_get peers dst = Some base"
      "hl_segments hl base [''famp'', ''v0.5.1'', ''inbox'', principal_display dst] = Some url"
      "hl_post hl url [(''content-type'', ''application/famp+json'')] b w = (res, w')"
      "r = Inr () \<longleftrightarrow> (\<exists>t. res = Inr (202, t))"
proof (cases "parse_principal_field v ''from''")
  case (Inl e)
  then show thesis using assms by (intro unsent) (auto simp: relay_one_def)
next
  case f: (Inr src)
  show thesis
  proof (cases "parse_principal_field v ''to''")
    case (Inl e)
    then show thesis using assms f by (intro unsent) (auto simp: relay_one_def)
  next
    case t: (Inr dst)
    show thesis
    proof (cases "authority src = own \<and> owned_fields_present v = []")
      case False
      then show thesis using assms f t by (auto simp: relay_one_def split: if_splits intro: unsent)
    next
      case ok: True
      obtain s v1 where s: "sign_federation_fields fl lib tm dr v src dst sk vk = (s, v1)" by fastforce
      show thesis
      proof (cases "\<exists>b. s = Inr () \<and> json_to_vec fl v1 = Inr b")
        case False
        then show thesis using assms f t ok s by (auto simp: relay_one_def split: sum.splits intro: unsent)
      next
        case True
        then obtain b where b: "s = Inr ()" "json_to_vec fl v1 = Inr b" by blast
        obtain q where q: "transport_send hl peers \<lparr>tm_sender = src, tm_recipient = dst, tm_bytes = b\<rparr> w = (q, w')"
            "r = map_err ReTransport q" "v' = v1"
          using assms f t ok s b by (auto simp: relay_one_def split: prod.splits)
        from q(1) show thesis
        proof (cases rule: transport_sendE)
          case (unsent e)
          then show thesis using q(2) that(1) by simp
        next
          case (sent base url res)
          then show thesis
            using f t ok s b q(2,3) by (intro that(2) [of src dst b base url res]) (simp_all add: parse_principal_field_Inr)
        qed
      qed
    qed
  qed
qed

lemma no_owned_fields:
  "owned_fields_present (JObj es) = [] \<longleftrightarrow> (\<forall>k \<in> set FEDERATION_OWNED_FIELDS. map_of es k = None)"
  by (auto simp: owned_fields_present_def filter_empty_conv)

lemma wrapper_free:
  assumes "owned_fields_present (JObj es) = []" "map_of es ''signature'' = None"
  shows "set (map fst es) \<inter> set RELAY_WRAPPER_FIELDS = {}"
  using assms(2) assms(1) [unfolded no_owned_fields FEDERATION_OWNED_FIELDS_def]
  by (auto simp: RELAY_WRAPPER_FIELDS_def map_of_eq_None_iff)

subsection \<open>A concrete relay\<close>

text \<open>The gateway of \<open>one.example\<close> relays Alice's acknowledgement to Bob; posts are collected in a list.\<close>

definition out_expiry :: string where "out_expiry = ''2026-04-27T12:05:00Z''"

definition out_time :: time_lib where
  "out_time = \<lparr>tl_format = (\<lambda>_. Inr ''2026-04-27T12:05:00.25Z''), tl_civil = (\<lambda>_. (2026, 4, 27, 12, 0, 0))\<rparr>"

definition out_http :: "(string list, (string list \<times> bytes) list) http_lib" where
  "out_http = \<lparr>hl_segments = (\<lambda>base segs. Some (base @ segs)), hl_post = (\<lambda>u h b w. (Inr (202, None), w @ [(u, b)]))\<rparr>"

definition out_peers :: "string list addr_map" where
  "out_peers = add_peer bob [''https://two.example''] bt_empty"

definition out_draw :: egress_draw where
  "out_draw = \<lparr>dr_now = 0, dr_nonce = 7, dr_notify_now = 0, dr_id = 7\<rparr>"

definition out_stamped :: "(string \<times> json) list" where
  "out_stamped = stamp_fields ''one.example'' ''two.example'' (key_id (demo_fed []) key_a) demo_id out_expiry fed_plain"

definition out_sig :: signature where "out_sig = demo_sign key_a (DOMAIN_PREFIX @ [21])"

definition out_signed :: "(string \<times> json) list" where
  "out_signed = posted (demo_fed []) out_sig out_stamped"

definition out_fl :: fed_lib where "out_fl = demo_fed [(JObj out_signed, [20])]"

definition out_ext :: ext_lib where
  "out_ext =
     \<lparr>lex = (\<lambda>b. if b = [12] then json_events (JObj fed_plain) else if b = [20] then json_events (JObj out_signed)
        else [EvErr ''expected value'']),
      jcs = (\<lambda>v. Inr (if v = JObj out_stamped then [21] else [22])),
      uuid_parse = (\<lambda>t. if t = demo_id then Some 7 else None), uuid_show = (\<lambda>_. demo_id)\<rparr>"

lemma out_fl_parts:
  "key_id out_fl k = key_id (demo_fed []) k" "sig_to_b64url out_fl x = sig_to_b64url (demo_fed []) x"
  "posted out_fl x es = posted (demo_fed []) x es" "json_to_vec out_fl (JObj out_signed) = Inr [20]"
  "sk_verifying_key out_fl key_a = key_a"
  by (simp_all add: out_fl_def demo_fed_def key_id_def sig_to_b64url_def posted_def demo_writer_def sk_verifying_key_def)

lemma out_sign: "sign_value out_fl out_ext key_a (JObj out_stamped) = Inr out_sig"
  by (simp add: sign_value_Inr_iff canonicalize_for_signature_def canonicalize_def out_ext_def out_sig_def out_fl_def
      demo_fed_def)

lemma out_fields:
  "parse_principal_field (JObj fed_plain) ''from'' = Inr alice" "parse_principal_field (JObj fed_plain) ''to'' = Inr bob"
  "owned_fields_present (JObj fed_plain) = []" "map_of fed_plain ''signature'' = None"
  "federation_expiry out_time (dr_now out_draw) = Inr out_expiry" "shallow_validate out_expiry"
  by code_simp+

lemma out_signs:
  "sign_federation_fields out_fl out_ext out_time out_draw (JObj fed_plain) alice bob key_a key_a = (Inr (), JObj out_signed)"
proof -
  have "stamp_fields (authority alice) (authority bob) (key_id out_fl key_a) (uuid_show out_ext (dr_nonce out_draw)) out_expiry
      fed_plain = out_stamped"
    by (simp add: out_stamped_def out_fl_parts alice_def bob_def out_ext_def)
  then show ?thesis
    using out_sign out_fields(4,5)
    by (simp add: sign_federation_fields_def Let_def flip: stamp_fields_def)
      (simp add: out_signed_def out_fl_parts posted_def)
qed

lemma out_relayed:
  "relay_one out_fl out_ext out_time out_http out_peers out_draw (JObj fed_plain) ''one.example'' key_a key_a [] =
     (Inr (), JObj out_signed,
      [([''https://two.example'', ''famp'', ''v0.5.1'', ''inbox'', ''agent:two.example/bob''], [20])])"
  using out_fields(1-3) out_signs out_fl_parts(4)
  by (simp add: relay_one_def transport_send_def out_peers_def add_peer_def out_http_def)
    (simp add: alice_def bob_def principal_display_def)

subsection \<open>A relayed envelope at the peer\<close>

lemma relayed_verifies:
  assumes "honest_signer fl sk" "writer_faithful fl lib"
    and "any_bus_decode lib line = Inr e" "parse_value lib line = Inr v"
    and "relay_one fl lib tm hl peers dr v own sk (sk_verifying_key fl sk) w = (Inr (), v', w')"
    and "\<forall>x. federation_expiry tm (dr_now dr) = Inr x \<longrightarrow> shallow_validate x"
    and "active_key kr (bus_from e) now = KlActive (sk_verifying_key fl sk)"
  shows "\<exists>url res b e' obj. hl_post hl url [(''content-type'', ''application/famp+json'')] b w = (res, w') \<and>
    verify_inbound_any fl lib b kr now = Inr e' \<and> any_from e' = bus_from e \<and> signed_class e' = bus_class e \<and>
    parse_value lib b = Inr (JObj obj) \<and> strip_relay_fields (JObj obj) = v"
  using assms(5)
proof (cases rule: relay_oneE)
  case (sent src dst b base url res)
  have ok: "bus_envelope_ok lib line e" by (rule any_bus_decode_ok [OF assms(3)])
  from sent(7) show ?thesis
  proof (cases rule: sign_federationE)
    case (already es)
    then show ?thesis using ok assms(4) by (simp add: bus_envelope_ok_def)
  next
    case (signed es expiry sig)
    let ?es = "stamp_fields (authority src) (authority dst) (key_id fl (sk_verifying_key fl sk))
      (uuid_show lib (dr_nonce dr)) expiry es"
    let ?obj = "posted fl sig ?es"
    have wf: "json_wf (JObj ?obj)" using parse_value_wf [OF assms(4)] signed(1) json_wf_posted by blast
    have p: "parse_value lib b = Inr (JObj ?obj)"
      using sent(8) signed(5) assms(2) strict_tree_events [of "JObj ?obj" "JObj ?obj"]
        json_wf_dup_free [OF wf] json_norm_wf [OF wf]
      by (simp add: writer_faithful_def from_slice_strict_def)
    obtain e' where e': "any_signed_decode fl lib b (sk_verifying_key fl sk) = Inr e'" "any_from e' = bus_from e"
        "signed_class e' = bus_class e"
      using posted_decodes [OF assms(3) assms(4) [unfolded signed(1)] assms(1) _ signed(4) p] assms(6) signed(3) by blast
    have "map_of es ''from'' = Some (JStr (principal_display (bus_from e)))" "wf_principal (bus_from e)"
      using ok assms(4) signed(1) by (auto simp: bus_envelope_ok_def)
    then have "peek_sender lib b = Inr (bus_from e)"
      using p principal_from_str_Inr_iff [of "principal_display (bus_from e)" "bus_from e"]
      by (simp add: peek_sender_def view_parse_def view_from_def view_from_str_def jget_str_def posted_def
          stamp_fields_def map_of_ins_entry ok_opt_def)
    then have "verify_inbound_any fl lib b kr now = Inr e'"
      using assms(7) e'(1) by (simp add: verify_inbound_any_def)
    moreover have "strip_relay_fields (JObj ?obj) = v"
      using relay_stripped_posted [OF wrapper_free] sent(6) signed(1,2) strip_relay_fields_JObj by simp
    ultimately show ?thesis using sent(11) e'(2,3) p by blast
  qed
qed simp

subsection \<open>Properties\<close>

text \<open>
  C38: The gateway speaks only for its own domain. When relaying an envelope succeeds, or touches the
  network at all, the envelope names a sender of the gateway's own domain and a recipient, it carries none
  of the seven fields that only the gateway may write, and exactly one request was made: the post of the
  stamped envelope to the recipient's inbox at the address configured for that recipient. The relay counts as
  done exactly when the answer was 202.
\<close>

theorem egress_speaks_only_for_own_domain:
  assumes "relay_one fl lib tm hl peers dr v own sk vk w = (r, v', w')" "r = Inr () \<or> w' \<noteq> w"
  shows "\<exists>src dst b base url res. jget_str v ''from'' = Some (principal_display src) \<and> wf_principal src \<and>
    authority src = own \<and> jget_str v ''to'' = Some (principal_display dst) \<and> wf_principal dst \<and>
    (\<forall>k \<in> {''from_domain'', ''to_domain'', ''sender_key_id'', ''nonce'', ''expiry'', ''capability'', ''approval''}.
       jget v k = None) \<and>
    json_to_vec fl v' = Inr b \<and> bt_get peers dst = Some base \<and>
    hl_segments hl base [''famp'', ''v0.5.1'', ''inbox'', principal_display dst] = Some url \<and>
    hl_post hl url [(''content-type'', ''application/famp+json'')] b w = (res, w') \<and>
    (r = Inr () \<longleftrightarrow> (\<exists>t. res = Inr (202, t)))"
  using assms(1)
proof (cases rule: relay_oneE)
  case (unsent e)
  then show ?thesis using assms(2) by simp
next
  case (sent src dst b base url res)
  obtain es where es: "v = JObj es" using sent(7) by (rule sign_federationE)
  have "\<forall>k \<in> {''from_domain'', ''to_domain'', ''sender_key_id'', ''nonce'', ''expiry'', ''capability'', ''approval''}.
      jget v k = None"
    using sent(6) by (simp add: es no_owned_fields FEDERATION_OWNED_FIELDS_def)
  with sent show ?thesis by blast
qed

theorem egress_speaks_only_for_own_domain_witness:
  "\<exists>dst b base url res. jget_str (JObj fed_plain) ''to'' = Some (principal_display dst) \<and>
     json_to_vec out_fl (JObj out_signed) = Inr b \<and> bt_get out_peers dst = Some base \<and>
     hl_post out_http url [(''content-type'', ''application/famp+json'')] b [] = (res,
       [([''https://two.example'', ''famp'', ''v0.5.1'', ''inbox'', ''agent:two.example/bob''], [20])])"
  using egress_speaks_only_for_own_domain [OF out_relayed] by blast

text \<open>
  C37: From host to host. An envelope that the bus decodes, relayed by a gateway, is posted as bytes that
  the receiving gateway verifies when it has the sending gateway's key as the active key of the sender: they
  decode to an envelope of the same sender and class, and with the wrapper fields stripped the body is the
  drained envelope again, field for field. Relied on are a working signature scheme and JSON writer, and an
  RFC 3339 text for the expiry.
\<close>

theorem federation_round_trip:
  assumes "honest_signer fl sk" "writer_faithful fl lib"
    and "any_bus_decode lib line = Inr e" "parse_value lib line = Inr v"
    and "relay_one fl lib tm hl peers dr v own sk (sk_verifying_key fl sk) w = (Inr (), v', w')"
    and "\<forall>x. federation_expiry tm (dr_now dr) = Inr x \<longrightarrow> shallow_validate x"
    and "active_key kr (bus_from e) now = KlActive (sk_verifying_key fl sk)"
  shows "\<exists>url res b e' obj. hl_post hl url [(''content-type'', ''application/famp+json'')] b w = (res, w') \<and>
    verify_inbound_any fl lib b kr now = Inr e' \<and> any_from e' = bus_from e \<and> signed_class e' = bus_class e \<and>
    parse_value lib b = Inr (JObj obj) \<and> strip_relay_fields (JObj obj) = v"
  using assms by (rule relayed_verifies)

theorem federation_round_trip_witness:
  "\<exists>b e' obj. verify_inbound_any out_fl out_ext b demo_keyring noon = Inr e' \<and> any_from e' = alice \<and>
     parse_value out_ext b = Inr (JObj obj) \<and> strip_relay_fields (JObj obj) = JObj fed_plain"
proof -
  have "map_sum (\<lambda>_. ()) bus_from (any_bus_decode out_ext [12]) = Inr alice" by code_simp
  then obtain e where e: "any_bus_decode out_ext [12] = Inr e" "bus_from e = alice" by (auto simp: map_sum_Inr_iff)
  have p: "parse_value out_ext [12] = Inr (JObj fed_plain)" by code_simp
  have "honest_signer out_fl key_a" by (simp add: out_fl_def demo_honest)
  moreover have "writer_faithful out_fl out_ext"
    by (auto simp: writer_faithful_def out_fl_def demo_fed_def demo_writer_def out_ext_def split: if_splits)
  moreover have "\<forall>x. federation_expiry out_time (dr_now out_draw) = Inr x \<longrightarrow> shallow_validate x"
    using out_fields(5,6) by simp
  moreover have "active_key demo_keyring alice noon = KlActive key_a" by code_simp
  ultimately show ?thesis
    using federation_round_trip [of out_fl key_a out_ext "[12]" e "JObj fed_plain" out_time out_http out_peers out_draw
        "''one.example''" "[]" "JObj out_signed" _ demo_keyring noon] e p out_relayed out_fl_parts(5)
    by (metis (no_types, lifting))
qed

end
