(* ===== verification/Relay.thy ===== *)
theory Relay
  imports Guard UtcTime
begin

text \<open>
  The store-and-forward relay (\<open>famp-relay/src/queue.rs\<close>, \<open>fetch_auth.rs\<close>, \<open>http.rs\<close>): bounded queues
  of opaque bodies per domain, the signed authorization of a fetch with its replay cache and rate
  limiter, and the two handlers. Maps are iterated only where the order does not matter. The route's
  limit on the body's size is enforced by a layer of the HTTP server and is not modelled; locks are held
  for single steps, and requests are handled one after the other.
\<close>

subsection \<open>Queues\<close>

definition RELAY_QUEUE_MAX_PER_DOMAIN :: nat where "RELAY_QUEUE_MAX_PER_DOMAIN = 1024"
definition RELAY_ENTRY_TTL_SECS :: int where "RELAY_ENTRY_TTL_SECS = 900"
definition RELAY_FETCH_MAX_BATCH :: nat where "RELAY_FETCH_MAX_BATCH = 64"

record queued_envelope =
  qe_recipient :: string
  qe_bytes :: bytes
  qe_queued_at :: instant

datatype enqueue_outcome = Queued | QueuedAfterDroppingOldest

type_synonym relay_queues = "(string, queued_envelope list) btree"

definition queue_of :: "relay_queues \<Rightarrow> string \<Rightarrow> queued_envelope list" where
  "queue_of qs domain = (case bt_get qs domain of None \<Rightarrow> [] | Some q \<Rightarrow> q)"

definition relay_enqueue ::
  "string \<Rightarrow> string \<Rightarrow> bytes \<Rightarrow> instant \<Rightarrow> relay_queues \<Rightarrow> enqueue_outcome \<times> relay_queues" where
  "relay_enqueue domain recipient b now qs =
     (let q = queue_of qs domain;
          full = RELAY_QUEUE_MAX_PER_DOMAIN \<le> length q;
          q' = (if full then drop 1 q else q)
      in (if full then QueuedAfterDroppingOldest else Queued,
          bt_insert domain (q' @ [\<lparr>qe_recipient = recipient, qe_bytes = b, qe_queued_at = now\<rparr>]) qs))"

definition unexpired :: "instant \<Rightarrow> queued_envelope \<Rightarrow> bool" where
  "unexpired now x \<longleftrightarrow> whole_seconds (now - qe_queued_at x) \<le> RELAY_ENTRY_TTL_SECS"

definition retain_unexpired :: "instant \<Rightarrow> queued_envelope list \<Rightarrow> queued_envelope list" where
  "retain_unexpired now q = filter (unexpired now) q"

definition relay_drain ::
  "string \<Rightarrow> instant \<Rightarrow> nat \<Rightarrow> relay_queues \<Rightarrow> queued_envelope list \<times> relay_queues" where
  "relay_drain domain now mx qs =
     (case bt_get qs domain of
        None \<Rightarrow> ([], qs)
      | Some q \<Rightarrow>
          (let q' = retain_unexpired now q; n = min mx (length q')
           in (take n q', bt_insert domain (drop n q') qs)))"

definition relay_sweep :: "instant \<Rightarrow> relay_queues \<Rightarrow> relay_queues" where
  "relay_sweep now qs = bt_retain (\<lambda>_ q. q \<noteq> []) (bt_map (\<lambda>_ q. retain_unexpired now q) qs)"

definition relay_depth :: "relay_queues \<Rightarrow> string \<Rightarrow> nat" where
  "relay_depth qs domain = (case bt_get qs domain of None \<Rightarrow> 0 | Some q \<Rightarrow> length q)"

subsection \<open>Authorization of a fetch\<close>

definition FETCH_AUTH_TYP :: string where "FETCH_AUTH_TYP = ''famp-relay-fetch-v1''"
definition RELAY_AUTH_AUD_HEADER :: string where "RELAY_AUTH_AUD_HEADER = ''x-famp-relay-aud''"
definition RELAY_AUTH_TS_HEADER :: string where "RELAY_AUTH_TS_HEADER = ''x-famp-relay-ts''"
definition RELAY_AUTH_NONCE_HEADER :: string where "RELAY_AUTH_NONCE_HEADER = ''x-famp-relay-nonce''"
definition RELAY_AUTH_SIG_HEADER :: string where "RELAY_AUTH_SIG_HEADER = ''x-famp-relay-sig''"
definition RELAY_AUTH_HEADER_MAX_BYTES :: nat where "RELAY_AUTH_HEADER_MAX_BYTES = 512"
definition FETCH_FRESHNESS_WINDOW_SECS :: int where "FETCH_FRESHNESS_WINDOW_SECS = 300"
definition FETCH_NONCE_TTL_SECS :: int where "FETCH_NONCE_TTL_SECS = 600"
definition FETCH_NONCE_MAX_PER_DOMAIN :: nat where "FETCH_NONCE_MAX_PER_DOMAIN = 4096"
definition FETCH_RATE_MAX_PER_WINDOW :: nat where "FETCH_RATE_MAX_PER_WINDOW = 120"
definition FETCH_RATE_WINDOW_SECS :: int where "FETCH_RATE_WINDOW_SECS = 60"

text \<open>\<open>None\<close> is an overflow of the 64-bit doubling, an error of the compiler's evaluation.\<close>

definition fetch_bounds_ok :: "int \<Rightarrow> int \<Rightarrow> nat \<Rightarrow> nat \<Rightarrow> int \<Rightarrow> bool option" where
  "fetch_bounds_ok freshness_secs nonce_ttl_secs max_nonces rate_max rate_window_secs =
     (if freshness_secs < 0 \<or> nonce_ttl_secs < 0 \<or> rate_window_secs \<le> 0 then Some False
      else if 2 ^ 63 \<le> 2 * freshness_secs then None
      else Some (nonce_ttl_secs \<ge> 2 * freshness_secs \<and>
        int max_nonces \<ge> (nonce_ttl_secs * int rate_max) sdiv rate_window_secs))"

record presented_fetch_auth =
  pf_aud :: string
  pf_ts :: string
  pf_nonce :: string
  pf_signature :: string

datatype fetch_auth_reject =
    FrMissingHeader string
  | FrHeaderTooLong string
  | FrAudienceMismatch string string
  | FrMalformedTimestamp
  | FrStaleFetch
  | FrMalformedSignature
  | FrBadSignature string
  | FrReplayedNonce
  | FrRateLimited

fun fetch_reject_display :: "fetch_auth_reject \<Rightarrow> string" where
  "fetch_reject_display (FrMissingHeader h) = ''missing fetch-authorization header '' @ quoted h"
| "fetch_reject_display (FrHeaderTooLong h) =
     ''fetch-authorization header '' @ quoted h @ '' exceeds the maximum allowed length''"
| "fetch_reject_display (FrAudienceMismatch e p) =
     ''fetch audience mismatch: expected '' @ quoted e @ '', presented '' @ quoted p"
| "fetch_reject_display FrMalformedTimestamp = ''fetch timestamp is not a parseable RFC 3339 value''"
| "fetch_reject_display FrStaleFetch = ''fetch timestamp is outside the freshness window''"
| "fetch_reject_display FrMalformedSignature = ''fetch signature is not valid strict unpadded base64url''"
| "fetch_reject_display (FrBadSignature d) = ''fetch signature did not verify for domain '' @ quoted d"
| "fetch_reject_display FrReplayedNonce = ''fetch authorization nonce was already used for this domain''"
| "fetch_reject_display FrRateLimited = ''fetch rate limit exceeded for this domain''"

text \<open>\<open>FetchAuthRequest\<close>, as the value that is signed.\<close>

definition fetch_auth_request :: "string \<Rightarrow> string \<Rightarrow> string \<Rightarrow> string \<Rightarrow> json" where
  "fetch_auth_request aud domain nonce ts =
     ser_struct [(''typ'', Some (JStr FETCH_AUTH_TYP)), (''aud'', Some (JStr aud)), (''domain'', Some (JStr domain)),
       (''nonce'', Some (JStr nonce)), (''ts'', Some (JStr ts))]"

text \<open>The signer's side; \<open>nonce\<close> is the fresh identifier and \<open>ts\<close> the canonical text of the clock.\<close>

definition sign_fetch_auth ::
  "fed_lib \<Rightarrow> ext_lib \<Rightarrow> signing_key \<Rightarrow> string \<Rightarrow> string \<Rightarrow> uuid \<Rightarrow> string \<Rightarrow> fetch_auth_reject + presented_fetch_auth" where
  "sign_fetch_auth fl lib sk aud domain nonce ts =
     (let n = uuid_show lib nonce in
      case sign_value fl lib sk (fetch_auth_request aud domain n ts) of
        Inl _ \<Rightarrow> Inl FrMalformedSignature
      | Inr sig \<Rightarrow> Inr \<lparr>pf_aud = aud, pf_ts = ts, pf_nonce = n, pf_signature = sig_to_b64url fl sig\<rparr>)"

fun too_long :: "(string \<times> string) list \<Rightarrow> string option" where
  "too_long [] = None"
| "too_long ((h, v) # hs) = (if RELAY_AUTH_HEADER_MAX_BYTES < length v then Some h else too_long hs)"

definition verify_fetch_auth ::
  "fed_lib \<Rightarrow> ext_lib \<Rightarrow> rfc3339 \<Rightarrow> presented_fetch_auth \<Rightarrow> string \<Rightarrow> string \<Rightarrow> verifying_key list \<Rightarrow> instant \<Rightarrow>
   fetch_auth_reject + unit" where
  "verify_fetch_auth fl lib rfc p domain expected_aud ks now =
     (case too_long [(RELAY_AUTH_AUD_HEADER, pf_aud p), (RELAY_AUTH_TS_HEADER, pf_ts p),
                     (RELAY_AUTH_NONCE_HEADER, pf_nonce p), (RELAY_AUTH_SIG_HEADER, pf_signature p)] of
        Some h \<Rightarrow> Inl (FrHeaderTooLong h)
      | None \<Rightarrow>
          if pf_aud p \<noteq> expected_aud then Inl (FrAudienceMismatch expected_aud (pf_aud p))
          else (case rfc (pf_ts p) of
              None \<Rightarrow> Inl FrMalformedTimestamp
            | Some ts_instant \<Rightarrow>
                if FETCH_FRESHNESS_WINDOW_SECS < \<bar>whole_seconds ((now - now mod 1000000000) - ts_instant)\<bar>
                then Inl FrStaleFetch
                else (case sig_from_b64url fl (pf_signature p) of
                    Inl _ \<Rightarrow> Inl FrMalformedSignature
                  | Inr sig \<Rightarrow>
                      if list_ex (\<lambda>k. is_ok (verify_value fl lib k
                           (fetch_auth_request (pf_aud p) domain (pf_nonce p) (pf_ts p)) sig)) ks
                      then Inr () else Inl (FrBadSignature domain))))"

record fetch_auth_state =
  fa_nonces :: replay_cache
  fa_buckets :: rate_limiter

definition fetch_live :: "instant \<Rightarrow> instant \<Rightarrow> bool" where
  "fetch_live now recorded_at \<longleftrightarrow> whole_seconds (now - recorded_at) \<le> FETCH_NONCE_TTL_SECS"

text \<open>The fold for the entry to evict computes the oldest sighting, the least nonce among equals.\<close>

definition fetch_record_nonce ::
  "string \<Rightarrow> string \<Rightarrow> instant \<Rightarrow> fetch_auth_state \<Rightarrow> (fetch_auth_reject + unit) \<times> fetch_auth_state" where
  "fetch_record_nonce domain nonce now st =
     (let seen = bt_retain (\<lambda>_ recorded_at. fetch_live now recorded_at) (nonces (fa_nonces st) domain) in
      if bt_get seen nonce \<noteq> None
      then (Inl FrReplayedNonce, st\<lparr>fa_nonces := bt_insert domain seen (fa_nonces st)\<rparr>)
      else
        (let kept = (if FETCH_NONCE_MAX_PER_DOMAIN \<le> length (bt_entries seen)
                     then (case oldest (bt_entries seen) of Some (k, _) \<Rightarrow> bt_remove k seen | None \<Rightarrow> seen)
                     else seen)
         in (Inr (), st\<lparr>fa_nonces := bt_insert domain (bt_insert nonce now kept) (fa_nonces st)\<rparr>)))"

definition fetch_admit ::
  "string \<Rightarrow> instant \<Rightarrow> fetch_auth_state \<Rightarrow> (fetch_auth_reject + unit) \<times> fetch_auth_state" where
  "fetch_admit domain now st =
     (let b = (case bt_get (fa_buckets st) domain of None \<Rightarrow> (now, 0) | Some b \<Rightarrow> b);
          b = (if whole_seconds (now - fst b) \<ge> FETCH_RATE_WINDOW_SECS then (now, 0) else b)
      in if FETCH_RATE_MAX_PER_WINDOW \<le> snd b
         then (Inl FrRateLimited, st\<lparr>fa_buckets := bt_insert domain b (fa_buckets st)\<rparr>)
         else (Inr (), st\<lparr>fa_buckets := bt_insert domain (fst b, snd b + 1) (fa_buckets st)\<rparr>))"

definition fetch_sweep :: "instant \<Rightarrow> fetch_auth_state \<Rightarrow> fetch_auth_state" where
  "fetch_sweep now st =
     st\<lparr>fa_nonces := bt_retain (\<lambda>_ seen. bt_entries seen \<noteq> [])
       (bt_map (\<lambda>_ seen. bt_retain (\<lambda>_ recorded_at. fetch_live now recorded_at) seen) (fa_nonces st))\<rparr>"

definition nonce_len_for :: "fetch_auth_state \<Rightarrow> string \<Rightarrow> nat" where
  "nonce_len_for st domain =
     (case bt_get (fa_nonces st) domain of None \<Rightarrow> 0 | Some m \<Rightarrow> length (bt_entries m))"

subsection \<open>The handlers\<close>

record relay_state =
  rs_queues :: relay_queues
  rs_auth :: fetch_auth_state
  rs_domains :: "(string, verifying_key list) btree"
  rs_audience :: string

definition relay_state_new :: "(string, verifying_key list) btree \<Rightarrow> string \<Rightarrow> relay_state" where
  "relay_state_new domains audience =
     \<lparr>rs_queues = bt_empty, rs_auth = \<lparr>fa_nonces = bt_empty, fa_buckets = bt_empty\<rparr>, rs_domains = domains,
      rs_audience = audience\<rparr>"

definition extract_domain :: "string \<Rightarrow> string option" where
  "extract_domain p =
     (case strip_prefix ''agent:'' p of
        None \<Rightarrow> None
      | Some rest \<Rightarrow>
          (case split_at_char (CHR ''/'') rest of
             None \<Rightarrow> None
           | Some (domain, _) \<Rightarrow> if domain = [] then None else Some domain))"

type_synonym response = "nat \<times> json option"

definition enqueue_handler :: "string \<Rightarrow> bytes \<Rightarrow> instant \<Rightarrow> relay_state \<Rightarrow> response \<times> relay_state" where
  "enqueue_handler p body now s =
     (case extract_domain p of
        None \<Rightarrow> ((400, None), s)
      | Some domain \<Rightarrow>
          if bt_get (rs_domains s) domain = None then ((404, None), s)
          else ((202, None), s\<lparr>rs_queues := snd (relay_enqueue domain p body now (rs_queues s))\<rparr>))"

text \<open>A header is what \<open>HeaderMap::get\<close> and \<open>HeaderValue::to_str\<close> give for its name.\<close>

type_synonym headers = "string \<Rightarrow> string option option"

definition extract_header :: "headers \<Rightarrow> string \<Rightarrow> fetch_auth_reject + string" where
  "extract_header hs name = ok_or (FrMissingHeader name) (Option.bind (hs name) id)"

definition batch_json :: "fed_lib \<Rightarrow> queued_envelope list \<Rightarrow> json" where
  "batch_json fl drained =
     JObj [(''envelopes'', JArr (map (\<lambda>x. ser_struct
       [(''to'', Some (JStr (qe_recipient x))), (''body'', Some (JStr (b64_encode fl (qe_bytes x))))]) drained))]"

definition present_headers :: "headers \<Rightarrow> fetch_auth_reject + presented_fetch_auth" where
  "present_headers hs =
     res_bind (extract_header hs RELAY_AUTH_AUD_HEADER) (\<lambda>aud.
     res_bind (extract_header hs RELAY_AUTH_TS_HEADER) (\<lambda>ts.
     res_bind (extract_header hs RELAY_AUTH_NONCE_HEADER) (\<lambda>nonce.
     res_bind (extract_header hs RELAY_AUTH_SIG_HEADER) (\<lambda>sig.
     Inr \<lparr>pf_aud = aud, pf_ts = ts, pf_nonce = nonce, pf_signature = sig\<rparr>))))"

definition ingest_fetch ::
  "fed_lib \<Rightarrow> ext_lib \<Rightarrow> rfc3339 \<Rightarrow> string \<Rightarrow> verifying_key list \<Rightarrow> headers \<Rightarrow> instant \<Rightarrow> relay_state \<Rightarrow>
   (fetch_auth_reject + response) \<times> relay_state" where
  "ingest_fetch fl lib rfc domain ks hs now s =
     (case present_headers hs of Inl e \<Rightarrow> (Inl e, s) | Inr p \<Rightarrow>
     (case fetch_admit domain now (rs_auth s) of
        (Inl e, a) \<Rightarrow> (Inl e, s\<lparr>rs_auth := a\<rparr>)
      | (Inr _, a) \<Rightarrow>
          (case verify_fetch_auth fl lib rfc p domain (rs_audience s) ks now of
             Inl e \<Rightarrow> (Inl e, s\<lparr>rs_auth := a\<rparr>)
           | Inr _ \<Rightarrow>
               (case fetch_record_nonce domain (pf_nonce p) now a of
                  (Inl e, a') \<Rightarrow> (Inl e, s\<lparr>rs_auth := a'\<rparr>)
                | (Inr _, a') \<Rightarrow>
                    (case relay_drain domain now RELAY_FETCH_MAX_BATCH (rs_queues s) of
                       (drained, qs) \<Rightarrow>
                         (Inr (200, Some (batch_json fl drained)), s\<lparr>rs_auth := a', rs_queues := qs\<rparr>))))))"

fun fetch_status_and_slug :: "fetch_auth_reject \<Rightarrow> nat \<times> string" where
  "fetch_status_and_slug (FrMissingHeader _) = (400, ''missing_fetch_auth'')"
| "fetch_status_and_slug (FrHeaderTooLong _) = (400, ''fetch_header_too_long'')"
| "fetch_status_and_slug (FrAudienceMismatch _ _) = (400, ''fetch_audience_mismatch'')"
| "fetch_status_and_slug FrMalformedTimestamp = (400, ''fetch_malformed_timestamp'')"
| "fetch_status_and_slug FrStaleFetch = (401, ''stale_fetch'')"
| "fetch_status_and_slug FrMalformedSignature = (400, ''fetch_malformed_signature'')"
| "fetch_status_and_slug (FrBadSignature _) = (403, ''fetch_bad_signature'')"
| "fetch_status_and_slug FrReplayedNonce = (403, ''replayed_fetch'')"
| "fetch_status_and_slug FrRateLimited = (429, ''fetch_rate_limited'')"

definition fetch_reject_response :: "fetch_auth_reject \<Rightarrow> response" where
  "fetch_reject_response reject =
     (fst (fetch_status_and_slug reject),
      Some (ser_struct [(''error'', Some (JStr (snd (fetch_status_and_slug reject)))),
        (''detail'', Some (JStr (fetch_reject_display reject)))]))"

definition fetch_handler ::
  "fed_lib \<Rightarrow> ext_lib \<Rightarrow> rfc3339 \<Rightarrow> string \<Rightarrow> headers \<Rightarrow> instant \<Rightarrow> relay_state \<Rightarrow> response \<times> relay_state" where
  "fetch_handler fl lib rfc domain hs now s =
     (case bt_get (rs_domains s) domain of
        None \<Rightarrow> ((404, Some (JObj [(''error'', JStr ''unknown_domain'')])), s)
      | Some ks \<Rightarrow>
          (case ingest_fetch fl lib rfc domain ks hs now s of
             (Inr response, s') \<Rightarrow> (response, s')
           | (Inl reject, s') \<Rightarrow> (fetch_reject_response reject, s')))"

end
