(* ===== verification/RelayProps.thy ===== *)
theory RelayProps
  imports Relay FedScenario Client
begin

text \<open>
  What the relay promises: only the holder of a configured key of a domain drains the domain's queue, in
  the order in which the bodies came and unchanged. And what the bus client promises: connecting ends.
\<close>

subsection \<open>Fetching\<close>

lemma verify_fetch_authE:
  assumes "verify_fetch_auth fl lib rfc p domain aud ks now = Inr ()"
  obtains k sig t where "k \<in> set ks" "sig_from_b64url fl (pf_signature p) = Inr sig" "pf_aud p = aud"
    "verify_value fl lib k (fetch_auth_request aud domain (pf_nonce p) (pf_ts p)) sig = Inr ()"
    "rfc (pf_ts p) = Some t" "\<bar>whole_seconds ((now - now mod 1000000000) - t)\<bar> \<le> 300"
  using assms
  by (auto simp: verify_fetch_auth_def list_ex_iff is_ok_iff FETCH_FRESHNESS_WINDOW_SECS_def
      split: option.splits if_splits sum.splits)

lemma fetch_recordE:
  assumes "fetch_record_nonce domain n now a = (Inr (), a')"
  shows "\<forall>t. bt_get (nonces (fa_nonces a) domain) n = Some t \<longrightarrow> 600 < whole_seconds (now - t)"
    "bt_get (nonces (fa_nonces a') domain) n = Some now" "fa_buckets a' = fa_buckets a"
  using assms
  by (auto simp: fetch_record_nonce_def Let_def nonces_def fetch_live_def FETCH_NONCE_TTL_SECS_def bt_get_retain
      split: if_splits option.splits)

lemma fetch_admit_nonces: "fetch_admit domain now a = (r, a') \<Longrightarrow> fa_nonces a' = fa_nonces a"
  by (auto simp: fetch_admit_def Let_def split: if_splits)

lemma relay_drain_spec:
  assumes "relay_drain domain now mx qs = (taken, qs')"
  shows "retain_unexpired now (queue_of qs domain) = taken @ queue_of qs' domain"
    "length taken \<le> mx" "queue_of qs' domain \<noteq> [] \<Longrightarrow> length taken = mx"
    "d \<noteq> domain \<Longrightarrow> queue_of qs' d = queue_of qs d"
  using assms
  by (auto simp: relay_drain_def Let_def queue_of_def retain_unexpired_def min_def split: option.splits if_splits)

lemma ingest_fetchE:
  assumes "ingest_fetch fl lib rfc domain ks hs now s = (r, s')"
  obtains (refused) e a where "r = Inl e" "s' = s\<lparr>rs_auth := a\<rparr>"
  | (drained) p a a' taken qs where "present_headers hs = Inr p" "fetch_admit domain now (rs_auth s) = (Inr (), a)"
      "verify_fetch_auth fl lib rfc p domain (rs_audience s) ks now = Inr ()"
      "fetch_record_nonce domain (pf_nonce p) now a = (Inr (), a')"
      "relay_drain domain now 64 (rs_queues s) = (taken, qs)"
      "r = Inr (200, Some (batch_json fl taken))" "s' = s\<lparr>rs_auth := a', rs_queues := qs\<rparr>"
proof (cases "present_headers hs")
  case (Inl e)
  then show thesis using assms by (intro refused [of e "rs_auth s"]) (auto simp: ingest_fetch_def)
next
  case p: (Inr p)
  obtain x a where a: "fetch_admit domain now (rs_auth s) = (x, a)" by fastforce
  show thesis
  proof (cases "x = Inr () \<and> verify_fetch_auth fl lib rfc p domain (rs_audience s) ks now = Inr ()")
    case False
    then show thesis
      using assms p a by (auto simp: ingest_fetch_def split: sum.splits intro: refused)
  next
    case ok: True
    obtain y a' where y: "fetch_record_nonce domain (pf_nonce p) now a = (y, a')" by fastforce
    show thesis
    proof (cases y)
      case (Inl e)
      then show thesis using assms p a ok y by (intro refused [of e a']) (auto simp: ingest_fetch_def)
    next
      case (Inr u)
      then show thesis
        using assms p a ok y
        by (auto simp: ingest_fetch_def RELAY_FETCH_MAX_BATCH_def split: prod.splits intro!: drained)
    qed
  qed
qed

lemma refusal_not_200: "fst (fetch_reject_response e) \<noteq> 200"
  by (cases e) (simp_all add: fetch_reject_response_def)

lemma present_headers_Inr:
  "present_headers hs = Inr p \<longleftrightarrow> hs RELAY_AUTH_AUD_HEADER = Some (Some (pf_aud p)) \<and>
     hs RELAY_AUTH_TS_HEADER = Some (Some (pf_ts p)) \<and> hs RELAY_AUTH_NONCE_HEADER = Some (Some (pf_nonce p)) \<and>
     hs RELAY_AUTH_SIG_HEADER = Some (Some (pf_signature p))"
  by (cases p) (auto simp: present_headers_def extract_header_def res_bind_Inr_iff split: bind_splits)

text \<open>
  C39: On the fetch route only the key holder drains a queue. Whatever is asked of the fetch route, a domain's queue changes
  only when the answer is 200. Then the request carried a signature by one of the keys configured for the
  domain over the relay's own address, the domain, a timestamp within 300 seconds of the relay's clock and a
  nonce not used for the domain in the last 600 seconds; the answer holds the oldest unexpired bodies in order,
  at most 64 of them and fewer only if none is left, each as it was queued; exactly these and the expired ones
  are gone, and other domains' queues are untouched.
\<close>

theorem fetch_drains_only_for_key_holder:
  assumes "fetch_handler fl lib rfc domain hs now s = ((code, answer), s')"
  shows "(code \<noteq> 200 \<longrightarrow> rs_queues s' = rs_queues s) \<and>
    (code = 200 \<longrightarrow> (\<exists>ks k sig nonce ts st t taken. bt_get (rs_domains s) domain = Some ks \<and> k \<in> set ks \<and>
       hs ''x-famp-relay-nonce'' = Some (Some nonce) \<and> hs ''x-famp-relay-ts'' = Some (Some ts) \<and>
       hs ''x-famp-relay-sig'' = Some (Some st) \<and> sig_from_b64url fl st = Inr sig \<and>
       verify_value fl lib k (fetch_auth_request (rs_audience s) domain nonce ts) sig = Inr () \<and>
       rfc ts = Some t \<and> \<bar>whole_seconds ((now - now mod 1000000000) - t)\<bar> \<le> 300 \<and>
       (\<forall>u. bt_get (nonces (fa_nonces (rs_auth s)) domain) nonce = Some u \<longrightarrow> 600 < whole_seconds (now - u)) \<and>
       answer = Some (batch_json fl taken) \<and> length taken \<le> 64 \<and>
       filter (unexpired now) (queue_of (rs_queues s) domain) = taken @ queue_of (rs_queues s') domain \<and>
       (queue_of (rs_queues s') domain \<noteq> [] \<longrightarrow> length taken = 64) \<and>
       (\<forall>d. d \<noteq> domain \<longrightarrow> queue_of (rs_queues s') d = queue_of (rs_queues s) d)))"
proof (cases "bt_get (rs_domains s) domain")
  case None
  then show ?thesis using assms by (auto simp: fetch_handler_def)
next
  case ks: (Some ks)
  obtain r where r: "ingest_fetch fl lib rfc domain ks hs now s = (r, s')"
      "(code, answer) = (case r of Inr x \<Rightarrow> x | Inl e \<Rightarrow> fetch_reject_response e)"
    using assms ks by (auto simp: fetch_handler_def split: prod.splits sum.splits)
  from r(1) show ?thesis
  proof (cases rule: ingest_fetchE)
    case (refused e a)
    then show ?thesis using r(2) refusal_not_200 [of e] by (auto dest: sym)
  next
    case (drained p a a' taken qs)
    obtain k sig t where v: "k \<in> set ks" "sig_from_b64url fl (pf_signature p) = Inr sig"
      "verify_value fl lib k (fetch_auth_request (rs_audience s) domain (pf_nonce p) (pf_ts p)) sig = Inr ()"
      "rfc (pf_ts p) = Some t" "\<bar>whole_seconds ((now - now mod 1000000000) - t)\<bar> \<le> 300"
      using verify_fetch_authE [OF drained(3)] by metis
    note h = drained(1) [unfolded present_headers_Inr RELAY_AUTH_TS_HEADER_def RELAY_AUTH_NONCE_HEADER_def
        RELAY_AUTH_SIG_HEADER_def]
    note q = relay_drain_spec [OF drained(5)]
    have "code = 200" "answer = Some (batch_json fl taken)" using r(2) drained(6) by simp_all
    moreover have "rs_queues s' = qs" using drained(7) by simp
    ultimately show ?thesis
      using ks v h q fetch_recordE(1) [OF drained(4)] fetch_admit_nonces [OF drained(2)]
      apply (intro conjI impI)
       apply simp
      apply (rule exI [of _ ks], rule exI [of _ k], rule exI [of _ sig], rule exI [of _ "pf_nonce p"], rule exI [of _ "pf_ts p"],
          rule exI [of _ "pf_signature p"], rule exI [of _ t], rule exI [of _ taken])
      apply (simp add: retain_unexpired_def)
      done
  qed
qed

text \<open>Two bodies wait for \<open>two.example\<close>, and its gateway asks for them.\<close>

definition relay_request :: json where
  "relay_request = fetch_auth_request ''https://relay'' ''two.example'' ''n1'' noon"

definition relay_fl :: fed_lib where
  "relay_fl = (demo_fed [])
     \<lparr>b64_encode := (\<lambda>_. ''b''), b64_decode := (\<lambda>t. if t = ''sig'' then Some (replicate 64 1) else None),
      ed_verify_strict := (\<lambda>k m t. k = key_b \<and> m = DOMAIN_PREFIX @ [11] \<and> t = replicate 64 1)\<rparr>"

definition relay_ext :: ext_lib where
  "relay_ext =
     \<lparr>lex = (\<lambda>_. []), jcs = (\<lambda>v. Inr (if v = relay_request then [11] else [12])), uuid_parse = (\<lambda>_. None),
      uuid_show = (\<lambda>_. ''n1'')\<rparr>"

definition relay_headers :: headers where
  "relay_headers h = map_option Some (map_of
     [(''x-famp-relay-aud'', ''https://relay''), (''x-famp-relay-ts'', noon), (''x-famp-relay-nonce'', ''n1''),
      (''x-famp-relay-sig'', ''sig'')] h)"

definition relay_before :: relay_state where
  "relay_before =
     snd (enqueue_handler ''agent:two.example/bob'' [2] 5 (snd (enqueue_handler ''agent:two.example/bob'' [1] 0
       (relay_state_new (bt_insert ''two.example'' [key_a, key_b] bt_empty) ''https://relay''))))"

abbreviation relay_asked :: "response \<times> relay_state" where
  "relay_asked \<equiv> fetch_handler relay_fl relay_ext (\<lambda>t. if t = noon then Some 0 else None) ''two.example'' relay_headers 9
     relay_before"

theorem fetch_drains_only_for_key_holder_witness:
  "\<exists>taken. snd (fst relay_asked) = Some (batch_json relay_fl taken) \<and>
     filter (unexpired 9) (queue_of (rs_queues relay_before) ''two.example'') =
       taken @ queue_of (rs_queues (snd relay_asked)) ''two.example''"
proof -
  have c: "fst (fst relay_asked) = 200" by code_simp
  obtain code answer s' where h: "relay_asked = ((code, answer), s')" by (metis prod.collapse)
  from fetch_drains_only_for_key_holder [OF h] show ?thesis using c h by auto
qed

subsection \<open>Connecting\<close>

text \<open>A socket that counts the attempts to open it, those to see whether a broker is there included.\<close>

definition carry :: "('w \<Rightarrow> 'a \<times> 'w) \<Rightarrow> nat \<times> 'w \<Rightarrow> 'a \<times> nat \<times> 'w" where
  "carry f = (\<lambda>(n, w). case f w of (r, w') \<Rightarrow> (r, n, w'))"

definition carried :: "'w launcher \<Rightarrow> (nat \<times> 'w) launcher" where
  "carried la =
     \<lparr>ln_has_parent = ln_has_parent la, ln_path_utf8 = ln_path_utf8 la, ln_create_dir = carry (ln_create_dir la),
      ln_bind_probe = carry (ln_bind_probe la), ln_remove_probe = carry (ln_remove_probe la),
      ln_open_log = carry (ln_open_log la), ln_current_exe = carry (ln_current_exe la), ln_start = carry (ln_start la)\<rparr>"

definition counted :: "'w link \<Rightarrow> (nat \<times> 'w) link" where
  "counted lk =
     \<lparr>lk_launcher = carried (lk_launcher lk),
      lk_open = (\<lambda>(n, w). case lk_open lk w of (r, w') \<Rightarrow> (r, n + 1, w')),
      lk_sleep = (\<lambda>ms (n, w). (n, lk_sleep lk ms w)),
      lk_exchange = (\<lambda>c m (n, w). case lk_exchange lk c m w of (r, w') \<Rightarrow> (r, n, w'))\<rparr>"

definition opens :: "'a \<times> nat \<times> 'w \<Rightarrow> nat" where "opens x = fst (snd x)"

lemma opens_simps [simp]: "opens (r, n, w) = n"
  by (simp add: opens_def)

lemma counted_open:
  "lk_open (counted lk) (n, w) = (fst (lk_open lk w), n + 1, snd (lk_open lk w))"
  "lk_sleep (counted lk) ms (n, w) = (n, lk_sleep lk ms w)"
  by (simp_all add: counted_def split: prod.split)

text \<open>Starting the process does not open the socket.\<close>

lemma carry_eq: "carry f (n, w) = (fst (f w), n, snd (f w))"
  by (simp add: carry_def split: prod.split)

lemma carry_simps:
  "apfst h (carry f s) = carry (\<lambda>w. apfst h (f w)) s"
  "io_then (carry f s) (carry g) = carry (\<lambda>w. io_then (f w) g) s"
  "io_then (carry f s) (Pair r) = carry (\<lambda>w. io_then (f w) (Pair r)) s"
  by (cases s; cases "fst (f (snd s))"; cases "f (snd s)"; simp add: carry_eq)+

lemma preflight_carried: "preflight_bind_probe (carried la) = carry (preflight_bind_probe la)"
proof
  fix s
  show "preflight_bind_probe (carried la) s = carry (preflight_bind_probe la) s"
    by (cases s) (auto simp: preflight_bind_probe_def carried_def carry_eq split: prod.split sum.split bind_error.split)
qed

lemma launch_carried: "launch_broker (carried la) s = carry (launch_broker la) s"
proof (cases "ln_has_parent la")
  case True
  then show ?thesis
    by (cases "ln_path_utf8 la")
      (simp_all add: launch_broker_def [abs_def] preflight_carried carry_simps, simp_all add: carried_def carry_simps)
next
  case False
  then show ?thesis by (cases s) (simp add: launch_broker_def carried_def carry_eq)
qed

lemma launch_counted:
  "launch_broker (lk_launcher (counted lk)) (n, w) =
     (fst (launch_broker (lk_launcher lk) w), n, snd (launch_broker (lk_launcher lk) w))"
  by (simp add: counted_def launch_carried carry_eq)

lemma spawn_poll_opens:
  "opens (spawn_poll (counted lk) k (n, w)) \<le> n + k \<and>
   (fst (spawn_poll (counted lk) k (n, w)) = Inl e \<longrightarrow> opens (spawn_poll (counted lk) k (n, w)) = n + k)"
proof (induction k arbitrary: n w)
  case (Suc k)
  then show ?case
    using Suc.IH [of "n + 1" "snd (lk_open lk (lk_sleep lk 200 w))"] by (simp add: counted_open split: sum.split)
qed simp

lemma spawn_opens:
  assumes "spawn_broker_if_absent (counted lk) (0, w) = (r, n, w')"
  shows "n \<le> 11"
proof -
  obtain q w1 where q: "lk_open lk w = (q, w1)" by fastforce
  obtain l w2 where l: "launch_broker (lk_launcher lk) w1 = (l, w2)" by fastforce
  show ?thesis
    using assms q l launch_counted [of lk 1 w1] spawn_poll_opens [of lk 10 1 w2]
    by (cases q; cases l) (auto simp: spawn_broker_if_absent_def counted_open)
qed

lemma spawn_poll_unanswered:
  assumes "\<And>w. \<exists>e. fst (lk_open lk w) = Inl e"
  shows "fst (spawn_poll (counted lk) k (n, w)) = Inl SpBrokerDidNotStart \<and> opens (spawn_poll (counted lk) k (n, w)) = n + k"
proof (induction k arbitrary: n w)
  case (Suc k)
  obtain e where "fst (lk_open lk (lk_sleep lk 200 w)) = Inl e" using assms by blast
  then show ?case using Suc by (simp add: counted_open)
qed simp

lemma spawn_unanswered:
  assumes "\<And>w. \<exists>e. fst (lk_open lk w) = Inl e"
  shows "\<exists>e. fst (spawn_broker_if_absent (counted lk) (0, w)) = Inl e \<and>
    (if is_ok (fst (launch_broker (lk_launcher lk) (snd (lk_open lk w))))
     then e = SpBrokerDidNotStart \<and> opens (spawn_broker_if_absent (counted lk) (0, w)) = 11
     else fst (launch_broker (lk_launcher lk) (snd (lk_open lk w))) = Inl e \<and>
       opens (spawn_broker_if_absent (counted lk) (0, w)) = 1)"
proof -
  obtain e0 w1 where o: "lk_open lk w = (Inl e0, w1)" using assms [of w] by (metis prod.collapse)
  obtain l w2 where l: "launch_broker (lk_launcher lk) w1 = (l, w2)" by fastforce
  have "spawn_broker_if_absent (counted lk) (0, w) = io_then (l, 1, w2) (spawn_poll (counted lk) 10)"
    using o l launch_counted [of lk 1 w1] by (simp add: spawn_broker_if_absent_def counted_open)
  then show ?thesis
    using o l spawn_poll_unanswered [OF assms, of 10 1 w2] by (cases l) auto
qed

lemma connect_loop_step:
  "connect_loop (counted lk) a (n, w) =
     (case lk_open lk w of
        (Inr c, w') \<Rightarrow> (Inr c, n + 1, w')
      | (Inl e, w') \<Rightarrow>
          if (e = IoNotFound \<or> e = IoConnectionRefused) \<and> a + 1 < 20
          then connect_loop (counted lk) (a + 1) (n + 1, lk_sleep lk 100 w')
          else (Inl (BcIo e), n + 1, w'))"
  by (subst connect_loop.simps) (auto simp: counted_def split: prod.splits sum.splits)

lemma connect_loop_counted:
  "a < 20 \<Longrightarrow> fst (snd (connect_loop (counted lk) a (n, w))) \<le> n + (20 - a)"
proof (induction "20 - a" arbitrary: a n w)
  case (Suc d)
  have "fst (snd (connect_loop (counted lk) (a + 1) (n + 1, w'))) \<le> n + (20 - a)" if "a + 1 < 20" for w'
  proof -
    have "d = 20 - (a + 1)" using Suc(2) by simp
    from Suc(1) [OF this that, of "n + 1" w'] that show ?thesis by linarith
  qed
  then show ?case
    using Suc.prems by (auto simp: connect_loop_step [of lk a n w] split: prod.split sum.split)
qed simp

lemma greet_counted: "fst (snd (greet (counted lk) agent c who (n, w))) = n"
  by (simp add: greet_def client_send_recv_def counted_def Let_def split: prod.splits sum.splits)

text \<open>
  C40: Connecting to the broker ends. Whatever the socket and the system do, the client opens the socket at
  most 31 times before it returns: once to see whether a broker is there, at most ten times while it waits for
  the one it started, and at most twenty times to connect. Where no broker ever answers, it opens it once when
  none can be started, reporting why, and otherwise eleven times, reporting that the broker did not start; the
  twenty attempts to connect are then not made. Where a broker answers at once, it is opened twice.
\<close>

theorem connect_ends:
  "opens (connect (counted lk) version who (0, w)) \<le> 31 \<and>
   ((\<forall>w. \<exists>e. fst (lk_open lk w) = Inl e) \<longrightarrow>
    (case fst (launch_broker (lk_launcher lk) (snd (lk_open lk w))) of
       Inr _ \<Rightarrow> fst (connect (counted lk) version who (0, w)) = Inl (BcBrokerDidNotStart SpBrokerDidNotStart) \<and>
         opens (connect (counted lk) version who (0, w)) = 11
     | Inl e \<Rightarrow> fst (connect (counted lk) version who (0, w)) = Inl (BcBrokerDidNotStart e) \<and>
         opens (connect (counted lk) version who (0, w)) = 1)) \<and>
   ((\<forall>w. \<exists>c. fst (lk_open lk w) = Inr c) \<longrightarrow> opens (connect (counted lk) version who (0, w)) = 2)"
proof (intro conjI impI)
  obtain r n w1 where sp: "spawn_broker_if_absent (counted lk) (0, w) = (r, n, w1)" by (metis prod.collapse)
  have n: "n \<le> 11" by (rule spawn_opens [OF sp])
  obtain q k w2 where q: "connect_loop (counted lk) 0 (n, w1) = (q, k, w2)" by (metis prod.collapse)
  have k: "k \<le> n + 20" using connect_loop_counted [of 0 lk n w1] q by simp
  show "opens (connect (counted lk) version who (0, w)) \<le> 31"
    using sp q n k greet_counted [of lk _ _ who k w2] by (cases r; cases q) (simp_all add: connect_def opens_def)
  {
    assume "\<forall>w. \<exists>e. fst (lk_open lk w) = Inl e"
    then have "\<And>w. \<exists>e. fst (lk_open lk w) = Inl e" by blast
    from spawn_unanswered [OF this, of w] sp
    show "case fst (launch_broker (lk_launcher lk) (snd (lk_open lk w))) of
       Inr _ \<Rightarrow> fst (connect (counted lk) version who (0, w)) = Inl (BcBrokerDidNotStart SpBrokerDidNotStart) \<and>
         opens (connect (counted lk) version who (0, w)) = 11
     | Inl e \<Rightarrow> fst (connect (counted lk) version who (0, w)) = Inl (BcBrokerDidNotStart e) \<and>
         opens (connect (counted lk) version who (0, w)) = 1"
      by (auto simp: connect_def split: sum.splits)
  next
    assume a: "\<forall>w. \<exists>c. fst (lk_open lk w) = Inr c"
    obtain c v where c: "lk_open lk w = (Inr c, v)" using a [rule_format, of w] by (metis prod.collapse)
    obtain d v' where d: "lk_open lk v = (Inr d, v')" using a [rule_format, of v] by (metis prod.collapse)
    show "opens (connect (counted lk) version who (0, w)) = 2"
      using c d greet_counted [of lk _ d who "Suc (Suc 0)" v']
      by (simp add: connect_def spawn_broker_if_absent_def counted_open connect_loop_step opens_def)
  }
qed

definition absent_broker :: "nat link" where
  "absent_broker =
     \<lparr>lk_launcher = \<lparr>ln_has_parent = True, ln_path_utf8 = True, ln_create_dir = Pair (Inr ()), ln_bind_probe = Pair (Inr ()),
        ln_remove_probe = Pair (Inr ()), ln_open_log = Pair (Inr ()), ln_current_exe = Pair (Inr ()), ln_start = Pair (Inr ())\<rparr>,
      lk_open = Pair (Inl IoNotFound), lk_sleep = (\<lambda>ms w. w + ms), lk_exchange = (\<lambda>c m w. (Inl (BcIo IoOther), w))\<rparr>"

text \<open>The child process dies before it listens.\<close>

theorem connect_ends_witness:
  "fst (connect (counted absent_broker) ''1'' None (0, 0)) = Inl (BcBrokerDidNotStart SpBrokerDidNotStart) \<and>
   opens (connect (counted absent_broker) ''1'' None (0, 0)) = 11"
proof -
  have "\<forall>w. \<exists>e. fst (lk_open absent_broker w) = Inl e" by (simp add: absent_broker_def)
  moreover have "fst (launch_broker (lk_launcher absent_broker) (snd (lk_open absent_broker 0))) = Inr ()" by code_simp
  ultimately show ?thesis using connect_ends [of absent_broker "''1''" None 0] by simp
qed

end
