(* ===== verification/RelayFetch.thy ===== *)
theory RelayFetch
  imports Relay Egress Ingress
begin

text \<open>
  The gateway's relay poller (\<open>famp-gateway/src/relay_fetch.rs\<close>): signing and sending a fetch, sorting
  the answers by their status, decoding a batch, handing every body to the same ingest core as the
  inbox route, and the backoff between rounds. The HTTP client is the parameter \<open>get\<close>; the clock texts
  of the single ingests are the argument \<open>nows\<close>.
\<close>

definition RELAY_POLL_INTERVAL_MS :: nat where "RELAY_POLL_INTERVAL_MS = 1000"
definition RELAY_FETCH_BACKOFF_MAX_MS :: nat where "RELAY_FETCH_BACKOFF_MAX_MS = 30000"
definition RELAY_FETCH_ROUTE :: string where "RELAY_FETCH_ROUTE = ''/famp/relay/v1/fetch/{domain}''"

datatype relay_fetch_error =
    RfTransport | RfMalformedResponse | RfUnauthorized | RfRateLimited | RfAuthBuild | RfBadRecipient

subsection \<open>The batch\<close>

text \<open>
  The derived deserializers: a known field occurs once, other fields are skipped, and an array stands
  for the fields in order. They read the value before repeated keys are merged; their errors are not told
  apart.
\<close>

definition field_once :: "(string \<times> json) list \<Rightarrow> string \<Rightarrow> json option" where
  "field_once es k = (case filter (\<lambda>(j, v). j = k) es of [(_, v)] \<Rightarrow> Some v | _ \<Rightarrow> None)"

definition de_fetch_batch_entry :: "json \<Rightarrow> (string \<times> string) option" where
  "de_fetch_batch_entry v =
     (case v of
        JObj es \<Rightarrow>
          (case (field_once es ''to'', field_once es ''body'') of
             (Some (JStr to), Some (JStr body)) \<Rightarrow> Some (to, body)
           | _ \<Rightarrow> None)
      | JArr [JStr to, JStr body] \<Rightarrow> Some (to, body)
      | _ \<Rightarrow> None)"

definition de_fetch_batch_response :: "json \<Rightarrow> (string \<times> string) list option" where
  "de_fetch_batch_response v =
     (case v of
        JObj es \<Rightarrow>
          (case field_once es ''envelopes'' of
             Some (JArr vs) \<Rightarrow> those (map de_fetch_batch_entry vs)
           | _ \<Rightarrow> None)
      | JArr [JArr vs] \<Rightarrow> those (map de_fetch_batch_entry vs)
      | _ \<Rightarrow> None)"

fun decode_entries :: "fed_lib \<Rightarrow> (string \<times> string) list \<Rightarrow> relay_fetch_error + (principal \<times> bytes) list" where
  "decode_entries fl [] = Inr []"
| "decode_entries fl ((to, body) # es) =
     res_bind (map_err (\<lambda>_. RfBadRecipient) (principal_from_str to)) (\<lambda>p.
     res_bind (ok_or RfMalformedResponse (b64_decode fl body)) (\<lambda>b.
     map_sum id (\<lambda>r. (p, b) # r) (decode_entries fl es)))"

definition decode_fetch_batch :: "fed_lib \<Rightarrow> ext_lib \<Rightarrow> bytes \<Rightarrow> relay_fetch_error + (principal \<times> bytes) list" where
  "decode_fetch_batch fl lib body =
     (case plain_tree (JReading []) (lex lib body) of
        Inl _ \<Rightarrow> Inl RfMalformedResponse
      | Inr v \<Rightarrow>
          (case de_fetch_batch_response v of
             None \<Rightarrow> Inl RfMalformedResponse
           | Some es \<Rightarrow> decode_entries fl es))"

subsection \<open>One round\<close>

datatype fetch_outcome = FoSuccess | FoUnauthorized | FoRateLimited | FoOther

definition classify_fetch_status :: "nat \<Rightarrow> fetch_outcome" where
  "classify_fetch_status status =
     (if status = 200 then FoSuccess
      else if status = 401 \<or> status = 403 then FoUnauthorized
      else if status = 429 then FoRateLimited
      else FoOther)"

definition next_backoff_ms :: "nat \<Rightarrow> nat" where
  "next_backoff_ms current_ms = min (min (current_ms * 2) (2 ^ 64 - 1)) RELAY_FETCH_BACKOFF_MAX_MS"

definition to_ascii_lowercase :: "string \<Rightarrow> string" where
  "to_ascii_lowercase s =
     map (\<lambda>c. if 65 \<le> (of_char c :: nat) \<and> (of_char c :: nat) \<le> 90 then char_of ((of_char c :: nat) + 32) else c) s"

text \<open>The parts of the address are what the \<open>url\<close> crate gives for it.\<close>

definition normalize_audience :: "string \<Rightarrow> string option \<Rightarrow> nat option \<Rightarrow> string" where
  "normalize_audience scheme host port =
     (let h = to_ascii_lowercase (case host of None \<Rightarrow> [] | Some h \<Rightarrow> h) in
      case port of
        Some p \<Rightarrow> scheme @ ''://'' @ h @ '':'' @ show_nat p
      | None \<Rightarrow> scheme @ ''://'' @ h)"

definition format_ts :: "time_lib \<Rightarrow> instant \<Rightarrow> string" where
  "format_ts tm now = (case tl_civil tm now of (y, mo, d, h, mi, s) \<Rightarrow> format_utc y mo d h mi s)"

definition fetch_segments :: "string \<Rightarrow> string list" where
  "fetch_segments domain =
     map (\<lambda>seg. if seg = ''{domain}'' then domain else seg)
       (filter (\<lambda>s. s \<noteq> []) (split_all (CHR ''/'') RELAY_FETCH_ROUTE))"

definition build_fetch_url :: "('u, 'w) http_lib \<Rightarrow> 'u \<Rightarrow> string \<Rightarrow> relay_fetch_error + 'u" where
  "build_fetch_url hl relay_base domain = ok_or RfTransport (hl_segments hl relay_base (fetch_segments domain))"

definition header_pairs :: "presented_fetch_auth \<Rightarrow> (string \<times> string) list" where
  "header_pairs p =
     [(RELAY_AUTH_AUD_HEADER, pf_aud p), (RELAY_AUTH_TS_HEADER, pf_ts p), (RELAY_AUTH_NONCE_HEADER, pf_nonce p),
      (RELAY_AUTH_SIG_HEADER, pf_signature p)]"

text \<open>A failure to send, or the status with the body, itself possibly unreadable.\<close>

type_synonym ('u, 'w) http_get = "'u \<Rightarrow> (string \<times> string) list \<Rightarrow> 'w \<Rightarrow> (string + nat \<times> (string + bytes)) \<times> 'w"

fun ingest_entries ::
  "fed_lib \<Rightarrow> ext_lib \<Rightarrow> rfc3339 \<Rightarrow> 'w link \<Rightarrow> (principal \<times> bytes) list \<Rightarrow> string list \<Rightarrow>
   gateway_ingress_state \<Rightarrow> 'w \<Rightarrow> gateway_ingress_state \<times> 'w" where
  "ingest_entries fl lib rfc lk ((recipient, b) # es) (now # nows) s w =
     (case ingest_inbound_at fl lib rfc lk recipient b now s w of
        (_, s', w') \<Rightarrow> ingest_entries fl lib rfc lk es nows s' w')"
| "ingest_entries fl lib rfc lk es nows s w = (s, w)"

definition ingest_success_batch ::
  "fed_lib \<Rightarrow> ext_lib \<Rightarrow> rfc3339 \<Rightarrow> 'w link \<Rightarrow> string + bytes \<Rightarrow> (nat \<Rightarrow> string) \<Rightarrow>
   gateway_ingress_state \<Rightarrow> 'w \<Rightarrow> gateway_ingress_state \<times> 'w" where
  "ingest_success_batch fl lib rfc lk resp nows s w =
     (case resp of
        Inl _ \<Rightarrow> (s, w)
      | Inr body \<Rightarrow>
          (case decode_fetch_batch fl lib body of
             Inl _ \<Rightarrow> (s, w)
           | Inr entries \<Rightarrow> ingest_entries fl lib rfc lk entries (map nows [0..<length entries]) s w))"

definition poll_once ::
  "fed_lib \<Rightarrow> ext_lib \<Rightarrow> rfc3339 \<Rightarrow> time_lib \<Rightarrow> ('u, 'w) http_get \<Rightarrow> 'w link \<Rightarrow> 'u \<Rightarrow> signing_key \<Rightarrow> string \<Rightarrow> string \<Rightarrow>
   instant \<Rightarrow> uuid \<Rightarrow> (nat \<Rightarrow> string) \<Rightarrow> nat \<Rightarrow> gateway_ingress_state \<Rightarrow> 'w \<Rightarrow> nat \<times> gateway_ingress_state \<times> 'w" where
  "poll_once fl lib rfc tm get lk fetch_url sk audience own_domain now nonce nows backoff_ms s w =
     (case sign_fetch_auth fl lib sk audience own_domain nonce (format_ts tm now) of
        Inl _ \<Rightarrow> (next_backoff_ms backoff_ms, s, w)
      | Inr auth \<Rightarrow>
          (case get fetch_url (header_pairs auth) w of
             (Inl _, w') \<Rightarrow> (next_backoff_ms backoff_ms, s, w')
           | (Inr (status, resp), w') \<Rightarrow>
               (case classify_fetch_status status of
                  FoSuccess \<Rightarrow> (RELAY_POLL_INTERVAL_MS, ingest_success_batch fl lib rfc lk resp nows s w')
                | _ \<Rightarrow> (next_backoff_ms backoff_ms, s, w'))))"

text \<open>
  The loop of \<open>run_relay_fetch\<close> for a number of rounds, each with its draws from the clock and the random
  source, and the pauses it makes.
\<close>

fun relay_fetch_rounds ::
  "fed_lib \<Rightarrow> ext_lib \<Rightarrow> rfc3339 \<Rightarrow> time_lib \<Rightarrow> ('u, 'w) http_get \<Rightarrow> 'w link \<Rightarrow> 'u \<Rightarrow> signing_key \<Rightarrow> string \<Rightarrow> string \<Rightarrow>
   (instant \<times> uuid \<times> (nat \<Rightarrow> string)) list \<Rightarrow> nat \<Rightarrow> gateway_ingress_state \<Rightarrow> 'w \<Rightarrow> nat list \<times> gateway_ingress_state \<times> 'w" where
  "relay_fetch_rounds fl lib rfc tm get lk url sk aud own [] backoff_ms s w = ([], s, w)"
| "relay_fetch_rounds fl lib rfc tm get lk url sk aud own ((now, nonce, nows) # ds) backoff_ms s w =
     (case poll_once fl lib rfc tm get lk url sk aud own now nonce nows backoff_ms s w of
        (b, s', w') \<Rightarrow>
          (case relay_fetch_rounds fl lib rfc tm get lk url sk aud own ds b s' w' of
             (bs, s'', w'') \<Rightarrow> (b # bs, s'', w'')))"

subsection \<open>Pauses and batches\<close>

lemma next_backoff_range: "500 \<le> b \<Longrightarrow> 1000 \<le> next_backoff_ms b \<and> next_backoff_ms b \<le> 30000"
  by (simp add: next_backoff_ms_def RELAY_FETCH_BACKOFF_MAX_MS_def)

lemma poll_once_backoff:
  "poll_once fl lib rfc tm get lk url sk aud own now nonce nows b s w = (b', s', w') \<Longrightarrow> 500 \<le> b \<Longrightarrow>
   1000 \<le> b' \<and> b' \<le> 30000"
  by (auto simp: poll_once_def RELAY_POLL_INTERVAL_MS_def next_backoff_range
      split: sum.splits prod.splits fetch_outcome.splits)

lemma relay_fetch_pauses:
  "relay_fetch_rounds fl lib rfc tm get lk url sk aud own ds b s w = (bs, s', w') \<Longrightarrow> 500 \<le> b \<Longrightarrow>
   length bs = length ds \<and> (\<forall>x \<in> set bs. 1000 \<le> x \<and> x \<le> 30000)"
proof (induction ds arbitrary: b s w bs)
  case (Cons d ds)
  obtain now nonce nows where d: "d = (now, nonce, nows)" by (cases d)
  obtain b1 s1 w1 where p: "poll_once fl lib rfc tm get lk url sk aud own now nonce nows b s w = (b1, s1, w1)"
    by (metis prod.collapse)
  have r: "1000 \<le> b1" "b1 \<le> 30000" using poll_once_backoff [OF p Cons.prems(2)] by simp_all
  show ?case using Cons.prems(1) p d r Cons.IH [of b1 s1 w1] by (auto split: prod.splits)
qed simp

lemma de_batch_entry_json:
  "de_fetch_batch_entry (ser_struct [(''to'', Some (JStr t)), (''body'', Some (JStr b))]) = Some (t, b)"
proof -
  have "\<not> ''to'' < ''body''" "''body'' < ''to''" by code_simp+
  then show ?thesis by (simp add: ser_struct_def ser_fields_def de_fetch_batch_entry_def field_once_def)
qed

text \<open>What the relay puts into a batch, the poller takes out of it: the recipients and the bytes, in order.\<close>

lemma batch_round_trip:
  assumes "\<And>b. b64_decode fl (b64_encode fl b) = Some b" "lex lib body = json_events (batch_json fl qs)"
    and "\<And>q. q \<in> set qs \<Longrightarrow> principal_from_str (qe_recipient q) = Inr (rcpt q)"
  shows "decode_fetch_batch fl lib body = Inr (map (\<lambda>q. (rcpt q, qe_bytes q)) qs)"
proof -
  have "plain_tree (JReading []) (json_events (batch_json fl qs)) = Inr (batch_json fl qs)"
    using plain_tree_append [of "[]" "batch_json fl qs" "[]"] by simp
  moreover have "those (map de_fetch_batch_entry (map (\<lambda>x. ser_struct [(''to'', Some (JStr (qe_recipient x))),
      (''body'', Some (JStr (b64_encode fl (qe_bytes x))))]) xs)) =
      Some (map (\<lambda>x. (qe_recipient x, b64_encode fl (qe_bytes x))) xs)" for xs :: "queued_envelope list"
    by (induction xs) (simp_all add: de_batch_entry_json)
  moreover have "decode_entries fl (map (\<lambda>x. (qe_recipient x, b64_encode fl (qe_bytes x))) qs) =
      Inr (map (\<lambda>q. (rcpt q, qe_bytes q)) qs)"
    using assms(3) by (induction qs) (simp_all add: assms(1))
  ultimately show ?thesis
    by (simp add: decode_fetch_batch_def assms(2) batch_json_def de_fetch_batch_response_def field_once_def)
qed

end
