(* ===== verification/InboxFile.thy ===== *)
theory InboxFile
  imports Mailbox UtcTime
begin

text \<open>
  Reading inbox files and cursor files (\<open>famp-inbox/src/read.rs\<close>, \<open>cursor.rs\<close>, and the broker's
  \<open>cursor_exec.rs\<close>). A file is what reading it returned; writing a cursor replaces the file in one step, and
  \<open>io\<close> is the first system call of it that failed, if any: before the new file took the place of the old one,
  or after that, while its permissions were set. Offsets are file lengths, which fit a machine word.
\<close>

subsection \<open>Errors and lines\<close>

datatype read_error =
    ReadIo string
  | CorruptLine nat canonical_error
  | CursorParse

fun byte_split :: "bytes \<Rightarrow> bytes list" where
  "byte_split [] = [[]]"
| "byte_split (x # xs) =
     (if x = 10 then [] # byte_split xs
      else (case byte_split xs of [] \<Rightarrow> [[x]] | y # ys \<Rightarrow> (x # y) # ys))"

subsection \<open>Reading\<close>

fun read_all_chunks :: "ext_lib \<Rightarrow> bool \<Rightarrow> nat \<Rightarrow> bytes list \<Rightarrow> read_error + json list" where
  "read_all_chunks lib ends line_no [] = Inr []"
| "read_all_chunks lib ends line_no [chunk] =
     (if ends then Inr []
      else if chunk = [] then Inr []
      else (case from_slice lib chunk of Inr v \<Rightarrow> Inr [v] | Inl _ \<Rightarrow> Inr []))"
| "read_all_chunks lib ends line_no (chunk # chunks) =
     (case from_slice lib chunk of
        Inr v \<Rightarrow> map_sum id (\<lambda>out. v # out) (read_all_chunks lib ends (line_no + 1) chunks)
      | Inl e \<Rightarrow> Inl (CorruptLine line_no e))"

definition read_all :: "ext_lib \<Rightarrow> file_read \<Rightarrow> read_error + json list" where
  "read_all lib f =
     (case f of
        FileNotFound \<Rightarrow> Inl (ReadIo ''not found'')
      | FileError e \<Rightarrow> Inl (ReadIo e)
      | FileBytes bs \<Rightarrow>
          if bs = [] then Inr [] else read_all_chunks lib (last bs = 10) 1 (byte_split bs))"

fun read_from_chunks :: "ext_lib \<Rightarrow> nat \<Rightarrow> nat \<Rightarrow> bytes list \<Rightarrow> read_error + (json \<times> nat) list" where
  "read_from_chunks lib line_no running [] = Inr []"
| "read_from_chunks lib line_no running [chunk] = Inr []"
| "read_from_chunks lib line_no running (chunk # chunks) =
     (case from_slice lib chunk of
        Inr v \<Rightarrow>
          map_sum id (\<lambda>out. (v, running + length chunk + 1) # out)
            (read_from_chunks lib (line_no + 1) (running + length chunk + 1) chunks)
      | Inl e \<Rightarrow> Inl (CorruptLine line_no e))"

definition snap :: "bytes \<Rightarrow> nat \<Rightarrow> nat option" where
  "snap bs start =
     (if start = 0 \<or> bs ! (start - 1) = 10 then Some start
      else map_option (\<lambda>off. start + off + 1) (byte_position 10 (drop start bs)))"

definition read_from :: "ext_lib \<Rightarrow> file_read \<Rightarrow> nat \<Rightarrow> read_error + (json \<times> nat) list" where
  "read_from lib f start_offset =
     (case f of
        FileNotFound \<Rightarrow> Inr []
      | FileError e \<Rightarrow> Inl (ReadIo e)
      | FileBytes bs \<Rightarrow>
          if start_offset \<ge> length bs then Inr []
          else (case snap bs start_offset of
              None \<Rightarrow> Inr []
            | Some snapped \<Rightarrow>
                if snapped \<ge> length bs then Inr []
                else read_from_chunks lib 1 snapped (byte_split (drop snapped bs))))"

subsection \<open>Cursors\<close>

text \<open>\<open>str::parse::<u64>\<close>: an optional plus sign, then decimal digits of a value below \<open>2 ^ 64\<close>.\<close>

definition parse_u64 :: "string \<Rightarrow> nat option" where
  "parse_u64 s =
     (let ds = (case s of c # cs \<Rightarrow> if c = CHR ''+'' \<and> cs \<noteq> [] then cs else s | [] \<Rightarrow> []) in
      if ds \<noteq> [] \<and> list_all is_ascii_digit ds \<and> digits_val ds < 2 ^ 64 then Some (digits_val ds) else None)"

definition trim_newlines :: "bytes \<Rightarrow> bytes" where
  "trim_newlines b = rev (dropWhile (\<lambda>x. x = 10) (rev b))"

text \<open>Bytes that are no UTF-8 text contain one that is no digit, and give the same error.\<close>

definition cursor_read :: "file_read \<Rightarrow> read_error + nat" where
  "cursor_read f =
     (case f of
        FileNotFound \<Rightarrow> Inr 0
      | FileError e \<Rightarrow> Inl (ReadIo e)
      | FileBytes bs \<Rightarrow> ok_or CursorParse (parse_u64 (map (\<lambda>x. char_of (unat x)) (trim_newlines bs))))"

definition cursor_body :: "nat \<Rightarrow> bytes" where
  "cursor_body offset = map (\<lambda>c. word_of_nat (of_char c)) (show_nat offset) @ [10]"

datatype write_failure = BeforePersist string | AfterPersist string

definition cursor_advance :: "write_failure option \<Rightarrow> nat \<Rightarrow> file_read \<Rightarrow> (read_error + unit) \<times> file_read" where
  "cursor_advance io offset f =
     (case io of
        Some (BeforePersist e) \<Rightarrow> (Inl (ReadIo e), f)
      | Some (AfterPersist e) \<Rightarrow> (Inl (ReadIo e), FileBytes (cursor_body offset))
      | None \<Rightarrow> (Inr (), FileBytes (cursor_body offset)))"

definition cursor_file :: "string \<Rightarrow> string" where
  "cursor_file display_name = CHR ''.'' # display_name @ ''.cursor''"

definition execute_advance_cursor ::
  "write_failure option \<Rightarrow> string \<Rightarrow> nat \<Rightarrow> (string \<Rightarrow> file_read) \<Rightarrow> (string + unit) \<times> (string \<Rightarrow> file_read)" where
  "execute_advance_cursor io display_name offset d =
     (case io of
        Some (BeforePersist e) \<Rightarrow> (Inl e, d)
      | Some (AfterPersist e) \<Rightarrow> (Inl e, d(cursor_file display_name := FileBytes (cursor_body offset)))
      | None \<Rightarrow> (Inr (), d(cursor_file display_name := FileBytes (cursor_body offset))))"

subsection \<open>Lemmas on lines\<close>

lemma byte_split_nonempty [simp]: "byte_split b \<noteq> []"
  by (induction b) (auto split: list.splits)

lemma byte_split_plain: "10 \<notin> set t \<Longrightarrow> byte_split t = [t]"
  by (induction t) auto

lemma byte_split_line: "10 \<notin> set l \<Longrightarrow> byte_split (l @ 10 # b) = l # byte_split b"
  by (induction l) auto

lemma byte_split_lines:
  "\<forall>l \<in> set ls. 10 \<notin> set l \<Longrightarrow> 10 \<notin> set t \<Longrightarrow> byte_split (unlines ls @ t) = ls @ [t]"
  by (induction ls) (auto simp: unlines_def byte_split_plain byte_split_line)

text \<open>The values of complete lines, each with the offset after its line.\<close>

fun with_ends :: "nat \<Rightarrow> (bytes \<times> json) list \<Rightarrow> (json \<times> nat) list" where
  "with_ends k [] = []"
| "with_ends k ((l, v) # ls) = (v, k + length l + 1) # with_ends (k + length l + 1) ls"

definition lines_ok :: "ext_lib \<Rightarrow> (bytes \<times> json) list \<Rightarrow> bool" where
  "lines_ok lib ls \<longleftrightarrow> (\<forall>(l, v) \<in> set ls. 10 \<notin> set l \<and> from_slice lib l = Inr v)"

lemma lines_ok_simps [simp]:
  "lines_ok lib []" "lines_ok lib ((l, v) # ls) \<longleftrightarrow> 10 \<notin> set l \<and> from_slice lib l = Inr v \<and> lines_ok lib ls"
  "lines_ok lib (xs @ ys) \<longleftrightarrow> lines_ok lib xs \<and> lines_ok lib ys"
  by (auto simp: lines_ok_def)

lemma read_from_chunks_lines:
  "lines_ok lib ls \<Longrightarrow> read_from_chunks lib n k (map fst ls @ [t]) = Inr (with_ends k ls)"
proof (induction ls arbitrary: n k)
  case (Cons a ls)
  obtain l v where a: "a = (l, v)" by (cases a)
  obtain c cs where c: "map fst ls @ [t] = c # cs" by (cases "map fst ls @ [t]") auto
  show ?case using Cons.prems Cons.IH [of "n + 1" "k + length l + 1"] by (simp add: a c)
qed simp

lemma read_all_chunks_lines:
  "lines_ok lib ls \<Longrightarrow>
   read_all_chunks lib e n (map fst ls @ [t]) = map_sum id (\<lambda>out. map snd ls @ out) (read_all_chunks lib e 0 [t])"
proof (induction ls arbitrary: n)
  case (Cons a ls)
  obtain l v where a: "a = (l, v)" by (cases a)
  obtain c cs where c: "map fst ls @ [t] = c # cs" by (cases "map fst ls @ [t]") auto
  show ?case
    using Cons.prems Cons.IH [of "n + 1"] by (simp add: a c split: sum.splits)
qed (simp split: sum.splits)

subsection \<open>Reading resumes where it stopped\<close>

abbreviation file_of :: "(bytes \<times> json) list \<Rightarrow> bytes \<Rightarrow> file_read" where
  "file_of ls t \<equiv> FileBytes (unlines (map fst ls) @ t)"

lemma lines_ok_newline: "lines_ok lib ls \<Longrightarrow> \<forall>l \<in> set (map fst ls). 10 \<notin> set l"
  by (auto simp: lines_ok_def)

lemma drop_lines: "drop (total_len (map fst xs)) (unlines (map fst (xs @ ys)) @ t) = unlines (map fst ys) @ t"
  by (simp add: length_unlines [symmetric])

lemma last_of_unlines: "xs \<noteq> [] \<Longrightarrow> (unlines xs @ t) ! (total_len xs - 1) = 10"
proof (induction xs rule: rev_induct)
  case (snoc x xs)
  have "unlines (xs @ [x]) @ t = (unlines xs @ x) @ 10 # t" by simp
  moreover have "total_len (xs @ [x]) - 1 = length (unlines xs @ x)"
    by (simp add: length_unlines JSONL_RECORD_TERMINATOR_LEN_def)
  ultimately show ?case by (simp only: nth_append_length)
qed simp

lemma snap_boundary: "snap (unlines (map fst (xs @ ys)) @ t) (total_len (map fst xs)) = Some (total_len (map fst xs))"
proof (cases "xs = []")
  case False
  then have "(unlines (map fst xs) @ unlines (map fst ys) @ t) ! (total_len (map fst xs) - 1) = 10"
    using last_of_unlines [of "map fst xs"] by simp
  then show ?thesis by (simp add: snap_def)
qed (simp add: snap_def)

lemma read_from_boundary:
  assumes "lines_ok lib (xs @ ys)" "10 \<notin> set t"
  shows "read_from lib (file_of (xs @ ys) t) (total_len (map fst xs)) = Inr (with_ends (total_len (map fst xs)) ys)"
proof (cases "total_len (map fst xs) \<ge> length (unlines (map fst (xs @ ys)) @ t)")
  case True
  then have "ys = []" by (cases ys) (auto simp: length_unlines JSONL_RECORD_TERMINATOR_LEN_def)
  then show ?thesis using True by (simp add: read_from_def)
next
  case False
  have "byte_split (unlines (map fst ys) @ t) = map fst ys @ [t]"
    using byte_split_lines lines_ok_newline assms by auto
  then show ?thesis
    using False snap_boundary [of xs ys t] drop_lines [of xs ys t] assms(1)
    by (simp add: read_from_def read_from_chunks_lines del: map_append)
qed

lemma with_ends_split:
  "with_ends k ls = as @ (v, e) # bs \<Longrightarrow>
   \<exists>xs ys. ls = xs @ ys \<and> e = k + total_len (map fst xs) \<and> bs = with_ends e ys"
proof (induction ls arbitrary: k as)
  case (Cons a ls)
  obtain l w where a: "a = (l, w)" by (cases a)
  show ?case
  proof (cases as)
    case Nil
    then have "e = k + total_len (map fst [a])" "bs = with_ends e ls"
      using Cons.prems by (auto simp: a JSONL_RECORD_TERMINATOR_LEN_def)
    then show ?thesis by (intro exI [of _ "[a]"] exI [of _ ls]) simp
  next
    case (Cons z zs)
    then obtain xs ys where "ls = xs @ ys" "e = k + length l + 1 + total_len (map fst xs)" "bs = with_ends e ys"
      using Cons.prems Cons.IH [of "k + length l + 1" zs] by (auto simp: a)
    then show ?thesis
      by (intro exI [of _ "a # xs"] exI [of _ ys]) (simp add: a JSONL_RECORD_TERMINATOR_LEN_def)
  qed
qed simp

text \<open>
  A file of complete lines, with or without an unfinished one at its end: every line is returned once, and
  reading at the offset that came with an entry returns exactly the entries after it.
\<close>

lemma read_from_resumes:
  assumes "lines_ok lib ls" "10 \<notin> set t"
  shows "read_from lib (file_of ls t) 0 = Inr (with_ends 0 ls)"
    and "with_ends 0 ls = as @ (v, e) # bs \<Longrightarrow> read_from lib (file_of ls t) e = Inr bs"
proof -
  show "read_from lib (file_of ls t) 0 = Inr (with_ends 0 ls)"
    using read_from_boundary [of lib "[]" ls t] assms by simp
  assume "with_ends 0 ls = as @ (v, e) # bs"
  then obtain xs ys where "ls = xs @ ys" "e = total_len (map fst xs)" "bs = with_ends e ys"
    using with_ends_split [of 0 ls as v e bs] by auto
  then show "read_from lib (file_of ls t) e = Inr bs" using read_from_boundary [of lib xs ys t] assms by simp
qed

text \<open>
  \<open>read_all\<close> agrees on the complete lines. An unfinished line at the end is returned as well when it
  happens to be a value, where \<open>read_from\<close> leaves it out.
\<close>

lemma read_all_lines:
  assumes "lines_ok lib ls" "10 \<notin> set t"
  shows "read_all lib (file_of ls t) =
    Inr (map snd ls @ (if t = [] then [] else case from_slice lib t of Inr v \<Rightarrow> [v] | Inl _ \<Rightarrow> []))"
proof (cases "unlines (map fst ls) @ t = []")
  case True
  then have "ls = []" "t = []" by (cases ls; auto)+
  then show ?thesis by (simp add: read_all_def)
next
  case False
  have b: "byte_split (unlines (map fst ls) @ t) = map fst ls @ [t]"
    using byte_split_lines lines_ok_newline assms by auto
  have "t \<noteq> [] \<Longrightarrow> last (unlines (map fst ls) @ t) \<noteq> 10" using assms(2) last_in_set [of t] by (auto simp del: last_in_set)
  moreover have "t = [] \<Longrightarrow> last (unlines (map fst ls) @ t) = 10"
    using False by (cases ls rule: rev_cases) auto
  ultimately show ?thesis
    using False b by (auto simp: read_all_def read_all_chunks_lines [OF assms(1)] split: sum.splits)
qed

subsection \<open>Cursors round trip\<close>

lemma cursor_text: "map (\<lambda>x. char_of (unat x)) (map (\<lambda>c. word_of_nat (of_char c) :: 8 word) s) = s"
proof (induction s)
  case (Cons c s)
  have "(of_char c :: nat) < 256" by simp
  then have "unat (word_of_nat (of_char c) :: 8 word) = of_char c" by (simp add: unat_of_nat)
  then show ?case using Cons by simp
qed simp

lemma show_nat_nonempty: "show_nat n \<noteq> []"
  by (subst show_nat.simps) simp

lemma trim_cursor_body: "trim_newlines (cursor_body n) = map (\<lambda>c. word_of_nat (of_char c)) (show_nat n)"
proof -
  have d: "\<forall>c \<in> set (show_nat n). is_ascii_digit c" using show_nat_digits [of n] by (simp add: list_all_iff)
  have "(word_of_nat (of_char c) :: 8 word) \<noteq> 10" if "c \<in> set (show_nat n)" for c
  proof -
    have "48 \<le> (of_char c :: nat)" "(of_char c :: nat) < 256"
      using d that by (auto simp: is_ascii_digit_def less_eq_char_def)
    then have "unat (word_of_nat (of_char c) :: 8 word) \<noteq> unat (10 :: 8 word)" by (simp add: unat_of_nat)
    then show ?thesis by metis
  qed
  then have "dropWhile (\<lambda>x. x = (10 :: 8 word)) (rev (map (\<lambda>c. word_of_nat (of_char c)) (show_nat n))) =
      rev (map (\<lambda>c. word_of_nat (of_char c)) (show_nat n))"
    using show_nat_nonempty [of n] by (cases "show_nat n" rule: rev_cases) auto
  then show ?thesis by (simp add: trim_newlines_def cursor_body_def)
qed

lemma parse_u64_show: "n < 2 ^ 64 \<Longrightarrow> parse_u64 (show_nat n) = Some n"
proof -
  assume n: "n < 2 ^ 64"
  obtain c cs where s: "show_nat n = c # cs" using show_nat_nonempty [of n] by (cases "show_nat n") auto
  have "c \<noteq> CHR ''+''" using show_nat_digits [of n] s by (auto simp: is_ascii_digit_def less_eq_char_def)
  then show ?thesis using show_nat_digits [of n] n by (simp add: parse_u64_def s Let_def)
qed

lemma cursor_round_trip:
  "n < 2 ^ 64 \<Longrightarrow> cursor_advance None n f = (Inr (), f') \<Longrightarrow> cursor_read f' = Inr n"
  using cursor_text [of "show_nat n"] parse_u64_show [of n]
  by (auto simp: cursor_advance_def cursor_read_def trim_cursor_body simp del: map_map)

lemma execute_cursor_round_trip:
  "n < 2 ^ 64 \<Longrightarrow> execute_advance_cursor None m n d = (Inr (), d') \<Longrightarrow>
   cursor_read (d' (cursor_file m)) = Inr n \<and> (\<forall>k. k \<noteq> m \<longrightarrow> d' (cursor_file k) = d (cursor_file k))"
  using cursor_round_trip [of n]
  by (auto simp: execute_advance_cursor_def cursor_advance_def cursor_file_def)

end
