(* ===== verification/CliEnv.thy ===== *)
theory CliEnv
  imports Egress
begin

text \<open>
  What a command finds out about its surroundings before it does anything: who it speaks as
  (\<open>famp/src/cli/identity.rs\<close>), where its home is (\<open>home.rs\<close>), which domain this host speaks for
  (\<open>own_domain.rs\<close>), and how it spells a channel (\<open>util.rs\<close>). Environment variables, the working
  directory and the file system are the parameter \<open>cli_env\<close>; variables hold valid text.
\<close>

datatype boxed_error = BoxEnvelope envelope_decode_error | BoxJson canonical_error

text \<open>The variants of \<open>CliError\<close> that the modelled commands return.\<close>

datatype cli_error =
    CeHomeNotSet
  | CeHomeNotAbsolute string
  | CeIo string io_kind
  | CeEnvelope boxed_error
  | CeSendArgsInvalid string
  | CeNoIdentityBound string
  | CeChannelNotIdentity string
  | CeOwnDomainNotSet
  | CeOwnDomainInvalid string string
  | CeNotRegisteredHint string
  | CeBrokerUnreachable
  | CeBusClient string
  | CeBusError bus_error_kind string

record cli_env =
  ce_var :: "string \<Rightarrow> string option"
  ce_current_dir :: "io_kind + string"
  ce_home_dir :: "string option"
  ce_canonicalize :: "string \<Rightarrow> string option"
  ce_read_to_string :: "string \<Rightarrow> io_kind + string"

subsection \<open>Paths and texts\<close>

definition starts_with :: "string \<Rightarrow> string \<Rightarrow> bool" where
  "starts_with p s \<longleftrightarrow> strip_prefix p s \<noteq> None"

definition path_is_absolute :: "string \<Rightarrow> bool" where
  "path_is_absolute p \<longleftrightarrow> starts_with ''/'' p"

text \<open>\<open>Path::join\<close> with a relative name.\<close>

definition path_join :: "string \<Rightarrow> string \<Rightarrow> string" where
  "path_join base name =
     (if base = [] then name else if last base = CHR ''/'' then base @ name else base @ ''/'' @ name)"

text \<open>Two paths are equal when their components are: repeated slashes and inner dots do not count.\<close>

definition path_components :: "string \<Rightarrow> bool \<times> string list" where
  "path_components p =
     (let segs = split_all (CHR ''/'') p;
          keep = filter (\<lambda>s. s \<noteq> [] \<and> s \<noteq> ''.'')
      in (path_is_absolute p,
          case segs of s # rest \<Rightarrow> if s = ''.'' then s # keep rest else keep segs | [] \<Rightarrow> []))"

definition path_eq :: "string \<Rightarrow> string \<Rightarrow> bool" where
  "path_eq p q \<longleftrightarrow> path_components p = path_components q"

definition rust_trim :: "string \<Rightarrow> string" where
  "rust_trim s = (let t = rust_trim_start s in rev (strip_loop (length t) (map rev rust_ws) (rev t)))"

subsection \<open>Identity\<close>

definition NO_IDENTITY_HINT :: string where
  "NO_IDENTITY_HINT =
     ''no identity bound '' @ [CHR 0xE2, CHR 0x80, CHR 0x94] @
     '' pass --as after the subcommand (e.g. `famp inbox list --as <id>`), '' @
     ''set $FAMP_LOCAL_IDENTITY, or run `famp-local wire <dir>` first''"

definition reject_channel_name :: "string \<Rightarrow> cli_error + string" where
  "reject_channel_name name = (if starts_with ''#'' name then Inl (CeChannelNotIdentity name) else Inr name)"

definition wires_tsv_path :: "cli_env \<Rightarrow> string option" where
  "wires_tsv_path env = map_option (\<lambda>home. path_join (path_join home ''.famp-local'') ''wires.tsv'') (ce_home_dir env)"

definition wires_row :: "cli_env \<Rightarrow> string \<Rightarrow> string \<Rightarrow> string \<Rightarrow> string option" where
  "wires_row env cwd_canon cwd_raw line =
     (case split_at_char (CHR 0x09) line of
        None \<Rightarrow> None
      | Some (dir_str, name) \<Rightarrow>
          if dir_str = [] \<or> name = [] then None
          else if path_eq (unwrap_or dir_str (ce_canonicalize env dir_str)) cwd_canon \<or> path_eq dir_str cwd_raw
          then Some name else None)"

fun wires_lookup :: "cli_env \<Rightarrow> string \<Rightarrow> string \<Rightarrow> string list \<Rightarrow> string option" where
  "wires_lookup env cwd_canon cwd_raw [] = None"
| "wires_lookup env cwd_canon cwd_raw (line # rest) =
     (case wires_row env cwd_canon cwd_raw line of
        Some name \<Rightarrow> Some name
      | None \<Rightarrow> wires_lookup env cwd_canon cwd_raw rest)"

definition lookup_wires_tsv :: "cli_env \<Rightarrow> cli_error + string option" where
  "lookup_wires_tsv env =
     (case ce_current_dir env of
        Inl e \<Rightarrow> Inl (CeIo [] e)
      | Inr cwd \<Rightarrow>
          (case wires_tsv_path env of
             None \<Rightarrow> Inr None
           | Some path \<Rightarrow>
               (case ce_read_to_string env path of
                  Inl _ \<Rightarrow> Inr None
                | Inr content \<Rightarrow>
                    Inr (wires_lookup env (unwrap_or cwd (ce_canonicalize env cwd)) cwd (read_lines content)))))"

definition resolve_identity :: "cli_env \<Rightarrow> string option \<Rightarrow> cli_error + string" where
  "resolve_identity env as_flag =
     (case option_filter (\<lambda>name. name \<noteq> []) as_flag of
        Some name \<Rightarrow> reject_channel_name name
      | None \<Rightarrow>
          (case option_filter (\<lambda>name. name \<noteq> []) (ce_var env ''FAMP_LOCAL_IDENTITY'') of
             Some name \<Rightarrow> reject_channel_name name
           | None \<Rightarrow>
               res_bind (lookup_wires_tsv env) (\<lambda>found.
                 case found of
                   Some name \<Rightarrow> reject_channel_name name
                 | None \<Rightarrow> Inl (CeNoIdentityBound NO_IDENTITY_HINT))))"

subsection \<open>Home and own domain\<close>

definition resolve_famp_home :: "cli_env \<Rightarrow> cli_error + string" where
  "resolve_famp_home env =
     res_bind
       (case ce_var env ''FAMP_HOME'' of
          Some v \<Rightarrow> Inr v
        | None \<Rightarrow> map_sum id (\<lambda>home. path_join home ''.famp'') (ok_or CeHomeNotSet (ce_var env ''HOME'')))
       (\<lambda>path. if path_is_absolute path then Inr path else Inl (CeHomeNotAbsolute path))"

definition read_own_domain_file :: "cli_env \<Rightarrow> string \<Rightarrow> cli_error + string option" where
  "read_own_domain_file env home =
     (let path = path_join home ''own-domain'' in
      case ce_read_to_string env path of
        Inr contents \<Rightarrow>
          (let first_line = rust_trim (case read_lines contents of l # _ \<Rightarrow> l | [] \<Rightarrow> [])
           in Inr (if first_line = [] then None else Some first_line))
      | Inl e \<Rightarrow> if e = IoNotFound then Inr None else Inl (CeIo path e))"

definition validate_own_domain :: "string \<Rightarrow> cli_error + unit" where
  "validate_own_domain v =
     (case principal_from_str (''agent:'' @ v @ ''/x'') of
        Inl e \<Rightarrow> Inl (CeOwnDomainInvalid v (principal_error_display e))
      | Inr _ \<Rightarrow> Inr ())"

definition resolve_own_domain :: "cli_env \<Rightarrow> string option \<Rightarrow> string \<Rightarrow> cli_error + string" where
  "resolve_own_domain env cli_domain home =
     res_bind
       (case cli_domain of
          Some v \<Rightarrow> Inr v
        | None \<Rightarrow>
            (case ce_var env ''FAMP_OWN_DOMAIN'' of
               Some v \<Rightarrow> Inr v
             | None \<Rightarrow> res_bind (read_own_domain_file env home) (ok_or CeOwnDomainNotSet)))
       (\<lambda>raw. map_sum id (\<lambda>_. raw) (validate_own_domain raw))"

subsection \<open>Channels\<close>

definition CHANNEL_PATTERN :: string where "CHANNEL_PATTERN = ''^#[a-z0-9][a-z0-9_-]{0,31}$''"

definition normalize_channel :: "string \<Rightarrow> cli_error + string" where
  "normalize_channel input =
     (let normalized = (if starts_with ''#'' input then input else CHR ''#'' # input) in
      if starts_with ''##'' normalized
      then Inl (CeSendArgsInvalid (''channel name '' @ quoted input @ '' cannot start with ##''))
      else if \<not> channel_name_valid normalized
      then Inl (CeSendArgsInvalid (''invalid channel name '' @ quoted normalized @ '': must match '' @ CHANNEL_PATTERN))
      else Inr normalized)"

subsection \<open>What is resolved\<close>

lemma starts_with_hash [simp]: "starts_with ''#'' s \<longleftrightarrow> s \<noteq> [] \<and> hd s = CHR ''#''"
  by (cases s) (auto simp: starts_with_def)

text \<open>Whatever the source, an identity is never a channel name.\<close>

lemma resolve_identity_not_channel: "resolve_identity env f = Inr name \<Longrightarrow> \<not> starts_with ''#'' name"
  by (auto simp: resolve_identity_def reject_channel_name_def res_bind_Inr_iff split: option.splits if_splits)

text \<open>The order of the sources: a flag that is set and not empty wins, then the variable, then the table.\<close>

lemma resolve_identity_flag: "name \<noteq> [] \<Longrightarrow> resolve_identity env (Some name) = reject_channel_name name"
  and resolve_identity_var:
    "f \<in> {None, Some []} \<Longrightarrow> ce_var env ''FAMP_LOCAL_IDENTITY'' = Some name \<Longrightarrow> name \<noteq> [] \<Longrightarrow>
     resolve_identity env f = reject_channel_name name"
  by (auto simp: resolve_identity_def)

lemma wires_lookup_find:
  "wires_lookup env c r ls = (case List.find (\<lambda>l. wires_row env c r l \<noteq> None) ls of
     None \<Rightarrow> None | Some l \<Rightarrow> wires_row env c r l)"
  by (induction ls) (auto split: option.splits)

text \<open>A resolved domain is one a principal can name, and a normalized channel is one the bus accepts.\<close>

lemma resolve_own_domain_valid:
  assumes "resolve_own_domain env d home = Inr own" "validate_name_or_instance_id n = Inr ()"
  shows "wf_principal \<lparr>authority = own, pname = n\<rparr>"
proof -
  have "validate_own_domain own = Inr ()"
    using assms(1) by (auto simp: resolve_own_domain_def res_bind_Inr_iff map_sum_Inr_iff)
  then obtain p where "principal_from_str (''agent:'' @ own @ ''/x'') = Inr p"
    by (auto simp: validate_own_domain_def split: sum.splits)
  then have p: "''agent:'' @ own @ ''/x'' = principal_display p" "wf_principal p"
    by (simp_all only: principal_from_str_Inr_iff)
  have "own = authority p"
  proof -
    have v: "validate_name_or_instance_id (pname p) = Inr ()"
      using p(2) by (auto simp: wf_principal_def is_ok_iff)
    have e: "own @ CHR ''/'' # ''x'' = authority p @ CHR ''/'' # pname p"
      using p(1) by (simp add: principal_display_def)
    have "CHR ''/'' \<notin> set (pname p)" using valid_name_plain(1) [OF v] .
    then show ?thesis using e by (auto simp: append_eq_append_conv2 append_eq_Cons_conv Cons_eq_append_conv)
        (metis in_set_conv_decomp)
  qed
  then show ?thesis using p(2) assms(2) by (simp add: wf_principal_def)
qed

lemma normalize_channel_valid: "normalize_channel c = Inr n \<Longrightarrow> channel_name_valid n"
  by (auto simp: normalize_channel_def Let_def split: if_splits)

lemma normalize_channel_idem: "normalize_channel c = Inr n \<Longrightarrow> normalize_channel n = Inr n"
  by (auto simp: normalize_channel_def Let_def channel_name_valid_def split: if_splits list.splits)

text \<open>Exactly the names the bus accepts are fixed points, and the leading \<open>#\<close> may be left out.\<close>

lemma lower_or_digit_not_hash: "lower_or_digit c \<Longrightarrow> c \<noteq> CHR ''#''"
  by (auto simp: lower_or_digit_def is_ascii_lower_def is_ascii_digit_def less_eq_char_def)

lemma normalize_channel_complete:
  assumes "channel_name_valid (CHR ''#'' # s)"
  shows "normalize_channel s = Inr (CHR ''#'' # s)" "normalize_channel (CHR ''#'' # s) = Inr (CHR ''#'' # s)"
proof -
  obtain c r where s: "s = c # r" "c \<noteq> CHR ''#''"
    using assms lower_or_digit_not_hash by (auto simp: channel_name_valid_def split: list.splits)
  then show "normalize_channel s = Inr (CHR ''#'' # s)" "normalize_channel (CHR ''#'' # s) = Inr (CHR ''#'' # s)"
    using assms by (auto simp: normalize_channel_def Let_def starts_with_def)
qed

end
