(* ===== verification/Send.thy ===== *)
theory Send
  imports CliEnv
begin

text \<open>
  \<open>famp send\<close> (\<open>famp/src/cli/send/mod.rs\<close>): from the arguments to the message on the bus and back
  to the outcome. A bare name or a channel gets an \<open>audit_log\<close> envelope of the local bus, a full
  principal a typed request, commit or deliver envelope that the gateway can relay. The fresh id and
  the clock are drawn beforehand; the derived \<open>Debug\<close> texts are parameters.
\<close>

record send_args =
  sa_to :: "string option"
  sa_channel :: "string option"
  sa_new_task :: "string option"
  sa_task :: "string option"
  sa_terminal :: bool
  sa_body :: "string option"
  sa_more_coming :: bool
  sa_act_as :: "string option"
  sa_domain :: "string option"

record delivered_row =
  dr_to_kind :: string
  dr_to_name :: string
  dr_ok :: bool
  dr_woken :: bool
  dr_wake_addr :: "string option"

record send_outcome =
  so_task_id :: string
  so_thread_task_id :: "string option"
  so_delivered :: string
  so_delivered_rows :: "delivered_row list"

text \<open>The object that is printed for an outcome.\<close>

definition outcome_json :: "send_outcome \<Rightarrow> json" where
  "outcome_json o' =
     ser_struct
       [(''task_id'', Some (JStr (so_task_id o'))), (''thread_task_id'', map_option JStr (so_thread_task_id o')),
        (''delivered'', Some (JStr (so_delivered o')))]"

record send_draw =
  sd_id :: uuid
  sd_now :: instant

subsection \<open>The local envelope\<close>

definition MODE_REASON :: string where
  "MODE_REASON =
     ''exactly one of --new-task / --task is required (or use --channel for a bare channel post)''"

fun send_mode :: "bool \<Rightarrow> bool \<Rightarrow> bool \<Rightarrow> bool \<Rightarrow> string option" where
  "send_mode True False False _ = Some ''new_task''"
| "send_mode False True True _ = Some ''deliver_terminal''"
| "send_mode False True False _ = Some ''deliver''"
| "send_mode False False False True = Some ''channel_post''"
| "send_mode _ _ _ _ = None"

definition args_mode :: "send_args \<Rightarrow> string option" where
  "args_mode a = send_mode (sa_new_task a \<noteq> None) (sa_task a \<noteq> None) (sa_terminal a) (sa_channel a \<noteq> None)"

definition set_flag :: "bool \<Rightarrow> json option" where
  "set_flag b = (if b then Some (JBool True) else None)"

definition build_inner_payload :: "send_args \<Rightarrow> cli_error + json" where
  "build_inner_payload a =
     res_bind (ok_or (CeSendArgsInvalid MODE_REASON) (args_mode a)) (\<lambda>mode.
     Inr (ser_struct
       [(''mode'', Some (JStr mode)), (''summary'', map_option JStr (sa_new_task a)),
        (''task'', map_option JStr (sa_task a)), (''body'', map_option JStr (sa_body a)),
        (''terminal'', set_flag (sa_terminal a)), (''more_coming'', set_flag (sa_more_coming a))]))"

definition fresh_ts :: "time_lib \<Rightarrow> send_draw \<Rightarrow> cli_error + string" where
  "fresh_ts tm dr =
     map_sum (\<lambda>e. CeSendArgsInvalid (''failed to format envelope ts: '' @ e)) strip_subseconds (tl_format tm (sd_now dr))"

definition fresh_id_and_ts :: "ext_lib \<Rightarrow> time_lib \<Rightarrow> send_draw \<Rightarrow> cli_error + (string \<times> string)" where
  "fresh_id_and_ts lib tm dr = map_sum id (Pair (uuid_show lib (sd_id dr))) (fresh_ts tm dr)"

fun local_to :: "target \<Rightarrow> string" where
  "local_to (ToAgent name) = ''agent:local.bus/'' @ name"
| "local_to (ToChannel name) = ''agent:local.bus/channel-'' @ dropWhile (\<lambda>c. c = CHR ''#'') name"

definition send_event :: "send_args \<Rightarrow> string" where
  "send_event a = (case args_mode a of Some mode \<Rightarrow> ''famp.send.'' @ mode | None \<Rightarrow> ''famp.send'')"

definition build_local_envelope_value ::
  "ext_lib \<Rightarrow> time_lib \<Rightarrow> send_draw \<Rightarrow> send_args \<Rightarrow> string \<Rightarrow> target \<Rightarrow> cli_error + json" where
  "build_local_envelope_value lib tm dr a identity target =
     res_bind (build_inner_payload a) (\<lambda>payload.
     res_bind (fresh_id_and_ts lib tm dr) (\<lambda>(i, ts).
     Inr (ser_struct
       [(''famp'', Some (JStr ''0.5.2'')), (''class'', Some (JStr ''audit_log'')),
        (''scope'', Some (JStr ''standalone'')), (''id'', Some (JStr i)),
        (''from'', Some (JStr (''agent:local.bus/'' @ identity))), (''to'', Some (JStr (local_to target))),
        (''authority'', Some (JStr ''advisory'')), (''ts'', Some (JStr ts)),
        (''body'', Some (ser_struct [(''event'', Some (JStr (send_event a))), (''details'', Some payload)])),
        (''causality'', map_option (\<lambda>task.
           ser_struct [(''rel'', Some (JStr ''delivers'')), (''ref'', Some (JStr task))]) (sa_task a))])))"

subsection \<open>The remote envelope\<close>

definition THROWAWAY_SIGN_SEED :: bytes where "THROWAWAY_SIGN_SEED = replicate 32 42"

definition two_key_bounds :: bounds where
  "two_key_bounds =
     \<lparr>deadline = None, budget_of = Some \<lparr>amount = ''0'', unit_of = ''usd''\<rparr>, hop_limit = Some 8,
      policy_domain = None, bounds_authority = None, max_artifact_size = None, confidence_floor = None,
      recursion_depth = None\<rparr>"

definition sign_then_strip ::
  "fed_lib \<Rightarrow> ext_lib \<Rightarrow> 'b body_schema \<Rightarrow> 'b wire_envelope \<Rightarrow> cli_error + json" where
  "sign_then_strip fl lib B env =
     res_bind (map_err (CeEnvelope \<circ> BoxEnvelope) (sign_envelope fl lib B THROWAWAY_SIGN_SEED env)) (\<lambda>s.
     res_bind (map_err (CeEnvelope \<circ> BoxEnvelope) (signed_encode fl lib B s)) (\<lambda>b.
     res_bind (map_err (CeEnvelope \<circ> BoxJson) (from_slice lib b)) (\<lambda>v.
     Inr (case v of JObj es \<Rightarrow> JObj (obj_remove ''signature'' es) | _ \<Rightarrow> v))))"

definition parse_task_id :: "ext_lib \<Rightarrow> string \<Rightarrow> cli_error + uuid" where
  "parse_task_id lib task =
     ok_or (CeSendArgsInvalid (''invalid --task id '' @ quoted task @ '': expected a UUIDv7'')) (parse_id lib task)"

definition remote_request :: "send_draw \<Rightarrow> principal \<Rightarrow> principal \<Rightarrow> string \<Rightarrow> string \<Rightarrow> request_body wire_envelope" where
  "remote_request dr src dst ts summary =
     unsigned_new request_schema (sd_id dr) src dst Advisory ts
       \<lparr>rq_scope = JObj [], rq_bounds = two_key_bounds, rq_summary = Some summary\<rparr>"

definition remote_commit ::
  "send_draw \<Rightarrow> principal \<Rightarrow> principal \<Rightarrow> string \<Rightarrow> uuid \<Rightarrow> string option \<Rightarrow> commit_body wire_envelope" where
  "remote_commit dr src dst ts task body =
     with_causality \<lparr>rel = Commits, referenced = task\<rparr>
       (unsigned_new commit_schema (sd_id dr) src dst CommitLocal ts
         \<lparr>cm_scope = JObj [], cm_scope_subset = None, cm_bounds = two_key_bounds, cm_accepted_policies = [],
          cm_delegation_permissions = None, cm_reporting_obligations = None,
          cm_terminal_condition = JObj [(''type'', JStr ''final_delivery'')], cm_conditions = None,
          cm_summary = body\<rparr>)"

definition remote_deliver ::
  "send_draw \<Rightarrow> principal \<Rightarrow> principal \<Rightarrow> string \<Rightarrow> uuid \<Rightarrow> string option \<Rightarrow> deliver_body wire_envelope" where
  "remote_deliver dr src dst ts task body =
     with_terminal_status TsCompleted
       (with_causality \<lparr>rel = Delivers, referenced = task\<rparr>
         (unsigned_new deliver_schema (sd_id dr) src dst Advisory ts
           \<lparr>interim = False, artifacts = None, dl_result = map_option (\<lambda>b. JObj [(''text'', JStr b)]) body,
            usage_metrics = None, error_detail_of = None,
            provenance = Some (JObj [(''signer'', JStr (principal_display src))]), dl_summary = None\<rparr>))"

definition build_remote_envelope_value ::
  "cli_env \<Rightarrow> fed_lib \<Rightarrow> ext_lib \<Rightarrow> time_lib \<Rightarrow> send_draw \<Rightarrow> send_args \<Rightarrow> string \<Rightarrow> principal \<Rightarrow> string \<Rightarrow>
   cli_error + json" where
  "build_remote_envelope_value env fl lib tm dr a identity dst home =
     res_bind (resolve_own_domain env (sa_domain a) home) (\<lambda>own_domain.
     res_bind
       (map_err (\<lambda>e. CeSendArgsInvalid (''failed to build a valid `from` principal: '' @ principal_error_display e))
         (principal_from_str (''agent:'' @ own_domain @ ''/'' @ identity))) (\<lambda>src.
     res_bind (fresh_ts tm dr) (\<lambda>ts.
     case (sa_new_task a, sa_task a, sa_terminal a) of
       (Some summary, None, False) \<Rightarrow>
         sign_then_strip fl lib request_schema (remote_request dr src dst ts summary)
     | (None, Some task, False) \<Rightarrow>
         res_bind (parse_task_id lib task) (\<lambda>task_id.
         sign_then_strip fl lib commit_schema (remote_commit dr src dst ts task_id (sa_body a)))
     | (None, Some task, True) \<Rightarrow>
         res_bind (parse_task_id lib task) (\<lambda>task_id.
         sign_then_strip fl lib deliver_schema (remote_deliver dr src dst ts task_id (sa_body a)))
     | _ \<Rightarrow> Inl (CeSendArgsInvalid ''exactly one of --new-task / --task is required for a remote send''))))"

definition build_envelope_value ::
  "cli_env \<Rightarrow> fed_lib \<Rightarrow> ext_lib \<Rightarrow> time_lib \<Rightarrow> send_draw \<Rightarrow> send_args \<Rightarrow> string \<Rightarrow> target \<Rightarrow> principal option \<Rightarrow>
   string \<Rightarrow> cli_error + json" where
  "build_envelope_value env fl lib tm dr a identity target remote home =
     (case remote of
        Some p \<Rightarrow> build_remote_envelope_value env fl lib tm dr a identity p home
      | None \<Rightarrow> build_local_envelope_value lib tm dr a identity target)"

subsection \<open>The command\<close>

definition parse_remote :: "send_args \<Rightarrow> cli_error + principal option" where
  "parse_remote a =
     (case sa_to a of
        None \<Rightarrow> Inr None
      | Some raw \<Rightarrow>
          (case principal_from_str raw of
             Inr p \<Rightarrow> Inr (Some p)
           | Inl e \<Rightarrow>
               if starts_with ''agent:'' raw
               then Inl (CeSendArgsInvalid
                 (quoted raw @ '' looks like a remote principal but failed to parse: '' @ principal_error_display e))
               else Inr None))"

definition send_target :: "send_args \<Rightarrow> principal option \<Rightarrow> cli_error + target" where
  "send_target a remote =
     (case (sa_to a, sa_channel a) of
        (Some name, None) \<Rightarrow> Inr (ToAgent (case remote of None \<Rightarrow> name | Some p \<Rightarrow> pname p))
      | (None, Some ch) \<Rightarrow> map_sum id ToChannel (normalize_channel ch)
      | (Some _, Some _) \<Rightarrow> Inl (CeSendArgsInvalid ''--to and --channel are mutually exclusive'')
      | (None, None) \<Rightarrow> Inl (CeSendArgsInvalid ''exactly one of --to or --channel is required''))"

definition reject_channel_target :: "target \<Rightarrow> cli_error + unit" where
  "reject_channel_target target =
     (case target of
        ToAgent name \<Rightarrow>
          if starts_with ''#'' name
          then Inl (CeSendArgsInvalid (quoted name @ '' looks like a channel name; pass channel= instead of peer=''))
          else Inr ()
      | ToChannel _ \<Rightarrow> Inr ())"

text \<open>Everything before the connection: the identity spoken for, the target and the envelope.\<close>

definition prepare_send ::
  "cli_env \<Rightarrow> fed_lib \<Rightarrow> ext_lib \<Rightarrow> time_lib \<Rightarrow> send_draw \<Rightarrow> send_args \<Rightarrow> cli_error + (string \<times> target \<times> json)" where
  "prepare_send env fl lib tm dr a =
     res_bind (resolve_identity env (sa_act_as a)) (\<lambda>identity.
     if starts_with ''#'' identity
     then Inl (CeSendArgsInvalid (quoted identity @ '' looks like a channel name; identities must not start with '' @ quoted ''#''))
     else if sa_more_coming a \<and> sa_new_task a = None
     then Inl (CeSendArgsInvalid ''--more-coming is only valid with --new-task'')
     else
       res_bind (parse_remote a) (\<lambda>remote.
       res_bind (send_target a remote) (\<lambda>target.
       res_bind (reject_channel_target target) (\<lambda>_.
       res_bind (if remote \<noteq> None then resolve_famp_home env else Inr []) (\<lambda>home.
       res_bind (build_envelope_value env fl lib tm dr a identity target remote home) (\<lambda>envelope.
       Inr (identity, target, envelope)))))))"

definition connect_error :: "(bus_client_error \<Rightarrow> string) \<Rightarrow> string \<Rightarrow> bus_client_error \<Rightarrow> cli_error" where
  "connect_error debug identity e =
     (case e of
        BcHelloFailed k _ \<Rightarrow> if k = NotRegistered then CeNotRegisteredHint identity else CeBusClient (debug e)
      | BcIo _ \<Rightarrow> CeBrokerUnreachable
      | BcBrokerDidNotStart _ \<Rightarrow> CeBrokerUnreachable
      | _ \<Rightarrow> CeBusClient (debug e))"

definition delivered_row_of :: "delivered \<Rightarrow> delivered_row" where
  "delivered_row_of d =
     (let (kind, name) = (case dl_to d of ToAgent n \<Rightarrow> (''agent'', n) | ToChannel n \<Rightarrow> (''channel'', n))
      in \<lparr>dr_to_kind = kind, dr_to_name = name, dr_ok = dl_ok d, dr_woken = dl_woken d, dr_wake_addr = dl_wake_addr d\<rparr>)"

definition send_reply ::
  "ext_lib \<Rightarrow> (delivered list \<Rightarrow> string) \<Rightarrow> string option \<Rightarrow> string \<Rightarrow> bus_reply \<Rightarrow> cli_error + send_outcome" where
  "send_reply lib debug_rows thread identity reply =
     (case reply of
        SendOk task_id ds \<Rightarrow>
          Inr \<lparr>so_task_id = uuid_show lib task_id, so_thread_task_id = thread, so_delivered = debug_rows ds,
               so_delivered_rows = map delivered_row_of ds\<rparr>
      | ErrReply kind message \<Rightarrow>
          if kind = NotRegistered then Inl (CeNotRegisteredHint identity) else Inl (CeBusError kind message)
      | _ \<Rightarrow> Inl (CeBusClient (''unexpected reply to Send: '' @ variant_name reply)))"

definition run_at_structured ::
  "cli_env \<Rightarrow> fed_lib \<Rightarrow> ext_lib \<Rightarrow> time_lib \<Rightarrow> 'w link \<Rightarrow> (conn \<Rightarrow> 'w \<Rightarrow> 'w) \<Rightarrow> (bus_client_error \<Rightarrow> string) \<Rightarrow>
   (delivered list \<Rightarrow> string) \<Rightarrow> string \<Rightarrow> send_draw \<Rightarrow> send_args \<Rightarrow> 'w \<Rightarrow> (cli_error + send_outcome) \<times> 'w" where
  "run_at_structured env fl lib tm lk shutdown debug debug_rows version dr a w =
     (case prepare_send env fl lib tm dr a of
        Inl e \<Rightarrow> (Inl e, w)
      | Inr (identity, target, envelope) \<Rightarrow>
          (case connect lk version (Some identity) w of
             (Inl e, w') \<Rightarrow> (Inl (connect_error debug identity e), w')
           | (Inr bus, w') \<Rightarrow>
               (case client_send_recv lk bus (Send target envelope) w' of
                  (Inl e, w'') \<Rightarrow> (Inl (CeBusClient (debug e)), w'')
                | (Inr reply, w'') \<Rightarrow>
                    (send_reply lib debug_rows (sa_task a) identity reply, shutdown (bc_stream bus) w''))))"

text \<open>Bad arguments never reach the broker.\<close>

lemma bad_arguments_stay_local:
  "prepare_send env fl lib tm dr a = Inl e \<Longrightarrow>
   run_at_structured env fl lib tm lk shutdown debug debug_rows version dr a w = (Inl e, w)"
  by (simp add: run_at_structured_def)

end
