(* ===== verification/SendProps.thy ===== *)
theory SendProps
  imports Send Stamped DrainWalk
begin

text \<open>
  What \<open>famp send\<close> puts on the bus can be read there: the envelope it builds decodes as a bus
  envelope of the class its mode asks for, from the sender it claims, and a remote one passes the
  guards of the gateway's relay.
\<close>

subsection \<open>Structures\<close>

lemma ser_struct_eqI:
  assumes "distinct (map fst fs)" "distinct (map fst gs)"
    and "\<And>k. (case map_of fs k of Some ov \<Rightarrow> ov | None \<Rightarrow> None) = (case map_of gs k of Some ov \<Rightarrow> ov | None \<Rightarrow> None)"
  shows "ser_struct fs = ser_struct gs"
proof -
  have "map_of (ser_fields fs) = map_of (ser_fields gs)"
    using assms by (simp add: map_of_ser_fields)
  moreover have "distinct (map fst (ser_fields fs))" "distinct (map fst (ser_fields gs))"
    using sorted_ser_fields by (rule sorted_keys_distinct)+
  ultimately have s: "set (ser_fields fs) = set (ser_fields gs)"
    by (metis map_of_inject_set)
  have "sorted (map fst (ser_fields fs))" "sorted (map fst (ser_fields gs))"
    using sorted_ser_fields strict_sorted_imp_sorted by blast+
  with s have "ser_fields fs = ser_fields gs"
    using \<open>distinct (map fst (ser_fields fs))\<close> \<open>distinct (map fst (ser_fields gs))\<close>
    by (intro map_sorted_distinct_set_unique [of fst]) (auto intro: distinct_map [THEN iffD1, THEN conjunct2])
  then show ?thesis by (simp add: ser_struct_def)
qed

lemma json_wf_ser_struct:
  assumes "\<forall>(k, ov) \<in> set fs. pred_option json_wf ov"
  shows "json_wf (ser_struct fs)"
proof -
  have "list_all (\<lambda>(k, v). json_wf v) acc \<Longrightarrow>
    list_all (\<lambda>(k, v). json_wf v) (fold (\<lambda>(k, ov) es. case ov of None \<Rightarrow> es | Some v \<Rightarrow> ins_entry k v es) fs acc)"
    for acc :: "(string \<times> json) list"
    using assms
  proof (induction fs arbitrary: acc)
    case (Cons f fs)
    have "list_all (\<lambda>(k, v). json_wf v) (ins_entry k v acc)" if "json_wf v" for k v
      using that Cons.prems(1) set_ins_entry [of k v acc] by (auto simp: list_all_iff)
    with Cons show ?case by (cases f) (auto split: option.splits)
  qed simp
  then show ?thesis using sorted_ser_fields [of fs] by (simp add: ser_struct_def ser_fields_def)
qed

subsection \<open>Unsigned envelopes on the bus\<close>

context body_codec
begin

lemma bus_decode_unsigned:
  assumes "sendable lib B ok u" "parse_value lib b = Inr (ser_wire lib (ser_body B) u)"
  shows "bus_decode lib B b = Inr u"
proof -
  obtain es where es: "ser_wire lib (ser_body B) u = JObj es" "map_of es ''signature'' = None"
      "map_of es ''famp'' = Some (JStr (w_famp u))"
    using ser_wire_fields [of lib "ser_body B" u] by blast
  have "de_wire lib (de_body B) (JObj es) = Inr u"
    using survives_wire [of lib u "de_body B" "ser_body B"] body_survives assms(1) es(1)
    by (simp add: survives_def sendable_def)
  then show ?thesis
    using assms es by (simp add: bus_decode_def check_famp_None_iff [THEN iffD2] sendable_def)
qed

lemma sign_then_strip_value:
  assumes "writer_faithful fl lib" "sendable lib B ok u" "sign_then_strip fl lib B u = Inr v"
  shows "v = ser_wire lib (ser_body B) u"
proof -
  obtain s b x where s: "sign_envelope fl lib B THROWAWAY_SIGN_SEED u = Inr s" "signed_encode fl lib B s = Inr b"
      "from_slice lib b = Inr x" "v = (case x of JObj es \<Rightarrow> JObj (obj_remove ''signature'' es) | _ \<Rightarrow> x)"
    using assms(3) by (auto simp: sign_then_strip_def res_bind_Inr_iff)
  have u: "u = inner s" using s(1) by (auto simp: sign_envelope_def res_bind_Inr_iff)
  obtain es where es: "ser_wire lib (ser_body B) u = JObj es"
      "parse_value lib b = Inr (JObj (ins_entry SIGNATURE_FIELD (JStr (sig_to_b64url fl (se_signature s))) es))"
    using parse_encoded [OF assms(1) assms(2) [unfolded u] s(2)] u by metis
  have "map_of es ''signature'' = None" using ser_wire_fields [of lib "ser_body B" u] es(1) by auto
  then have "obj_remove SIGNATURE_FIELD (ins_entry SIGNATURE_FIELD y es) = es" for y
    by (intro obj_remove_ins_entry) (simp add: SIGNATURE_FIELD_def map_of_eq_None_iff)
  then show ?thesis
    using parse_value_from_slice [OF es(2)] s(3,4) es(1) by (simp add: SIGNATURE_FIELD_def)
qed

end

subsection \<open>Remote sends\<close>

lemma two_key_bounds_ok: "bounds_ok two_key_bounds" "validate_bounds two_key_bounds = Inr ()"
  by (simp_all add: bounds_ok_def two_key_bounds_def validate_bounds_def bounds_count_def)

lemma json_wf_two_key_bounds: "json_wf (ser_bounds two_key_bounds)"
  by (auto simp: ser_bounds_def two_key_bounds_def ser_budget_def ser_uint_def intro!: json_wf_ser_struct)

lemma json_wf_ser_wire:
  assumes "json_wf (sb (w_body u))" "w_extensions u = None" "w_capability u = None" "w_approval u = None"
  shows "json_wf (ser_wire lib sb u)"
  unfolding ser_wire_def
  using assms
  by (intro json_wf_ser_struct)
    (auto simp: ser_message_id_def ser_principal_def ser_enum_def ser_causality_def pred_option_def
      intro!: json_wf_ser_struct)

lemmas remote_parts =
  sendable_def wire_ok_def unsigned_new_def with_causality_def with_terminal_status_def body_schema_defs

lemma remote_request_sendable:
  assumes "id_ok lib (sd_id dr)" "wf_principal src" "wf_principal dst" "shallow_validate ts"
  shows "sendable lib request_schema request_ok (remote_request dr src dst ts summary)"
proof -
  have "json_wf (ser_wire lib ser_request_body (remote_request dr src dst ts summary))"
    using json_wf_two_key_bounds
    by (intro json_wf_ser_wire)
      (auto simp: remote_request_def unsigned_new_def ser_request_body_def intro!: json_wf_ser_struct)
  then show ?thesis
    using assms two_key_bounds_ok by (simp add: remote_parts remote_request_def request_ok_def not_null_def)
qed

lemma remote_commit_sendable:
  assumes "id_ok lib (sd_id dr)" "wf_principal src" "wf_principal dst" "shallow_validate ts" "id_ok lib task"
  shows "sendable lib commit_schema commit_ok (remote_commit dr src dst ts task body)"
proof -
  have "json_wf (ser_wire lib ser_commit_body (remote_commit dr src dst ts task body))"
    using json_wf_two_key_bounds
    by (cases body; intro json_wf_ser_wire)
      (auto simp: remote_commit_def with_causality_def unsigned_new_def ser_commit_body_def ser_vec_def pred_option_def
        intro!: json_wf_ser_struct)
  then show ?thesis
    using assms two_key_bounds_ok by (simp add: remote_parts remote_commit_def commit_ok_def not_null_def)
qed

lemma remote_deliver_sendable:
  assumes "id_ok lib (sd_id dr)" "wf_principal src" "wf_principal dst" "shallow_validate ts" "id_ok lib task"
  shows "sendable lib deliver_schema deliver_ok (remote_deliver dr src dst ts task body)"
proof -
  have "json_wf (ser_wire lib ser_deliver_body (remote_deliver dr src dst ts task body))"
    by (cases body; intro json_wf_ser_wire)
      (auto simp: remote_deliver_def with_causality_def with_terminal_status_def unsigned_new_def ser_deliver_body_def
        pred_option_def intro!: json_wf_ser_struct)
  then show ?thesis
    using assms
    by (cases body) (simp_all add: remote_parts remote_deliver_def deliver_ok_def not_null_def
        validate_against_terminal_status_def)
qed

lemma own_domain_sender:
  assumes "resolve_own_domain env d home = Inr own" "principal_from_str (''agent:'' @ own @ ''/'' @ identity) = Inr src"
  shows "src = \<lparr>authority = own, pname = identity\<rparr>"
proof -
  have s: "''agent:'' @ own @ ''/'' @ identity = principal_display src" "wf_principal src"
    using assms(2) by (simp_all only: principal_from_str_Inr_iff)
  have "wf_principal \<lparr>authority = own, pname = ''x''\<rparr>"
    by (rule resolve_own_domain_valid [OF assms(1)]) code_simp
  then have "CHR ''/'' \<notin> set own" "CHR ''/'' \<notin> set (authority src)"
    using s(2) valid_authority_plain(1) by (auto simp: wf_principal_def is_ok_iff)
  then show ?thesis
    using s(1)
    by (cases src)
      (auto simp: principal_display_def append_eq_append_conv2 append_eq_Cons_conv Cons_eq_append_conv)
qed

text \<open>What the relay's guards read of a written envelope.\<close>

definition relayable :: "json \<Rightarrow> principal \<Rightarrow> principal \<Rightarrow> bool" where
  "relayable v src dst \<longleftrightarrow>
     parse_principal_field v ''from'' = Inr src \<and> parse_principal_field v ''to'' = Inr dst \<and> owned_fields_present v = []"

lemma ser_wire_entries:
  obtains es where "ser_wire lib sb u = JObj es" "map_of es ''from'' = Some (JStr (principal_display (w_from u)))"
    "map_of es ''to'' = Some (JStr (principal_display (w_to u)))"
    "map_of es ''from_domain'' = map_option JStr (w_from_domain u)" "map_of es ''to_domain'' = map_option JStr (w_to_domain u)"
    "map_of es ''sender_key_id'' = map_option JStr (w_sender_key_id u)" "map_of es ''nonce'' = map_option JStr (w_nonce u)"
    "map_of es ''expiry'' = map_option JStr (w_expiry u)" "map_of es ''capability'' = w_capability u"
    "map_of es ''approval'' = w_approval u"
  by (rule that [OF ser_wire_def [unfolded ser_struct_def]])
    (simp_all add: map_of_ser_fields ser_principal_def option.map_ident)

lemma ser_wire_relayable:
  assumes "wf_principal (w_from u)" "wf_principal (w_to u)"
    and "w_from_domain u = None" "w_to_domain u = None" "w_sender_key_id u = None" "w_nonce u = None"
    and "w_expiry u = None" "w_capability u = None" "w_approval u = None"
  shows "relayable (ser_wire lib sb u) (w_from u) (w_to u)"
proof -
  have "principal_from_str (principal_display (w_from u)) = Inr (w_from u)"
      "principal_from_str (principal_display (w_to u)) = Inr (w_to u)"
    using assms(1,2) by (simp_all add: principal_from_str_Inr_iff)
  then show ?thesis
    using assms(3-)
    by (rule_tac ser_wire_entries [of lib sb u])
      (simp add: relayable_def parse_principal_field_def owned_fields_present_def FEDERATION_OWNED_FIELDS_def jget_str_def)
qed

definition remote_class :: "send_args \<Rightarrow> message_class" where
  "remote_class a = (if sa_new_task a \<noteq> None then Request else if sa_terminal a then Deliver else Commit)"

lemma jget_ser_wire_class: "jget_str (ser_wire lib sb u) ''class'' = Some (class_str (w_class u))"
  by (rule ser_wire_fields [of lib sb u]) (simp add: jget_str_def ser_class)

lemma any_bus_decode_classI:
  assumes "parse_value lib line = Inr v" "jget_str v ''class'' = Some (class_str c)"
  shows "c = Request \<Longrightarrow> bus_decode lib request_schema line = Inr rq \<Longrightarrow> any_bus_decode lib line = Inr (BusRequest rq)"
    and "c = Commit \<Longrightarrow> bus_decode lib commit_schema line = Inr cm \<Longrightarrow> any_bus_decode lib line = Inr (BusCommit cm)"
    and "c = Deliver \<Longrightarrow> bus_decode lib deliver_schema line = Inr dl \<Longrightarrow> any_bus_decode lib line = Inr (BusDeliver dl)"
    and "c = AuditLog \<Longrightarrow> bus_decode lib audit_log_schema line = Inr al \<Longrightarrow> any_bus_decode lib line = Inr (BusAuditLog al)"
  using assms by (simp_all add: any_bus_decode_def)

text \<open>The fields of the three envelopes that the guards and the class of the result depend on.\<close>

definition plainly_from :: "message_class \<Rightarrow> principal \<Rightarrow> principal \<Rightarrow> 'b wire_envelope \<Rightarrow> bool" where
  "plainly_from c src dst u \<longleftrightarrow>
     w_class u = c \<and> w_from u = src \<and> w_to u = dst \<and> w_from_domain u = None \<and> w_to_domain u = None \<and>
     w_sender_key_id u = None \<and> w_nonce u = None \<and> w_expiry u = None \<and> w_capability u = None \<and> w_approval u = None"

lemma remote_plainly_from:
  "plainly_from Request src dst (remote_request dr src dst ts summary)"
  "plainly_from Commit src dst (remote_commit dr src dst ts i body)"
  "plainly_from Deliver src dst (remote_deliver dr src dst ts i body)"
  by (simp_all add: plainly_from_def remote_request_def remote_commit_def remote_deliver_def unsigned_new_def
      with_causality_def with_terminal_status_def body_schema_defs)

lemma plainly_from_written:
  assumes "plainly_from c src dst u" "wf_principal src" "wf_principal dst"
  shows "jget_str (ser_wire lib sb u) ''class'' = Some (class_str c)" "relayable (ser_wire lib sb u) src dst"
  using assms jget_ser_wire_class [of lib sb u] ser_wire_relayable [of u lib sb] by (auto simp: plainly_from_def)

lemma schema_ser_bodies:
  "ser_body request_schema = ser_request_body" "ser_body commit_schema = ser_commit_body"
  "ser_body deliver_schema = ser_deliver_body" "ser_body audit_log_schema = ser_audit_log_body"
  by (simp_all add: body_schema_defs)

text \<open>The three ways a remote envelope comes about.\<close>

lemma build_remoteE:
  assumes "build_remote_envelope_value env fl lib tm dr a identity dst home = Inr v"
  obtains (request) own src ts summary where "resolve_own_domain env (sa_domain a) home = Inr own"
      "principal_from_str (''agent:'' @ own @ ''/'' @ identity) = Inr src" "fresh_ts tm dr = Inr ts" "remote_class a = Request"
      "sign_then_strip fl lib request_schema (remote_request dr src dst ts summary) = Inr v"
    | (commit) own src ts task i where "resolve_own_domain env (sa_domain a) home = Inr own"
      "principal_from_str (''agent:'' @ own @ ''/'' @ identity) = Inr src" "fresh_ts tm dr = Inr ts" "remote_class a = Commit"
      "sa_task a = Some task" "parse_id lib task = Some i"
      "sign_then_strip fl lib commit_schema (remote_commit dr src dst ts i (sa_body a)) = Inr v"
    | (deliver) own src ts task i where "resolve_own_domain env (sa_domain a) home = Inr own"
      "principal_from_str (''agent:'' @ own @ ''/'' @ identity) = Inr src" "fresh_ts tm dr = Inr ts" "remote_class a = Deliver"
      "sa_task a = Some task" "parse_id lib task = Some i"
      "sign_then_strip fl lib deliver_schema (remote_deliver dr src dst ts i (sa_body a)) = Inr v"
proof -
  obtain own src ts where p: "resolve_own_domain env (sa_domain a) home = Inr own"
      "principal_from_str (''agent:'' @ own @ ''/'' @ identity) = Inr src" "fresh_ts tm dr = Inr ts"
    using assms by (auto simp: build_remote_envelope_value_def res_bind_Inr_iff)
  note b = assms [unfolded build_remote_envelope_value_def p res_bind.simps map_err.simps]
  show thesis
  proof (cases "sa_new_task a")
    case (Some summary)
    then show thesis using b by (intro request [OF p]) (simp_all add: remote_class_def split: option.splits bool.splits)
  next
    case None
    then obtain task i where t: "sa_task a = Some task" "parse_id lib task = Some i"
      using b by (auto simp: res_bind_Inr_iff parse_task_id_def split: option.splits bool.splits)
    show thesis
    proof (cases "sa_terminal a")
      case True
      then show thesis using b None t by (intro deliver [OF p _ t]) (simp_all add: remote_class_def parse_task_id_def)
    next
      case False
      then show thesis using b None t by (intro commit [OF p _ t]) (simp_all add: remote_class_def parse_task_id_def)
    qed
  qed
qed

text \<open>
  What a remote send puts on the bus is a bus envelope of the class of its mode, spoken by the
  identity under this host's own domain, which the gateway of that domain does not refuse.
\<close>

lemma remote_send_readable:
  assumes "build_remote_envelope_value env fl lib tm dr a identity dst home = Inr v" "writer_faithful fl lib"
    and "id_ok lib (sd_id dr)" "wf_principal dst" "\<forall>ts. fresh_ts tm dr = Inr ts \<longrightarrow> shallow_validate ts"
    and "\<forall>t i. sa_task a = Some t \<longrightarrow> parse_id lib t = Some i \<longrightarrow> id_ok lib i"
    and "parse_value lib line = Inr v"
  obtains e own where "resolve_own_domain env (sa_domain a) home = Inr own" "any_bus_decode lib line = Inr e"
    "bus_from e = \<lparr>authority = own, pname = identity\<rparr>" "bus_class e = remote_class a"
    "relayable v \<lparr>authority = own, pname = identity\<rparr> dst"
  using assms(1)
proof (cases rule: build_remoteE)
  case (request own src ts summary)
  have src: "wf_principal src" "src = \<lparr>authority = own, pname = identity\<rparr>"
    using own_domain_sender [OF request(1,2)] request(2) principal_from_str_Inr_iff by auto
  note s = remote_request_sendable [OF assms(3) src(1) assms(4) assms(5) [rule_format, OF request(3)]]
  note v = request_codec.sign_then_strip_value [OF assms(2) s request(5)]
  note f = plainly_from_written [OF remote_plainly_from(1) src(1) assms(4)]
  have "any_bus_decode lib line = Inr (BusRequest (remote_request dr src dst ts summary))"
    using any_bus_decode_classI(1) [OF assms(7), of Request] f(1) v
      request_codec.bus_decode_unsigned [OF s assms(7) [unfolded v]] by simp
  then show thesis
    using remote_plainly_from(1) [of src dst dr ts summary] f(2) v src(2) request(4)
    by (intro that [OF request(1)]) (auto simp: plainly_from_def)
next
  case (commit own src ts task i)
  have src: "wf_principal src" "src = \<lparr>authority = own, pname = identity\<rparr>"
    using own_domain_sender [OF commit(1,2)] commit(2) principal_from_str_Inr_iff by auto
  note s = remote_commit_sendable [OF assms(3) src(1) assms(4) assms(5) [rule_format, OF commit(3)]
      assms(6) [rule_format, OF commit(5,6)]]
  note v = commit_codec.sign_then_strip_value [OF assms(2) s commit(7)]
  note f = plainly_from_written [OF remote_plainly_from(2) src(1) assms(4)]
  have "any_bus_decode lib line = Inr (BusCommit (remote_commit dr src dst ts i (sa_body a)))"
    using any_bus_decode_classI(2) [OF assms(7), of Commit] f(1) v
      commit_codec.bus_decode_unsigned [OF s assms(7) [unfolded v]] by simp
  then show thesis
    using remote_plainly_from(2) [of src dst dr ts i "sa_body a"] f(2) v src(2) commit(4)
    by (intro that [OF commit(1)]) (auto simp: plainly_from_def)
next
  case (deliver own src ts task i)
  have src: "wf_principal src" "src = \<lparr>authority = own, pname = identity\<rparr>"
    using own_domain_sender [OF deliver(1,2)] deliver(2) principal_from_str_Inr_iff by auto
  note s = remote_deliver_sendable [OF assms(3) src(1) assms(4) assms(5) [rule_format, OF deliver(3)]
      assms(6) [rule_format, OF deliver(5,6)]]
  note v = deliver_codec.sign_then_strip_value [OF assms(2) s deliver(7)]
  note f = plainly_from_written [OF remote_plainly_from(3) src(1) assms(4)]
  have "any_bus_decode lib line = Inr (BusDeliver (remote_deliver dr src dst ts i (sa_body a)))"
    using any_bus_decode_classI(3) [OF assms(7), of Deliver] f(1) v
      deliver_codec.bus_decode_unsigned [OF s assms(7) [unfolded v]] by simp
  then show thesis
    using remote_plainly_from(3) [of src dst dr ts i "sa_body a"] f(2) v src(2) deliver(4)
    by (intro that [OF deliver(1)]) (auto simp: plainly_from_def)
qed

text \<open>The body text given with a new task is not in the request.\<close>

lemma remote_request_ignores_body:
  "sa_new_task a \<noteq> None \<Longrightarrow>
   build_remote_envelope_value env fl lib tm dr (a\<lparr>sa_body := b\<rparr>) identity dst home =
   build_remote_envelope_value env fl lib tm dr a identity dst home"
  by (auto simp: build_remote_envelope_value_def split: option.splits)

subsection \<open>Local sends\<close>

definition local_principal :: "string \<Rightarrow> principal" where
  "local_principal name = \<lparr>authority = ''local.bus'', pname = name\<rparr>"

text \<open>The envelope that a local send means, for a target name and a parsed task id.\<close>

definition local_envelope ::
  "send_draw \<Rightarrow> string \<Rightarrow> string \<Rightarrow> string \<Rightarrow> string \<Rightarrow> json \<Rightarrow> uuid option \<Rightarrow> audit_log_body wire_envelope" where
  "local_envelope dr identity to_name ts ev payload task =
     (unsigned_new audit_log_schema (sd_id dr) (local_principal identity) (local_principal to_name) Advisory ts
       \<lparr>event = ev, subject = None, details = Some payload\<rparr>)
     \<lparr>w_causality := map_option (\<lambda>i. \<lparr>rel = Delivers, referenced = i\<rparr>) task\<rparr>"

fun target_name :: "target \<Rightarrow> string" where
  "target_name (ToAgent name) = name"
| "target_name (ToChannel name) = ''channel-'' @ dropWhile (\<lambda>c. c = CHR ''#'') name"

lemma local_to_display: "local_to t = principal_display (local_principal (target_name t))"
  by (cases t) (simp_all add: principal_display_def local_principal_def)

text \<open>A channel the bus accepts always gives a well-formed recipient.\<close>

lemma name_chars_of_channel:
  "lower_or_digit c \<Longrightarrow> name_char c \<and> is_ascii c"
  by (auto simp: lower_or_digit_def name_char_def is_ascii_alphanumeric_def is_ascii_lower_def is_ascii_digit_def
      is_ascii_def less_eq_char_def)

lemma channel_recipient_wf:
  assumes "channel_name_valid n"
  shows "wf_principal (local_principal (target_name (ToChannel n)))"
proof -
  obtain c r where n: "n = CHR ''#'' # c # r" "lower_or_digit c" "length r \<le> 31"
      "list_all (\<lambda>b. lower_or_digit b \<or> b = CHR ''_'' \<or> b = CHR ''-'') r"
    using assms by (auto simp: channel_name_valid_def split: list.splits)
  have m: "target_name (ToChannel n) = ''channel-'' @ c # r"
    using n(1,2) lower_or_digit_not_hash by auto
  have "name_char b \<and> is_ascii b" if "b \<in> set (''channel-'' @ c # r)" for b
  proof -
    have "\<forall>b \<in> set ''channel-_''. name_char b \<and> is_ascii b" by code_simp
    then show ?thesis using that n(2,4) name_chars_of_channel by (auto simp: list_all_iff)
  qed
  then have "validate_name_or_instance_id (''channel-'' @ c # r) = Inr ()"
    using n(3) by (auto simp: validate_name_or_instance_id_def list_all_iff)
  moreover have "validate_authority ''local.bus'' = Inr ()" by code_simp
  ultimately show ?thesis by (simp only: wf_principal_def local_principal_def m principal.simps is_ok.simps)
qed

lemma local_value:
  assumes "build_local_envelope_value lib tm dr a identity t = Inr v" "sa_task a = map_option (uuid_show lib) task"
  obtains payload ts where "build_inner_payload a = Inr payload" "fresh_ts tm dr = Inr ts"
    "v = ser_wire lib ser_audit_log_body (local_envelope dr identity (target_name t) ts (send_event a) payload task)"
proof -
  obtain payload ts where p: "build_inner_payload a = Inr payload" "fresh_ts tm dr = Inr ts"
    using assms(1)
    by (auto simp: build_local_envelope_value_def fresh_id_and_ts_def res_bind_Inr_iff map_sum_Inr_iff)
  have b: "ser_audit_log_body \<lparr>event = send_event a, subject = None, details = Some payload\<rparr> =
      ser_struct [(''event'', Some (JStr (send_event a))), (''details'', Some payload)]"
    unfolding ser_audit_log_body_def by (rule ser_struct_eqI) simp_all
  have c: "ser_causality lib \<lparr>rel = Delivers, referenced = i\<rparr> =
      ser_struct [(''rel'', Some (JStr ''delivers'')), (''ref'', Some (JStr (uuid_show lib i)))]" for i
    by (simp add: ser_causality_def ser_message_id_def ser_enum_def relation_wire_def)
  have f: "''agent:local.bus/'' @ identity = principal_display (local_principal identity)"
    by (simp add: principal_display_def local_principal_def)
  have "v = ser_wire lib ser_audit_log_body (local_envelope dr identity (target_name t) ts (send_event a) payload task)"
    using assms(1)
    unfolding build_local_envelope_value_def fresh_id_and_ts_def p res_bind.simps map_sum.simps prod.case
      ser_wire_def local_envelope_def f local_to_display assms(2) sum.inject
    by (elim subst, intro ser_struct_eqI; cases task)
      (simp_all add: unsigned_new_def b c ser_principal_def ser_message_id_def ser_enum_def audit_log_schema_def
        scope_wire_def class_wire_def authority_wire_def FAMP_SPEC_VERSION_def)
  with p show thesis by (rule that)
qed

lemma json_wf_strings: "pred_option json_wf (map_option JStr x)" "pred_option json_wf (set_flag b)"
  by (cases x) (simp_all add: set_flag_def)

lemma json_wf_payload: "build_inner_payload a = Inr payload \<Longrightarrow> json_wf payload \<and> payload \<noteq> JNull"
  by (auto simp: build_inner_payload_def res_bind_Inr_iff json_wf_strings intro!: json_wf_ser_struct)

lemma send_event_nonempty: "send_event a \<noteq> []"
  by (auto simp: send_event_def split: option.splits)

lemma local_envelope_sendable:
  assumes "id_ok lib (sd_id dr)" "wf_principal (local_principal identity)" "wf_principal (local_principal to_name)"
    and "shallow_validate ts" "pred_option (id_ok lib) task" "json_wf payload" "payload \<noteq> JNull" "ev \<noteq> []"
  shows "sendable lib audit_log_schema audit_log_ok (local_envelope dr identity to_name ts ev payload task)"
proof -
  have "json_wf (ser_wire lib ser_audit_log_body (local_envelope dr identity to_name ts ev payload task))"
    using assms(6)
    by (intro json_wf_ser_wire)
      (auto simp: local_envelope_def unsigned_new_def ser_audit_log_body_def intro!: json_wf_ser_struct)
  then show ?thesis
    using assms
    by (cases task)
      (simp_all add: remote_parts local_envelope_def audit_log_ok_def not_null_def validate_audit_log_def)
qed

text \<open>
  A local send by a name that a principal can carry, to such a name or to a channel, with a task id as
  the bus prints them, is read back as the \<open>audit_log\<close> envelope of that sender with the payload in it.
\<close>

lemma local_send_readable:
  assumes "build_local_envelope_value lib tm dr a identity t = Inr v" "sa_task a = map_option (uuid_show lib) task"
    and "id_ok lib (sd_id dr)" "pred_option (id_ok lib) task" "\<forall>ts. fresh_ts tm dr = Inr ts \<longrightarrow> shallow_validate ts"
    and "wf_principal (local_principal identity)" "wf_principal (local_principal (target_name t))"
    and "parse_value lib line = Inr v"
  obtains e payload where "any_bus_decode lib line = Inr (BusAuditLog e)" "w_from e = local_principal identity"
    "w_to e = local_principal (target_name t)" "build_inner_payload a = Inr payload" "details (w_body e) = Some payload"
    "event (w_body e) = send_event a" "map_option referenced (w_causality e) = task"
  using assms(1,2)
proof (rule local_value)
  fix payload ts
  let ?e = "local_envelope dr identity (target_name t) ts (send_event a) payload task"
  assume v: "build_inner_payload a = Inr payload" "fresh_ts tm dr = Inr ts" "v = ser_wire lib ser_audit_log_body ?e"
  have s: "sendable lib audit_log_schema audit_log_ok ?e"
    using assms(3-7) v(1,2) json_wf_payload send_event_nonempty by (intro local_envelope_sendable) blast+
  have "bus_decode lib audit_log_schema line = Inr ?e"
    using audit_log_codec.bus_decode_unsigned [OF s] assms(8) v(3) by (simp add: schema_ser_bodies)
  moreover have "jget_str v ''class'' = Some (class_str AuditLog)"
    unfolding v(3) jget_ser_wire_class by (simp add: local_envelope_def unsigned_new_def audit_log_schema_def)
  ultimately have "any_bus_decode lib line = Inr (BusAuditLog ?e)"
    using any_bus_decode_classI(4) [OF assms(8)] by blast
  then show thesis
    using v(1) by (intro that [of ?e payload]; cases task) (simp_all add: local_envelope_def unsigned_new_def)
qed

subsection \<open>A task id that is none\<close>

text \<open>
  The local path does not look at the task id: an envelope whose task is no id is built and sent, and
  no reader of the mailbox ever gets it.
\<close>

lemma de_wire_causality:
  assumes "de_wire lib d (JObj es) = Inr w"
  shows "opt es ''causality'' (de_causality lib) = Inr (w_causality w)"
proof -
  obtain r where r: "de_struct (wire_fields lib d) (JObj es) = Inr r"
    using assms unfolding de_wire_def by (cases "de_struct (wire_fields lib d) (JObj es)") auto
  have re: "r = es" using de_struct_JObj_known(1) [OF r] .
  note w = assms [unfolded de_wire_def r re res_bind.simps res_bind_Inr_iff]
  show ?thesis using w by (elim exE conjE; clarsimp)
qed

lemma bus_decode_causality:
  assumes "bus_decode lib B line = Inr w" "parse_value lib line = Inr (JObj es)"
  shows "opt es ''causality'' (de_causality lib) = Inr (w_causality w)"
  using assms(1) by (rule bus_decode_InrD) (use assms(2) de_wire_causality in fastforce)

lemma any_bus_decode_causality:
  assumes "any_bus_decode lib line = Inr e" "parse_value lib line = Inr (JObj es)"
  obtains c where "opt es ''causality'' (de_causality lib) = Inr c"
  using assms that
  by (auto simp: any_bus_decode_def map_sum_Inr_iff dest: bus_decode_causality [OF _ assms(2)]
      split: option.splits if_splits)

lemma bad_task_undecodable:
  assumes "build_local_envelope_value lib tm dr a identity t = Inr v" "sa_task a = Some task" "parse_id lib task = None"
    and "parse_value lib line = Inr v"
  shows "any_bus_decode lib line \<noteq> Inr e"
proof
  assume d: "any_bus_decode lib line = Inr e"
  let ?c = "ser_struct [(''rel'', Some (JStr ''delivers'')), (''ref'', Some (JStr task))]"
  obtain es where es: "v = JObj es" "map_of es ''causality'' = Some ?c"
    using assms(1,2)
    by (auto simp: build_local_envelope_value_def res_bind_Inr_iff ser_struct_def map_of_ser_fields)
  obtain c where "opt es ''causality'' (de_causality lib) = Inr c"
    using any_bus_decode_causality [OF d] assms(4) es(1) by metis
  then show False
    using es(2) assms(3)
    by (auto simp: opt_def de_causality_def res_bind_Inr_iff req_def ser_struct_def map_of_ser_fields
        de_message_id_def de_parsed_def map_sum_Inr_iff dest!: de_struct_JObj_known(1) split: option.splits)
qed

lemma bad_task_never_drained:
  assumes "build_local_envelope_value lib tm dr a identity t = Inr v" "sa_task a = Some task" "parse_id lib task = None"
    and "text_faithful lib v" "parse_value lib line = Inr (stamped_to_json \<lparr>st_origin = o', st_envelope = v\<rparr>)"
  shows "\<exists>e. decode_line lib line = Inl e"
proof -
  obtain b where b: "canonicalize lib v = Inr b" "parse_value lib b = Inr v"
    using text_faithful_parse [OF assms(4)] by blast
  obtain e where "any_bus_decode lib b = Inl e"
    using bad_task_undecodable [OF assms(1-3) b(2)] by (cases "any_bus_decode lib b") auto
  then show ?thesis using assms(5) b(1) by (simp add: decode_line_def)
qed

end
