(* ===== verification/SendScenario.thy ===== *)
theory SendScenario
  imports SendProps EgressProps
begin

text \<open>
  Alice of \<open>one.example\<close> opens a task with Bob of \<open>two.example\<close>: a concrete run of \<open>famp send\<close> and of the
  relay after it, on the instances of the third-party code of \<open>FedScenario\<close> and \<open>EgressProps\<close>.
\<close>

definition e2e_env :: cli_env where
  "e2e_env =
     \<lparr>ce_var = (\<lambda>n. if n = ''FAMP_HOME'' then Some ''/home/alice/.famp'' else None), ce_current_dir = Inl IoOther,
      ce_home_dir = None, ce_canonicalize = (\<lambda>_. None), ce_read_to_string = (\<lambda>_. Inr ''one.example'')\<rparr>"

definition e2e_args :: send_args where
  "e2e_args =
     \<lparr>sa_to = Some ''agent:two.example/bob'', sa_channel = None, sa_new_task = Some ''hi'', sa_task = None,
      sa_terminal = False, sa_body = None, sa_more_coming = False, sa_act_as = Some ''alice'', sa_domain = None\<rparr>"

definition e2e_draw :: send_draw where "e2e_draw = \<lparr>sd_id = 7, sd_now = 0\<rparr>"

definition e2e_envelope :: "request_body wire_envelope" where
  "e2e_envelope = remote_request e2e_draw alice bob out_expiry ''hi''"

definition e2e_plain :: "(string \<times> json) list" where
  "e2e_plain = (case ser_wire out_ext ser_request_body e2e_envelope of JObj es \<Rightarrow> es | _ \<Rightarrow> [])"

definition e2e_throwaway :: "(string \<times> json) list" where
  "e2e_throwaway =
     ins_entry SIGNATURE_FIELD (JStr (demo_encode (demo_sign THROWAWAY_SIGN_SEED (DOMAIN_PREFIX @ [22])))) e2e_plain"

definition e2e_stamped :: "(string \<times> json) list" where
  "e2e_stamped = stamp_fields ''one.example'' ''two.example'' (key_id (demo_fed []) key_a) demo_id out_expiry e2e_plain"

definition e2e_signed :: "(string \<times> json) list" where
  "e2e_signed = posted (demo_fed []) out_sig e2e_stamped"

definition e2e_fl :: fed_lib where
  "e2e_fl = demo_fed [(JObj e2e_throwaway, [30]), (JObj e2e_signed, [20])]"

definition e2e_ext :: ext_lib where
  "e2e_ext =
     \<lparr>lex = (\<lambda>b. if b = [12] then json_events (JObj e2e_plain) else if b = [20] then json_events (JObj e2e_signed)
        else if b = [30] then json_events (JObj e2e_throwaway) else [EvErr ''expected value'']),
      jcs = (\<lambda>v. Inr (if v = JObj e2e_stamped then [21] else [22])),
      uuid_parse = (\<lambda>t. if t = demo_id then Some 7 else None), uuid_show = (\<lambda>_. demo_id)\<rparr>"

subsection \<open>The values\<close>

lemma e2e_ext_parts: "uuid_show e2e_ext = uuid_show out_ext" "id_ok e2e_ext 7"
  by (simp_all add: e2e_ext_def out_ext_def id_ok_def parse_id_def demo_id_def)

lemma ser_wire_show: "uuid_show lib = uuid_show lib' \<Longrightarrow> ser_wire lib sb u = ser_wire lib' sb u"
  by (simp add: ser_wire_def ser_message_id_def ser_causality_def [abs_def])

lemma e2e_plain: "ser_wire e2e_ext ser_request_body e2e_envelope = JObj e2e_plain"
  by (subst ser_wire_show [OF e2e_ext_parts(1)]) (simp add: e2e_plain_def ser_wire_def ser_struct_def)

lemma e2e_wf_principals: "wf_principal alice" "wf_principal bob"
  by code_simp+

lemma e2e_sendable: "sendable e2e_ext request_schema request_ok e2e_envelope"
  unfolding e2e_envelope_def
  by (rule remote_request_sendable) (simp_all add: e2e_draw_def e2e_ext_parts e2e_wf_principals out_fields)

lemma e2e_wf: "json_wf (JObj e2e_plain)"
  using e2e_sendable e2e_plain by (simp add: sendable_def schema_ser_bodies)

lemma e2e_keys: "map_of e2e_plain ''signature'' = None" "map_of e2e_plain ''nonce'' = None"
  by (rule ser_wire_fields [of e2e_ext ser_request_body e2e_envelope],
      use e2e_plain in simp)
    (rule ser_wire_entries [of e2e_ext ser_request_body e2e_envelope],
      use e2e_plain in \<open>simp add: e2e_envelope_def remote_request_def unsigned_new_def\<close>)

lemma e2e_wf_all: "json_wf (JObj e2e_throwaway)" "json_wf (JObj e2e_signed)"
  using json_wf_ins [OF e2e_wf] json_wf_posted [OF e2e_wf]
  by (simp_all add: e2e_throwaway_def e2e_signed_def e2e_stamped_def)

lemma e2e_throwaway_not_signed: "JObj e2e_throwaway \<noteq> JObj e2e_signed"
proof -
  have "map_of e2e_throwaway ''nonce'' = None" "map_of e2e_signed ''nonce'' \<noteq> None"
    using e2e_keys(2)
    by (simp_all add: e2e_throwaway_def e2e_signed_def e2e_stamped_def posted_def stamp_fields_def map_of_ins_entry
        SIGNATURE_FIELD_def)
  then show ?thesis by auto
qed

lemma e2e_plain_not_stamped: "JObj e2e_plain \<noteq> JObj e2e_stamped"
proof -
  have "map_of e2e_stamped ''nonce'' \<noteq> None" by (simp add: e2e_stamped_def stamp_fields_def map_of_ins_entry)
  then show ?thesis using e2e_keys(2) by auto
qed

lemma parse_events:
  assumes "lex lib b = json_events v" "json_wf v"
  shows "parse_value lib b = Inr v"
  using assms strict_tree_events [of v v] json_wf_dup_free [OF assms(2)] json_norm_wf [OF assms(2)]
  by (simp add: from_slice_strict_def)

lemma e2e_parse:
  "parse_value e2e_ext [12] = Inr (JObj e2e_plain)" "parse_value e2e_ext [30] = Inr (JObj e2e_throwaway)"
  by (rule parse_events [OF _ e2e_wf], simp add: e2e_ext_def)
    (rule parse_events [OF _ e2e_wf_all(1)], simp add: e2e_ext_def)

lemma e2e_fl_parts:
  "key_id e2e_fl k = key_id (demo_fed []) k" "sig_to_b64url e2e_fl x = sig_to_b64url (demo_fed []) x"
  "posted e2e_fl x es = posted (demo_fed []) x es" "json_to_vec e2e_fl (JObj e2e_signed) = Inr [20]"
  "json_to_vec e2e_fl (JObj e2e_throwaway) = Inr [30]" "sk_verifying_key e2e_fl key_a = key_a"
  using e2e_throwaway_not_signed
  by (simp_all add: e2e_fl_def demo_fed_def key_id_def sig_to_b64url_def posted_def demo_writer_def sk_verifying_key_def)

lemma e2e_b64: "sig_to_b64url e2e_fl x = demo_encode x"
  by (simp add: sig_to_b64url_def e2e_fl_def demo_fed_def)

lemma e2e_hypotheses: "honest_signer e2e_fl key_a" "writer_faithful e2e_fl e2e_ext"
  by (simp add: e2e_fl_def demo_honest)
    (auto simp: e2e_fl_def writer_faithful_def demo_fed_def demo_writer_def e2e_ext_def split: if_splits)

subsection \<open>The send\<close>

lemma e2e_strip: "sign_then_strip e2e_fl e2e_ext request_schema e2e_envelope = Inr (JObj e2e_plain)"
proof -
  let ?sig = "demo_sign THROWAWAY_SIGN_SEED (DOMAIN_PREFIX @ [22])"
  have "sign_value e2e_fl e2e_ext THROWAWAY_SIGN_SEED (JObj e2e_plain) = Inr ?sig"
    using e2e_plain_not_stamped
    by (simp add: sign_value_Inr_iff canonicalize_for_signature_def canonicalize_def e2e_ext_def e2e_fl_def demo_fed_def)
  then have s: "sign_envelope e2e_fl e2e_ext request_schema THROWAWAY_SIGN_SEED e2e_envelope =
      Inr \<lparr>inner = e2e_envelope, se_signature = ?sig\<rparr>"
    by (simp add: sign_envelope_def schema_ser_bodies e2e_plain)
  have e: "signed_encode e2e_fl e2e_ext request_schema \<lparr>inner = e2e_envelope, se_signature = ?sig\<rparr> = Inr [30]"
    using e2e_fl_parts(5)
    by (simp add: signed_encode_def schema_ser_bodies e2e_plain e2e_throwaway_def e2e_b64)
  have "obj_remove ''signature'' e2e_throwaway = e2e_plain"
    unfolding e2e_throwaway_def SIGNATURE_FIELD_def
    using e2e_keys(1) by (intro obj_remove_ins_entry) (simp add: map_of_eq_None_iff)
  then show ?thesis
    by (simp add: sign_then_strip_def s e parse_value_from_slice [OF e2e_parse(2)])
qed

lemma e2e_prepared: "prepare_send e2e_env e2e_fl e2e_ext out_time e2e_draw e2e_args = Inr (''alice'', ToAgent ''bob'', JObj e2e_plain)"
proof -
  have "resolve_identity e2e_env (Some ''alice'') = Inr ''alice''" "parse_remote e2e_args = Inr (Some bob)"
    "send_target e2e_args (Some bob) = Inr (ToAgent ''bob'')" "reject_channel_target (ToAgent ''bob'') = Inr ()"
    "resolve_famp_home e2e_env = Inr ''/home/alice/.famp''" "starts_with ''#'' ''alice'' = False"
    by code_simp+
  moreover have "resolve_own_domain e2e_env None ''/home/alice/.famp'' = Inr ''one.example''"
    "principal_from_str (''agent:'' @ ''one.example'' @ ''/'' @ ''alice'') = Inr alice" "fresh_ts out_time e2e_draw = Inr out_expiry"
    by code_simp+
  then have "build_remote_envelope_value e2e_env e2e_fl e2e_ext out_time e2e_draw e2e_args ''alice'' bob ''/home/alice/.famp'' =
      Inr (JObj e2e_plain)"
    using e2e_strip by (simp add: build_remote_envelope_value_def e2e_args_def e2e_envelope_def)
  moreover have "sa_act_as e2e_args = Some ''alice''" "sa_more_coming e2e_args = False" by (simp_all add: e2e_args_def)
  ultimately show ?thesis by (simp add: prepare_send_def build_envelope_value_def del: starts_with_hash)
qed

subsection \<open>The relay\<close>

lemma e2e_relayable: "relayable (JObj e2e_plain) alice bob"
  using plainly_from_written(2) [OF remote_plainly_from(1) e2e_wf_principals, of e2e_ext ser_request_body e2e_draw out_expiry "''hi''"]
    e2e_plain by (simp add: e2e_envelope_def)

lemma e2e_signs:
  "sign_federation_fields e2e_fl e2e_ext out_time out_draw (JObj e2e_plain) alice bob key_a key_a = (Inr (), JObj e2e_signed)"
proof -
  have "stamp_fields (authority alice) (authority bob) (key_id e2e_fl key_a) (uuid_show e2e_ext (dr_nonce out_draw)) out_expiry
      e2e_plain = e2e_stamped"
    by (simp add: e2e_stamped_def e2e_fl_parts alice_def bob_def e2e_ext_def)
  moreover have "sign_value e2e_fl e2e_ext key_a (JObj e2e_stamped) = Inr out_sig"
    by (simp add: sign_value_Inr_iff canonicalize_for_signature_def canonicalize_def e2e_ext_def out_sig_def e2e_fl_def
        demo_fed_def)
  ultimately show ?thesis
    using out_fields(5) e2e_keys(1)
    by (simp add: sign_federation_fields_def Let_def flip: stamp_fields_def)
      (simp add: e2e_signed_def e2e_fl_parts posted_def)
qed

lemma e2e_relayed:
  "relay_one e2e_fl e2e_ext out_time out_http out_peers out_draw (JObj e2e_plain) ''one.example'' key_a key_a [] =
     (Inr (), JObj e2e_signed,
      [([''https://two.example'', ''famp'', ''v0.5.1'', ''inbox'', ''agent:two.example/bob''], [20])])"
  using e2e_relayable e2e_signs e2e_fl_parts(4)
  by (simp add: relayable_def relay_one_def transport_send_def out_peers_def add_peer_def out_http_def)
    (simp add: alice_def bob_def principal_display_def)

end
