(* ===== verification/Spec2Isabelle.thy ===== *)
theory Spec2Isabelle
  imports BrokerChannels WakeCursor WireProps KeyringProps EgressProps RelayProps RelayFetch InboxFile SendScenario
begin

text \<open>
  A verification of FAMP, the Rust workspace under \<open>src/crates\<close>: a message bus for agents on one host and
  its federation between hosts.

  \<^bold>\<open>The program.\<close> Agents connect to a broker (\<open>famp-bus\<close>) over a local socket, register a name, join channels,
  send envelopes and await or read them. The broker is a single actor: it takes an input, changes its state and
  stages effects, among them the appending of a line to a mailbox file. Every line carries the origin of the
  connection that sent it, and only lines of local origin wake an agent. Between hosts, a gateway
  (\<open>famp-gateway\<close>) stands on each bus for the remote agents: it drains their mailboxes, signs what it finds and
  posts it to the peer's gateway (egress), and it checks, verifies and delivers what peers post to it (ingress),
  trusting the keys of a keyring (\<open>famp-keyring\<close>). A relay (\<open>famp-relay\<close>) stores bodies for gateways that
  cannot be reached, which fetch them with a signed request.

  \<^bold>\<open>Conventions.\<close> A Rust result is a sum with the error on the left; state is passed explicitly; a panic is
  \<open>None\<close>. Text is \<open>string\<close>, bytes are \<open>8 word list\<close>, identifiers are \<open>128 word\<close>, instants are integers counting
  nanoseconds (in the broker, milliseconds). Maps are the type \<open>btree\<close> of sorted entry lists; JSON objects are
  entry lists with ascending keys. Code of third-party crates is a parameter: \<open>ext_lib\<close> (the JSON lexer,
  the canonical serializer, UUID text), \<open>fed_lib\<close> (base64, Ed25519, SHA-256, the JSON writer), \<open>rfc3339\<close> and
  \<open>time_lib\<close> (the time crate), \<open>http_lib\<close> and \<open>http_get\<close> (URLs and the HTTP client), \<open>link\<close> (a socket over a world).
  What the theorems need of them is named: \<open>text_faithful\<close>, \<open>writer_faithful\<close>, \<open>honest_signer\<close>. \<open>Scenario\<close>,
  \<open>FedScenario\<close> and the property theories give concrete instances, which the witnesses evaluate.

  \<^bold>\<open>Theories and sources.\<close>
  \<^item> \<open>Prelude\<close>, \<open>BTree\<close>: results, options, text, ordered maps.
  \<^item> \<open>Json\<close>, \<open>Canonical\<close>: values, derived (de)serializers, the strict and the lenient reading of JSON, canonical
    form (\<open>famp-canonical\<close>).
  \<^item> \<open>Core\<close>, \<open>Fsm\<close>, \<open>Bodies\<close>, \<open>Envelope\<close>: identities, the task machine, bodies, bus envelopes (\<open>famp-core\<close>,
    \<open>famp-fsm\<close>, \<open>famp-envelope\<close>).
  \<^item> \<open>Crypto\<close>, \<open>Signed\<close>: keys, signatures, signed envelopes (\<open>famp-crypto\<close>, \<open>famp-envelope/src/envelope.rs\<close>,
    \<open>dispatch.rs\<close>, \<open>view.rs\<close>, \<open>peek.rs\<close>). The locale \<open>body_codec\<close> is the contract of a body whose deserializer undoes
    its serializer; the six bodies are interpretations.
  \<^item> \<open>Mailbox\<close>, \<open>Origin\<close>, \<open>DrainWalk\<close>: mailboxes in memory and on disk, stamps, the walk over records
    (\<open>famp-bus/src/mailbox.rs\<close>, \<open>origin.rs\<close>, \<open>broker/drain_walk.rs\<close>, \<open>famp/src/cli/broker/mailbox_env.rs\<close>).
  \<^item> \<open>Proto\<close>, \<open>Codec\<close>: messages, replies, frames (\<open>famp-bus/src/proto.rs\<close>, \<open>codec.rs\<close>).
  \<^item> \<open>BrokerState\<close>, \<open>Awaiting\<close>, \<open>Handle\<close>: the actor (\<open>famp-bus/src/broker\<close>); one definition per handler, composed by
    \<open>handle\<close>. \<open>BrokerInv\<close> and \<open>BrokerFrame\<close> hold the step relation, reachability, the invariant and what steps keep.
  \<^item> \<open>Keyring\<close>, \<open>KeyLife\<close>, \<open>KeyringFile\<close>, \<open>UtcTime\<close>: pinned keys, their abstract life cycle, the file, canonical time.
  \<^item> \<open>Client\<close>: the bus client, which starts a broker where none answers, and the gateway's connections (\<open>famp/src/bus_client\<close>, \<open>principal.rs\<close>, \<open>registry.rs\<close>).
  \<^item> \<open>Guard\<close>, \<open>GuardRun\<close>, \<open>Ingress\<close>, \<open>Relayed\<close>: the checks before verification, runs of them, the ingest core, the
    stripped envelope on the bus (\<open>ingress_guard.rs\<close>, \<open>verify.rs\<close>, \<open>ingress.rs\<close>).
  \<^item> \<open>Egress\<close>, \<open>Stamped\<close>: signing and posting, failure notifications, the stamped envelope at the peer
    (\<open>egress.rs\<close>, \<open>famp-transport-http/src/transport.rs\<close>).
  \<^item> \<open>Relay\<close>, \<open>RelayFetch\<close>: queues, fetch authorization and handlers; the gateway's poller (\<open>famp-relay\<close>,
    \<open>famp-gateway/src/relay_fetch.rs\<close>).
  \<^item> \<open>InboxFile\<close>: inbox and cursor files (\<open>famp-inbox/src/read.rs\<close>, \<open>cursor.rs\<close>, \<open>famp/src/cli/broker/cursor_exec.rs\<close>).
  \<^item> \<open>CliEnv\<close>, \<open>Send\<close>, \<open>SendProps\<close>: who a command speaks for, and \<open>famp send\<close> from its arguments to the outcome
    (\<open>famp/src/cli/identity.rs\<close>, \<open>home.rs\<close>, \<open>own_domain.rs\<close>, \<open>util.rs\<close>, \<open>send/mod.rs\<close>). Surroundings are the record \<open>cli_env\<close>; \<open>SendScenario\<close> is a concrete send and relay.

  \<^bold>\<open>What is shown.\<close>
  \<^item> \<open>BrokerProps\<close>, \<open>BrokerWake\<close>, \<open>BrokerNames\<close>, \<open>BrokerMembers\<close>, \<open>BrokerChannels\<close>: a name has one holder; every input
    is handled without a panic; appended lines are authenticated and stamped; only local origin wakes; the broker
    refines a name service; refused frames change nothing; departures, ticks and awaits do what they should;
    channel membership agrees with the sessions.
  \<^item> \<open>WakeCursor\<close>: the cursor a wake stores is the mailbox file's end after the append, and how a second wake in a
    mailbox without a file passes it.
  \<^item> \<open>WireProps\<close>: exactness of the strict parser, round trips of identities, frames and stamps, soundness of
    decoding, walks that lose and repeat nothing, equivalence of the two mailboxes, the task machine as the life cycle's outcome.
  \<^item> \<open>KeyringProps\<close>: refinement of the key life cycle, exact trust, finality of revocation for a principal, the file's round trip.
  \<^item> \<open>GuardProps\<close>: the bound on admitted requests, single admission of a nonce, and two ways around it.
  \<^item> \<open>IngressProps\<close>, \<open>EgressProps\<close>: what is delivered was verified, refusals leave the bus alone, accepted requests
    reach the mailbox of the broker model; what one gateway posts another verifies and unwraps to the same envelope.
  \<^item> \<open>RelayProps\<close>: on the fetch route only key holders drain a queue, in order and unchanged; connecting to the broker ends.
  \<^item> \<open>RelayFetch\<close>, \<open>InboxFile\<close>: the poller's pauses stay within their limits and it reads the batch the relay wrote;
    reading an inbox from a returned offset continues where it stopped, and a written cursor is read back.
  \<^item> \<open>SendProps\<close>: what \<open>famp send\<close> builds decodes on the bus as the class its mode asks for and passes the relay's
    guards; a local send with a task that is no id is stored and never read.
  \<^item> This theory: a remote send is verified at the peer and unwraps to what was sent.

  \<^bold>\<open>Bounds and fuel.\<close> No definition uses fuel. All functions are total; the two unbounded loops of the gateway are given
  by their rounds (\<open>egress_round\<close>, \<open>relay_fetch_rounds\<close>), and the client's polling and retries end by the code's own limits of 10 and 20.
  Counters are natural numbers where the code bounds them below their width; the frame length and key material are words.

  \<^bold>\<open>Not modelled.\<close> Concurrency inside a process: locks are held for single steps and requests are taken one after
  the other. Sockets, TLS, HTTP servers, timers, file opening, permissions and locking, what a spawned process does, log
  output. The broker's process (\<open>famp/src/cli/broker/mod.rs\<close>, \<open>accept.rs\<close>), the start-up of gateway and relay and
  the daemon's service files: they wire the modelled parts to the operating system. The deserialization of \<open>BusMessage\<close>
  frames, which serde derives; the actor takes messages. The commands other than \<open>send\<close>, the MCP server and the
  hooks: each sends messages that are modelled and formats the replies for a terminal, an editor or a JSON-RPC client.
  The inspector (\<open>famp-inspect-*\<close>), pairing and task records: read-only reports and user dialogues.
\<close>

subsection \<open>From the command line to the peer\<close>

text \<open>A successful preparation of a remote send, with what it resolved.\<close>

lemma prepare_remoteE:
  assumes "prepare_send env fl lib tm dr a = Inr (identity, t, v)" "parse_remote a = Inr (Some dst)"
  obtains home where "resolve_famp_home env = Inr home" "t = ToAgent (pname dst)" "wf_principal dst"
    "sa_to a = Some (principal_display dst)"
    "build_remote_envelope_value env fl lib tm dr a identity dst home = Inr v"
proof -
  have d: "sa_to a = Some (principal_display dst)" "wf_principal dst"
    using assms(2) by (auto simp: parse_remote_def principal_from_str_Inr_iff split: option.splits sum.splits if_splits)
  then show thesis
    using assms that
    by (auto simp: prepare_send_def res_bind_Inr_iff send_target_def build_envelope_value_def
        split: if_splits option.splits)
qed

text \<open>
  C36: From a command to another host. When \<open>famp send\<close> to a full principal gets as far as the bus, it
  addresses the bus name of that principal, and what it sends, once the gateway of a domain has relayed it
  from a mailbox line that holds it, is posted as bytes that the peer's gateway verifies as an envelope of
  the class the send's mode asks for, from the identity that sent it under the relaying gateway's domain;
  unwrapped, it is what was sent, field for field. Relied on are a working signature scheme, JSON writer and
  clock text, and that message ids can be printed and read back; the peer has the gateway's key as the
  sender's active key.
\<close>

theorem sent_envelope_verified_at_peer:
  assumes "honest_signer fl sk" "writer_faithful fl lib" "id_ok lib (sd_id dr)"
    and "\<forall>t i. sa_task a = Some t \<longrightarrow> parse_id lib t = Some i \<longrightarrow> id_ok lib i"
    and "\<forall>ts. fresh_ts tm dr = Inr ts \<longrightarrow> shallow_validate ts"
    and "\<forall>x. federation_expiry tm (dr_now gdr) = Inr x \<longrightarrow> shallow_validate x"
    and "prepare_send env fl lib tm dr a = Inr (identity, t, v)" "parse_remote a = Inr (Some dst)"
    and "parse_value lib line = Inr v"
    and "relay_one fl lib tm hl peers gdr v own sk (sk_verifying_key fl sk) w = (Inr (), v', w')"
    and "active_key kr \<lparr>authority = own, pname = identity\<rparr> now = KlActive (sk_verifying_key fl sk)"
  shows "t = ToAgent (pname dst) \<and>
    (\<exists>url res b e obj. hl_post hl url [(''content-type'', ''application/famp+json'')] b w = (res, w') \<and>
      verify_inbound_any fl lib b kr now = Inr e \<and> any_from e = \<lparr>authority = own, pname = identity\<rparr> \<and>
      signed_class e = (if sa_new_task a \<noteq> None then Request else if sa_terminal a then Deliver else Commit) \<and>
      parse_value lib b = Inr (JObj obj) \<and> strip_relay_fields (JObj obj) = v)"
  using assms(7,8)
proof (rule prepare_remoteE)
  fix home
  assume p: "t = ToAgent (pname dst)" "wf_principal dst"
    and b: "build_remote_envelope_value env fl lib tm dr a identity dst home = Inr v"
  obtain e d where e: "any_bus_decode lib line = Inr e" "bus_from e = \<lparr>authority = d, pname = identity\<rparr>"
      "bus_class e = remote_class a" "relayable v \<lparr>authority = d, pname = identity\<rparr> dst"
    using b assms(2,3) p(2) assms(5,4,9) by (rule remote_send_readable)
  have "d = own"
    using assms(10) e(4) by (auto simp: relay_one_def relayable_def split: if_splits)
  then show ?thesis
    using relayed_verifies [OF assms(1,2) e(1) assms(9,10,6)] assms(11) e(2,3) p(1) by (simp add: remote_class_def)
qed

theorem sent_envelope_verified_at_peer_witness:
  "\<exists>b e obj. verify_inbound_any e2e_fl e2e_ext b demo_keyring noon = Inr e \<and> any_from e = alice \<and>
     signed_class e = Request \<and> parse_value e2e_ext b = Inr (JObj obj) \<and> strip_relay_fields (JObj obj) = JObj e2e_plain"
proof -
  have "parse_remote e2e_args = Inr (Some bob)" "active_key demo_keyring alice noon = KlActive key_a"
    "fresh_ts out_time e2e_draw = Inr out_expiry"
    by code_simp+
  moreover have "\<lparr>authority = ''one.example'', pname = ''alice''\<rparr> = alice" by (simp add: alice_def)
  ultimately show ?thesis
    using sent_envelope_verified_at_peer [OF e2e_hypotheses, of e2e_draw e2e_args out_time out_draw e2e_env "''alice''"
        "ToAgent ''bob''" "JObj e2e_plain" bob "[12]" out_http out_peers "''one.example''" "[]" "JObj e2e_signed" _
        demo_keyring noon] e2e_prepared e2e_parse(1) e2e_relayed e2e_ext_parts(2) out_fields(5,6) e2e_fl_parts(6)
    by (auto simp: e2e_draw_def e2e_args_def)
qed

end
